(* ===== verification/Portal_Prelude.thy ===== *)
theory Portal_Prelude
  imports Main "HOL-Library.Sublist" "HOL-Library.Multiset"
begin

text \<open>
  Shared vocabulary of the development: the string operations of JavaScript that
  \<^verbatim>\<open>pkg/portal/static/app.js\<close> uses, decimal printing of numbers, and the generic
  facts on lists and strings that the component theories rest on.

  A JavaScript string is represented by its UTF-8 encoding, a \<^typ>\<open>string\<close> whose
  characters are bytes. Concatenation, equality, prefix and substring tests, the replacement of
  ASCII characters and percent-encoding act on the encoding exactly as they do on the
  JavaScript string. The three operations for which this is only so on ASCII text are
  \<^verbatim>\<open>toLowerCase\<close>, \<^verbatim>\<open>trim\<close> and \<^verbatim>\<open>length\<close>/\<^verbatim>\<open>substring\<close> of a tool name in the
  frequency chart: they leave bytes from 128 upwards alone, or count them one by one.
\<close>

named_theorems js_string \<open>equations of the JavaScript string operations\<close>
named_theorems dom_simps \<open>reads of the document after writes to it\<close>
named_theorems app_defs \<open>definitions unfolded when a handler is executed\<close>

section \<open>Strings\<close>

subsection \<open>Operations of String.prototype\<close>

definition js_startsWith :: "string \<Rightarrow> string \<Rightarrow> bool" where
  "js_startsWith s p = (take (length p) s = p)"

fun js_includes :: "string \<Rightarrow> string \<Rightarrow> bool" where
  "js_includes [] q = (q = [])"
| "js_includes (c # cs) q = (js_startsWith (c # cs) q \<or> js_includes cs q)"

text \<open>\<^verbatim>\<open>s || d\<close> for a string \<open>s\<close>: the empty string is falsy.\<close>

definition js_or :: "string \<Rightarrow> string \<Rightarrow> string" where
  "js_or s d = (if s = [] then d else s)"

text \<open>\<^verbatim>\<open>a || []\<close> for a decoded JSON array that may be \<^verbatim>\<open>null\<close>.\<close>

definition js_or_empty :: "'a list option \<Rightarrow> 'a list" where
  "js_or_empty x = (case x of None \<Rightarrow> [] | Some xs \<Rightarrow> xs)"

text \<open>ASCII white space removed by \<^verbatim>\<open>trim\<close>: tab, line feed, vertical tab, form feed,
  carriage return and space.\<close>

definition js_space :: "char \<Rightarrow> bool" where
  "js_space c = (let n = of_char c :: nat in n \<in> {9, 10, 11, 12, 13, 32})"

definition js_trim :: "string \<Rightarrow> string" where
  "js_trim s = rev (dropWhile js_space (rev (dropWhile js_space s)))"

definition js_lower_char :: "char \<Rightarrow> char" where
  "js_lower_char c =
     (let n = of_char c :: nat in
      if 65 \<le> n \<and> n \<le> 90 then char_of (n + 32) else c)"

definition js_toLowerCase :: "string \<Rightarrow> string" where
  "js_toLowerCase = map js_lower_char"

text \<open>\<^verbatim>\<open>split\<close> at a one-character separator, and \<^verbatim>\<open>join\<close>.\<close>

fun js_split :: "char \<Rightarrow> string \<Rightarrow> string list" where
  "js_split d [] = [[]]"
| "js_split d (c # cs) =
     (if c = d then [] # js_split d cs
      else (case js_split d cs of [] \<Rightarrow> [[c]] | w # ws \<Rightarrow> (c # w) # ws))"

fun js_join :: "string \<Rightarrow> string list \<Rightarrow> string" where
  "js_join d [] = []"
| "js_join d [s] = s"
| "js_join d (s # t # ts) = s @ d @ js_join d (t # ts)"

text \<open>The line break and indentation inside a template literal.\<close>

definition newline_char :: char where
  "newline_char = CHR 0x0A"

definition nl :: "nat \<Rightarrow> string" where
  "nl n = newline_char # replicate n (CHR '' '')"

text \<open>An attribute value in double quotes.\<close>

definition dq :: "string \<Rightarrow> string" where
  "dq s = CHR 0x22 # s @ [CHR 0x22]"

subsection \<open>Decimal printing\<close>

definition digit_char :: "nat \<Rightarrow> char" where
  "digit_char d = char_of (48 + d)"

fun nat_to_string :: "nat \<Rightarrow> string" where
  "nat_to_string n =
     (if n < 10 then [digit_char n] else nat_to_string (n div 10) @ [digit_char (n mod 10)])"

declare nat_to_string.simps [simp del]

definition int_to_string :: "int \<Rightarrow> string" where
  "int_to_string i = (if i < 0 then CHR ''-'' # nat_to_string (nat (- i)) else nat_to_string (nat i))"

section \<open>Encoders and their decoders\<close>

text \<open>
  The contract between a component that writes text and the one that reads it back: on the
  values in \<open>valid\<close>, decoding undoes encoding. It is interpreted on HTML escaping, percent
  encoding, hexadecimal bytes and decimal numbers.
\<close>

locale codec =
  fixes valid :: "'a \<Rightarrow> bool"
    and enc :: "'a \<Rightarrow> string"
    and dec :: "string \<Rightarrow> 'a"
  assumes dec_enc: "valid x \<Longrightarrow> dec (enc x) = x"
begin

lemma enc_inject: "valid x \<Longrightarrow> valid y \<Longrightarrow> enc x = enc y \<longleftrightarrow> x = y"
  by (metis dec_enc)

lemma enc_inj_on: "inj_on enc {x. valid x}"
  by (auto intro!: inj_onI simp: enc_inject)

end

section \<open>Lemmas\<close>

subsection \<open>Strings\<close>

lemma js_startsWith_prefix [js_string]: "js_startsWith s p \<longleftrightarrow> prefix p s"
  by (auto simp: js_startsWith_def prefix_def) (metis append_take_drop_id)

lemma js_startsWith_append [simp]: "js_startsWith (p @ s) p"
  by (simp add: js_startsWith_def)

lemma js_startsWith_Nil [simp]: "js_startsWith s []"
  by (simp add: js_startsWith_def)

lemma js_includes_Nil [simp]: "js_includes s []"
  by (cases s) (simp_all add: js_startsWith_def)

lemma js_includes_sublist [js_string]: "js_includes s q \<longleftrightarrow> sublist q s"
proof (induction s)
  case (Cons c cs)
  then show ?case
    by (simp add: js_startsWith_prefix sublist_Cons_right)
qed simp

lemma js_or_simps [simp]:
  "js_or [] d = d" "js_or (c # s) d = c # s"
  by (simp_all add: js_or_def)

lemma js_or_empty_simps [simp]:
  "js_or_empty None = []" "js_or_empty (Some xs) = xs"
  by (simp_all add: js_or_empty_def)

lemma js_split_nonempty [simp]: "js_split d s \<noteq> []"
  by (induction s) (auto split: list.splits)

lemma js_join_split: "js_join [d] (js_split d s) = s"
proof (induction s)
  case (Cons c cs)
  obtain w ws where w: "js_split d cs = w # ws"
    by (meson js_split_nonempty list.exhaust)
  show ?case
    using Cons w by (cases ws) auto
qed simp

lemma set_js_join: "set (js_join d ss) \<subseteq> set d \<union> \<Union> (set ` set ss)"
  by (induction d ss rule: js_join.induct) auto

subsection \<open>Digits\<close>

lemma of_char_digit: "d < 10 \<Longrightarrow> of_char (digit_char d) = (48 + d :: nat)"
  by (simp add: digit_char_def)

lemma nat_to_string_nonempty [simp]: "nat_to_string n \<noteq> []"
  by (subst nat_to_string.simps) simp

lemma nat_to_string_digits: "c \<in> set (nat_to_string n) \<Longrightarrow> \<exists>d < 10. c = digit_char d"
proof (induction n rule: nat_to_string.induct)
  case (1 n)
  show ?case
  proof (cases "n < 10")
    case True
    with "1.prems" show ?thesis
      by (subst (asm) nat_to_string.simps) auto
  next
    case False
    with "1.prems" have "c \<in> set (nat_to_string (n div 10)) \<or> c = digit_char (n mod 10)"
      by (subst (asm) nat_to_string.simps) auto
    with "1.IH" False show ?thesis
      by (auto intro: exI [of _ "n mod 10"])
  qed
qed

text \<open>Reading the digits back: printing is injective.\<close>

definition digits_value :: "string \<Rightarrow> nat" where
  "digits_value s = foldl (\<lambda>a c. 10 * a + (of_char c - 48)) 0 s"

lemma digits_value_snoc [simp]:
  "digits_value (s @ [c]) = 10 * digits_value s + (of_char c - 48)"
  by (simp add: digits_value_def)

lemma digits_value_nat_to_string [simp]: "digits_value (nat_to_string n) = n"
proof (induction n rule: nat_to_string.induct)
  case (1 n)
  show ?case
  proof (cases "n < 10")
    case True
    then show ?thesis
      by (subst nat_to_string.simps) (simp add: digits_value_def of_char_digit)
  next
    case False
    with "1.IH" show ?thesis
      by (subst nat_to_string.simps) (simp add: of_char_digit)
  qed
qed

interpretation decimal: codec "\<lambda>_. True" nat_to_string digits_value
  by unfold_locales simp

lemma nat_to_string_inject [simp]: "nat_to_string m = nat_to_string n \<longleftrightarrow> m = n"
  by (simp add: decimal.enc_inject)

subsection \<open>Lists\<close>

lemma find_Some_mem: "find P xs = Some x \<Longrightarrow> x \<in> set xs \<and> P x"
  by (auto simp: find_Some_iff)

lemma list_all_take: "list_all P xs \<Longrightarrow> list_all P (take i xs)"
  by (auto simp: list_all_iff dest: in_set_takeD)

lemma list_all_drop: "list_all P xs \<Longrightarrow> list_all P (drop i xs)"
  by (auto simp: list_all_iff dest: in_set_dropD)

lemma sum_list_bounded:
  fixes xs :: "int list"
  assumes "\<And>x. x \<in> set xs \<Longrightarrow> lo \<le> x \<and> x \<le> hi"
  shows "int (length xs) * lo \<le> sum_list xs \<and> sum_list xs \<le> int (length xs) * hi"
  using assms
proof (induction xs)
  case (Cons x xs)
  then have "lo \<le> x \<and> x \<le> hi"
    and "int (length xs) * lo \<le> sum_list xs \<and> sum_list xs \<le> int (length xs) * hi"
    by auto
  then show ?case by (simp add: algebra_simps)
qed simp

lemma sorted_take_le:
  "sorted (map f xs) \<Longrightarrow> x \<in> set (take n xs) \<Longrightarrow> y \<in> set (drop n xs) \<Longrightarrow> f x \<le> f y"
proof -
  assume "sorted (map f xs)" and x: "x \<in> set (take n xs)" "y \<in> set (drop n xs)"
  then have "sorted (map f (take n xs) @ map f (drop n xs))" by (simp flip: map_append)
  with x show ?thesis by (simp add: sorted_append)
qed

lemma sorted_rank:
  assumes "sorted xs" "i < length xs"
  shows "Suc i \<le> length (filter (\<lambda>x. x \<le> xs ! i) xs)" "length (filter (\<lambda>x. x < xs ! i) xs) \<le> i"
proof -
  have "filter (\<lambda>x. x \<le> xs ! i) (take (Suc i) xs) = take (Suc i) xs"
    using assms by (auto simp: filter_id_conv in_set_conv_nth less_Suc_eq_le intro!: sorted_nth_mono)
  then have "Suc i \<le> length (filter (\<lambda>x. x \<le> xs ! i) (take (Suc i) xs @ drop (Suc i) xs))"
    using assms(2) by (simp only: filter_append length_append length_take)
  then show "Suc i \<le> length (filter (\<lambda>x. x \<le> xs ! i) xs)" by simp
  have "filter (\<lambda>x. x < xs ! i) (drop i xs) = []"
    using assms by (force simp: filter_empty_conv in_set_conv_nth not_less intro: sorted_nth_mono)
  then have "length (filter (\<lambda>x. x < xs ! i) (take i xs @ drop i xs)) \<le> i"
    by (simp only: filter_append) (simp add: le_trans [OF length_filter_le])
  then show "length (filter (\<lambda>x. x < xs ! i) xs) \<le> i" by simp
qed

lemma filter_sort_length:
  "length (filter P (sort (map f xs))) = length (filter (\<lambda>x. P (f x)) xs)"
proof -
  have "length (filter P (sort (map f xs))) = size (filter_mset P (mset (map f xs)))"
    unfolding size_mset [symmetric] mset_filter by simp
  also have "\<dots> = length (filter P (map f xs))"
    unfolding size_mset [symmetric] mset_filter by simp
  finally show ?thesis by (simp add: filter_map o_def)
qed

lemma foldr_max_upper: "x \<in> set xs \<Longrightarrow> x \<le> foldr max xs (a :: 'a :: linorder)" "a \<le> foldr max xs a"
  by (induction xs) (auto simp: le_max_iff_disj)

section \<open>Tallies\<close>

text \<open>
  An insertion-ordered map to which entries are added one by one: \<open>add\<close> combines the value of a
  key with a new entry. The laws are those of \<^verbatim>\<open>Map\<close> and, for the keys that satisfy \<open>ok\<close>, of a
  plain object used as a map.
\<close>

locale tally =
  fixes ok :: "'k \<Rightarrow> bool"
    and get :: "'m \<Rightarrow> 'k \<Rightarrow> 'v"
    and put :: "'m \<Rightarrow> 'k \<Rightarrow> 'x \<Rightarrow> 'm"
    and add :: "'v \<Rightarrow> 'x \<Rightarrow> 'v"
    and keys :: "'m \<Rightarrow> 'k list"
  assumes get_put: "ok k \<Longrightarrow> get (put m k x) k' = (if k' = k then add (get m k) x else get m k')"
    and keys_put: "ok k \<Longrightarrow> keys (put m k x) = (if k \<in> set (keys m) then keys m else keys m @ [k])"
begin

lemma get_fold:
  "(\<And>e. e \<in> set es \<Longrightarrow> ok (key e)) \<Longrightarrow>
   get (foldl (\<lambda>m e. put m (key e) (entry e)) m es) k =
     foldl add (get m k) (map entry (filter (\<lambda>e. key e = k) es))"
  by (induction es arbitrary: m) (auto simp: get_put)

lemma keys_fold:
  "(\<And>e. e \<in> set es \<Longrightarrow> ok (key e)) \<Longrightarrow> distinct (keys m) \<Longrightarrow>
   distinct (keys (foldl (\<lambda>m e. put m (key e) (entry e)) m es)) \<and>
   set (keys (foldl (\<lambda>m e. put m (key e) (entry e)) m es)) = set (keys m) \<union> key ` set es"
proof (induction es arbitrary: m)
  case (Cons e es)
  have e: "ok (key e)" using Cons.prems(1) by simp
  then have "distinct (keys (put m (key e) (entry e)))" using Cons.prems(2) by (simp add: keys_put)
  from Cons.IH [OF _ this] Cons.prems(1) show ?case by (auto simp: keys_put e)
qed simp

end

end
