(* ===== verification/Portal_Uri.thy ===== *)
theory Portal_Uri
  imports Portal_Prelude "HOL-Library.Word"
begin

text \<open>
  URLs in \<^verbatim>\<open>app.js\<close>: \<^verbatim>\<open>encodeURIComponent\<close> in the query strings of the delete
  requests, \<^verbatim>\<open>URLSearchParams\<close> on the fragment that the SSO callback redirects to, and the
  hexadecimal client tokens of the token form.
\<close>

section \<open>Definitions\<close>

subsection \<open>Hexadecimal digits\<close>

definition hex_digit :: "string \<Rightarrow> nat \<Rightarrow> char" where
  "hex_digit alphabet n = alphabet ! n"

abbreviation upper_hex :: string where
  "upper_hex \<equiv> ''0123456789ABCDEF''"

abbreviation lower_hex :: string where
  "lower_hex \<equiv> ''0123456789abcdef''"

definition hex_value :: "char \<Rightarrow> nat option" where
  "hex_value c =
     (let n = of_char c :: nat in
      if 48 \<le> n \<and> n \<le> 57 then Some (n - 48)
      else if 65 \<le> n \<and> n \<le> 70 then Some (n - 55)
      else if 97 \<le> n \<and> n \<le> 102 then Some (n - 87)
      else None)"

subsection \<open>encodeURIComponent\<close>

text \<open>The characters left alone: letters, digits and \<^verbatim>\<open>- _ . ! ~ * ' ( )\<close>.\<close>

definition uri_unreserved :: "char \<Rightarrow> bool" where
  "uri_unreserved c =
     (let n = of_char c :: nat in
      (48 \<le> n \<and> n \<le> 57) \<or> (65 \<le> n \<and> n \<le> 90) \<or> (97 \<le> n \<and> n \<le> 122) \<or>
      n \<in> {45, 95, 46, 33, 126, 42, 39, 40, 41})"

definition percent_byte :: "char \<Rightarrow> string" where
  "percent_byte c =
     (let n = of_char c :: nat in
      [CHR ''%'', hex_digit upper_hex (n div 16), hex_digit upper_hex (n mod 16)])"

definition encodeURIComponent :: "string \<Rightarrow> string" where
  "encodeURIComponent s = concat (map (\<lambda>c. if uri_unreserved c then [c] else percent_byte c) s)"

subsection \<open>application/x-www-form-urlencoded parsing\<close>

text \<open>
  Decoding of a name or value: \<^verbatim>\<open>+\<close> is a space, \<^verbatim>\<open>%XY\<close> with two hexadecimal digits is a
  byte, anything else stands for itself. This is what \<^verbatim>\<open>URLSearchParams\<close> does and, on
  well-formed input, what the server's \<^verbatim>\<open>URL.Query()\<close> does.
\<close>

fun form_decode :: "string \<Rightarrow> string" where
  "form_decode [] = []"
| "form_decode [a] = [if a = CHR ''+'' then CHR '' '' else a]"
| "form_decode [a, b] =
     [if a = CHR ''+'' then CHR '' '' else a, if b = CHR ''+'' then CHR '' '' else b]"
| "form_decode (a # b # c # s) =
     (if a = CHR ''+'' then CHR '' '' # form_decode (b # c # s)
      else if a = CHR ''%'' then
        (case (hex_value b, hex_value c) of
           (Some h, Some l) \<Rightarrow> char_of (16 * h + l) # form_decode s
         | _ \<Rightarrow> a # form_decode (b # c # s))
      else a # form_decode (b # c # s))"

definition split_pair :: "string \<Rightarrow> string \<times> string" where
  "split_pair s =
     (takeWhile (\<lambda>c. c \<noteq> CHR ''='') s, drop 1 (dropWhile (\<lambda>c. c \<noteq> CHR ''='') s))"

definition parse_form :: "string \<Rightarrow> (string \<times> string) list" where
  "parse_form s =
     map (\<lambda>p. (form_decode (fst (split_pair p)), form_decode (snd (split_pair p))))
       (filter (\<lambda>p. p \<noteq> []) (js_split (CHR ''&'') s))"

text \<open>\<^verbatim>\<open>new URLSearchParams(s).get(name)\<close>: the first value, or \<^verbatim>\<open>null\<close>.\<close>

definition searchParams_get :: "string \<Rightarrow> string \<Rightarrow> string option" where
  "searchParams_get s name = map_of (parse_form s) name"

subsection \<open>Client token generation\<close>

text \<open>\<^verbatim>\<open>n.toString(16)\<close> and \<^verbatim>\<open>padStart(2, '0')\<close>.\<close>

fun to_string16 :: "nat \<Rightarrow> string" where
  "to_string16 n =
     (if n < 16 then [hex_digit lower_hex n]
      else to_string16 (n div 16) @ [hex_digit lower_hex (n mod 16)])"

declare to_string16.simps [simp del]

definition padStart :: "nat \<Rightarrow> char \<Rightarrow> string \<Rightarrow> string" where
  "padStart n c s = replicate (n - length s) c @ s"

definition hex_byte :: "8 word \<Rightarrow> string" where
  "hex_byte b = padStart 2 (CHR ''0'') (to_string16 (unat b))"

text \<open>The value the Generate button puts into the form, from 20 random bytes.\<close>

definition generate_token_value :: "8 word list \<Rightarrow> string" where
  "generate_token_value bytes = ''mcp_client_'' @ concat (map hex_byte bytes)"

fun hex_decode :: "string \<Rightarrow> 8 word list" where
  "hex_decode (a # b # s) =
     (case (hex_value a, hex_value b) of
        (Some h, Some l) \<Rightarrow> word_of_nat (16 * h + l) # hex_decode s
      | _ \<Rightarrow> [])"
| "hex_decode _ = []"

section \<open>Lemmas\<close>

subsection \<open>Hexadecimal\<close>

lemma hex_values:
  "list_all (\<lambda>n. hex_value (hex_digit upper_hex n) = Some n \<and> hex_value (hex_digit lower_hex n) = Some n) [0..<16]"
  by code_simp

lemma hex_value_upper [simp]: "n < 16 \<Longrightarrow> hex_value (hex_digit upper_hex n) = Some n"
  and hex_value_lower [simp]: "n < 16 \<Longrightarrow> hex_value (hex_digit lower_hex n) = Some n"
  using hex_values by (simp_all only: list_all_iff set_upt atLeastLessThan_iff) auto

lemma of_char_less_256 [simp]: "of_char c < (256 :: nat)"
  by simp

lemma of_char_div_16 [simp]: "of_char c div 16 < (16 :: nat)"
  using of_char_less_256 [of c] by (simp add: less_mult_imp_div_less)

lemma hex_digit_in: "n < 16 \<Longrightarrow> hex_digit upper_hex n \<in> set upper_hex"
  unfolding hex_digit_def by (rule nth_mem) simp

subsection \<open>Percent encoding\<close>

lemma uri_unreserved_plain: "uri_unreserved c \<Longrightarrow> c \<noteq> CHR ''+'' \<and> c \<noteq> CHR ''%'' \<and> c \<noteq> CHR ''&'' \<and> c \<noteq> CHR ''=''"
  by (auto simp: uri_unreserved_def)

lemma form_decode_plain:
  "c \<noteq> CHR ''+'' \<Longrightarrow> c \<noteq> CHR ''%'' \<Longrightarrow> form_decode (c # s) = c # form_decode s"
  by (cases s; cases "tl s") auto

lemma form_decode_percent: "form_decode (percent_byte c @ s) = c # form_decode s"
proof -
  have "16 * (of_char c div 16) + of_char c mod 16 = (of_char c :: nat)"
    by simp
  then have "char_of (16 * (of_char c div 16) + of_char c mod 16 :: nat) = c"
    by (simp only: char_of_char)
  then show ?thesis
    by (simp add: percent_byte_def Let_def)
qed

lemma encodeURIComponent_Nil [simp]: "encodeURIComponent [] = []"
  by (simp add: encodeURIComponent_def)

lemma encodeURIComponent_Cons:
  "encodeURIComponent (c # s) =
     (if uri_unreserved c then [c] else percent_byte c) @ encodeURIComponent s"
  by (simp add: encodeURIComponent_def)

lemma form_decode_encode: "form_decode (encodeURIComponent s) = s"
proof (induction s)
  case (Cons c s)
  then show ?case
    by (simp add: encodeURIComponent_Cons form_decode_plain form_decode_percent uri_unreserved_plain)
qed simp

interpretation uri: codec "\<lambda>_. True" encodeURIComponent form_decode
  by unfold_locales (rule form_decode_encode)

lemma set_percent_byte: "set (percent_byte c) \<subseteq> insert (CHR ''%'') (set upper_hex)"
  using hex_digit_in [of "of_char c div 16"] hex_digit_in [of "of_char c mod 16"]
  by (auto simp: percent_byte_def Let_def)

lemma encodeURIComponent_no_delim:
  "c \<in> set (encodeURIComponent s) \<Longrightarrow> c \<noteq> CHR ''&'' \<and> c \<noteq> CHR ''='' \<and> c \<noteq> CHR ''+''"
proof (induction s)
  case (Cons x s)
  then consider "uri_unreserved x" "c = x" | "c \<in> set (percent_byte x)"
    | "c \<in> set (encodeURIComponent s)"
    by (auto simp: encodeURIComponent_Cons split: if_splits)
  then show ?case
  proof cases
    case 1
    then show ?thesis using uri_unreserved_plain by blast
  next
    case 2
    then have "c \<in> insert (CHR ''%'') (set upper_hex)" using set_percent_byte by blast
    then show ?thesis by auto
  next
    case 3
    then show ?thesis by (rule Cons.IH)
  qed
qed simp

subsection \<open>Form parsing\<close>

lemma js_split_no_delim: "d \<notin> set s \<Longrightarrow> js_split d s = [s]"
  by (induction s) auto

lemma js_split_append: "d \<notin> set s \<Longrightarrow> js_split d (s @ d # t) = s # js_split d t"
  by (induction s) auto

lemma split_pair_append: "CHR ''='' \<notin> set k \<Longrightarrow> split_pair (k @ CHR ''='' # v) = (k, v)"
  by (induction k) (auto simp: split_pair_def)

lemma form_decode_id: "CHR ''+'' \<notin> set s \<Longrightarrow> CHR ''%'' \<notin> set s \<Longrightarrow> form_decode s = s"
  by (induction s) (auto simp: form_decode_plain)

lemma parse_form_pair:
  "CHR ''='' \<notin> set k \<Longrightarrow> CHR ''&'' \<notin> set k \<Longrightarrow> CHR ''&'' \<notin> set v \<Longrightarrow>
   parse_form (k @ CHR ''='' # v @ CHR ''&'' # t) = (form_decode k, form_decode v) # parse_form t"
  using js_split_append [of "CHR ''&''" "k @ CHR ''='' # v" t]
  by (simp add: parse_form_def split_pair_append)

lemma parse_form_last:
  "CHR ''='' \<notin> set k \<Longrightarrow> CHR ''&'' \<notin> set k \<Longrightarrow> CHR ''&'' \<notin> set v \<Longrightarrow>
   parse_form (k @ CHR ''='' # v) = [(form_decode k, form_decode v)]"
  using js_split_no_delim [of "CHR ''&''" "k @ CHR ''='' # v"]
  by (simp add: parse_form_def split_pair_append)

subsection \<open>Token generation\<close>

lemma to_string16_byte:
  assumes "n < 256"
  shows "padStart 2 (CHR ''0'') (to_string16 n) =
           [hex_digit lower_hex (n div 16), hex_digit lower_hex (n mod 16)]"
proof (cases "n < 16")
  case True
  then show ?thesis
    by (simp add: to_string16.simps padStart_def hex_digit_def)
next
  case False
  from assms have "n div 16 < 16" by (simp add: less_mult_imp_div_less)
  with False show ?thesis
    by (simp add: to_string16.simps [of n] to_string16.simps [of "n div 16"] padStart_def)
qed

lemma unat_byte_less [simp]: "unat (b :: 8 word) < 256"
  using unsigned_less [of b, where ?'a = nat] by simp

lemma hex_byte_digits:
  "hex_byte b = [hex_digit lower_hex (unat b div 16), hex_digit lower_hex (unat b mod 16)]"
  unfolding hex_byte_def by (rule to_string16_byte) simp

lemma hex_decode_byte: "hex_decode (hex_byte b @ s) = b # hex_decode s"
proof -
  have "unat b div 16 < 16" by (simp add: less_mult_imp_div_less)
  then show ?thesis by (simp add: hex_byte_digits)
qed

lemma hex_decode_concat: "hex_decode (concat (map hex_byte bs)) = bs"
  by (induction bs) (simp_all add: hex_decode_byte)

interpretation hexbytes: codec "\<lambda>_. True" "\<lambda>bs. concat (map hex_byte bs)" hex_decode
  by unfold_locales (rule hex_decode_concat)

lemma length_hex_bytes: "length (concat (map hex_byte bs)) = 2 * length bs"
  by (induction bs) (simp_all add: hex_byte_digits)

end
