(* ===== verification/Portal_Html.thy ===== *)
theory Portal_Html
  imports Portal_Prelude
begin

text \<open>
  HTML rendering in \<^verbatim>\<open>app.js\<close>: the escaping function that every template of the portal
  relies on, the status badges of the settings page, and a reference scanner for HTML markup
  against which the templates of the other theories are judged.
\<close>

section \<open>Definitions\<close>

subsection \<open>escapeHtml\<close>

definition escape_char :: "char \<Rightarrow> string" where
  "escape_char c =
     (if c = CHR ''&'' then ''&amp;''
      else if c = CHR ''<'' then ''&lt;''
      else if c = CHR ''>'' then ''&gt;''
      else if c = CHR 0x22 then ''&quot;''
      else if c = CHR 0x27 then ''&#039;''
      else [c])"

definition escapeHtml :: "string \<Rightarrow> string" where
  "escapeHtml text = (if text = [] then [] else concat (map escape_char text))"

subsection \<open>Badges of the settings page\<close>

definition statusBadge :: "string \<Rightarrow> string \<Rightarrow> string \<Rightarrow> string" where
  "statusBadge modifierClass extraStyle label =
     (let cls = (if modifierClass \<noteq> [] then '' '' @ modifierClass else []);
          style = (if extraStyle \<noteq> [] then '' style='' @ dq extraStyle else [])
      in ''<span class='' @ dq (''badge-status'' @ cls) @ style @ ''>''
           @ escapeHtml label @ ''</span>'')"

text \<open>
  The payload of \<^verbatim>\<open>/api/settings\<close> as the portal reads it. A string field that the
  response leaves out is \<^verbatim>\<open>undefined\<close>; the code only tests such a field for truth before
  it uses it, so absence is the empty string here. The two booleans are inspected with
  \<^verbatim>\<open>typeof\<close>, so absence is \<^const>\<open>None\<close>.
\<close>

record settings =
  port :: string
  database_path :: string
  vault_provider :: string
  vault_local_path :: string
  oidc_issuer :: string
  oidc_client_id :: string
  tls_mode :: string
  tls_enabled :: "bool option"
  tls_cert_path :: string
  mtls_mode :: string
  mtls_enabled :: "bool option"
  client_ca_path :: string

definition tls_mode_of :: "settings \<Rightarrow> string" where
  "tls_mode_of data =
     (if tls_mode data \<noteq> [] then tls_mode data
      else (case tls_enabled data of
              Some b \<Rightarrow> (if b then ''pod'' else ''none'')
            | None \<Rightarrow> (if tls_cert_path data \<noteq> [] then ''pod'' else ''none'')))"

definition renderTlsStatusBadge :: "settings \<Rightarrow> string" where
  "renderTlsStatusBadge data =
     (let mode = tls_mode_of data in
      if mode = ''pod'' then statusBadge ''active'' [] ''ENCRYPTED (HTTPS, pod TLS 1.3)''
      else if mode = ''edge'' then
        statusBadge ''active'' [] ''ENCRYPTED (TLS at ingress)'' @
        '' <span class='' @ dq ''text-muted'' @
        ''>External traffic is TLS-terminated at the ingress</span>''
      else
        statusBadge ''disabled'' [] ''UNENCRYPTED (HTTP)'' @ '' (Set TLS_CERT_PATH to secure)'')"

definition mtls_mode_of :: "settings \<Rightarrow> string" where
  "mtls_mode_of data =
     (if mtls_mode data \<noteq> [] then mtls_mode data
      else (case mtls_enabled data of
              Some b \<Rightarrow> (if b then ''pod'' else ''off'')
            | None \<Rightarrow> (if client_ca_path data \<noteq> [] then ''required'' else ''off'')))"

definition renderMtlsStatusBadge :: "settings \<Rightarrow> string" where
  "renderMtlsStatusBadge data =
     (let mode = mtls_mode_of data in
      if mode = ''required'' then statusBadge ''active'' [] ''mTLS REQUIRED''
      else if mode = ''optional'' then
        statusBadge []
          ''background: hsla(45, 90%, 50%, 0.15); color: var(--warning); border: 1px solid hsla(45, 90%, 50%, 0.3);''
          ''mTLS OPTIONAL'' @
        '' <span class='' @ dq ''text-muted'' @
        ''>Clients may present a client certificate; token auth still accepted</span>''
      else if mode = ''pod'' then statusBadge ''active'' [] ''mTLS ENABLED (pod)''
      else
        statusBadge ''disabled'' [] ''mTLS DISABLED'' @
        '' (Clients authenticated via HTTP Token only)'')"

text \<open>The OIDC line of the settings page (written inline in \<^verbatim>\<open>loadSettingsConfig\<close>).\<close>

definition oidc_status_html :: "settings \<Rightarrow> string" where
  "oidc_status_html data =
     (if oidc_issuer data \<noteq> []
      then ''<span class='' @ dq ''badge-status active'' @
           ''>SSO Enabled</span> <code>'' @ escapeHtml (oidc_client_id data) @ ''</code>''
      else ''<span class='' @ dq ''badge-status disabled'' @
           ''>SSO Disabled</span> (Using default Admin credentials)'')"

section \<open>Reference semantics of HTML text\<close>

subsection \<open>Character references\<close>

text \<open>
  What the browser's parser makes of text or of an attribute value that holds the five
  references \<^verbatim>\<open>escapeHtml\<close> writes: each is read as its character, in one pass.
\<close>

fun strip_prefix :: "string \<Rightarrow> string \<Rightarrow> string option" where
  "strip_prefix [] s = Some s"
| "strip_prefix (p # ps) [] = None"
| "strip_prefix (p # ps) (c # cs) = (if p = c then strip_prefix ps cs else None)"

definition char_refs :: "(string \<times> char) list" where
  "char_refs = [(''&amp;'', CHR ''&''), (''&lt;'', CHR ''<''), (''&gt;'', CHR ''>''),
                (''&quot;'', CHR 0x22), (''&#039;'', CHR 0x27)]"

fun decode_ref :: "(string \<times> char) list \<Rightarrow> string \<Rightarrow> (char \<times> string) option" where
  "decode_ref [] s = None"
| "decode_ref ((p, c) # rs) s =
     (case strip_prefix p s of Some t \<Rightarrow> Some (c, t) | None \<Rightarrow> decode_ref rs s)"

lemma strip_prefix_iff: "strip_prefix p s = Some t \<longleftrightarrow> s = p @ t"
  by (induction p s rule: strip_prefix.induct) auto

lemma decode_ref_length:
  "decode_ref rs s = Some (c, t) \<Longrightarrow> \<forall>(p, x) \<in> set rs. p \<noteq> [] \<Longrightarrow> length t < length s"
  by (induction rs s rule: decode_ref.induct)
     (auto simp: strip_prefix_iff split: option.splits)

lemma decode_char_ref_length:
  "decode_ref char_refs s = Some (c, t) \<Longrightarrow> length t < length s"
  by (erule decode_ref_length) (simp add: char_refs_def)

function html_decode :: "string \<Rightarrow> string" where
  "html_decode [] = []"
| "html_decode (c # cs) =
     (case decode_ref char_refs (c # cs) of
        Some (d, rest) \<Rightarrow> d # html_decode rest
      | None \<Rightarrow> c # html_decode cs)"
  by pat_completeness auto
termination
  by (relation "measure length") (auto dest: decode_char_ref_length)

subsection \<open>Markup\<close>

text \<open>
  Where in the page's markup the parser is: in text, inside a tag, or inside a quoted
  attribute value. \<open>markup\<close> keeps the characters of tags and quotes and drops text and
  attribute values, so two renderings with the same \<open>markup\<close> have the same elements and
  attributes and differ in text and attribute values only.
\<close>

datatype html_mode = InText | InTag | InDq | InSq

fun html_step :: "html_mode \<Rightarrow> char \<Rightarrow> html_mode" where
  "html_step InText c = (if c = CHR ''<'' then InTag else InText)"
| "html_step InTag c =
     (if c = CHR ''>'' then InText
      else if c = CHR 0x22 then InDq
      else if c = CHR 0x27 then InSq
      else InTag)"
| "html_step InDq c = (if c = CHR 0x22 then InTag else InDq)"
| "html_step InSq c = (if c = CHR 0x27 then InTag else InSq)"

fun scan :: "html_mode \<Rightarrow> string \<Rightarrow> html_mode" where
  "scan m [] = m"
| "scan m (c # cs) = scan (html_step m c) cs"

fun markup :: "html_mode \<Rightarrow> string \<Rightarrow> string" where
  "markup m [] = []"
| "markup m (c # cs) =
     (if m \<noteq> InTag \<and> html_step m c = m then markup m cs
      else c # markup (html_step m c) cs)"

text \<open>Text that opens no tag and closes no attribute value.\<close>

definition inert :: "string \<Rightarrow> bool" where
  "inert s = (\<forall>c \<in> set s. c \<noteq> CHR ''<'' \<and> c \<noteq> CHR 0x22 \<and> c \<noteq> CHR 0x27)"

text \<open>A template's text is well formed and has the same markup as another one.\<close>

definition safe_row :: "string \<Rightarrow> string \<Rightarrow> bool" where
  "safe_row r r' \<longleftrightarrow> scan InText r = InText \<and> markup InText r = markup InText r'"

text \<open>The argument of a call \<^verbatim>\<open>f('...')\<close> in the source of an inline event handler, as the JavaScript
  parser reads it: the text up to the first quote, unless it holds a backslash or a line break,
  which are not taken literally.\<close>

definition js_quoted_arg :: "string \<Rightarrow> string option" where
  "js_quoted_arg s =
     (let t = takeWhile (\<lambda>c. c \<noteq> CHR 0x27) s
      in if set t \<inter> {CHR 0x5C, CHR 0x0A, CHR 0x0D} = {} then Some t else None)"

section \<open>Lemmas\<close>

subsection \<open>Scanning\<close>

lemma scan_append [simp]: "scan m (s @ t) = scan (scan m s) t"
  by (induction s arbitrary: m) auto

lemma markup_append [simp]: "markup m (s @ t) = markup m s @ markup (scan m s) t"
  by (induction s arbitrary: m) auto

lemma inert_append [simp]: "inert (s @ t) \<longleftrightarrow> inert s \<and> inert t"
  by (auto simp: inert_def)

lemma inert_Nil [simp]: "inert []"
  by (simp add: inert_def)

lemma inert_Cons [simp]:
  "inert (c # s) \<longleftrightarrow> c \<noteq> CHR ''<'' \<and> c \<noteq> CHR 0x22 \<and> c \<noteq> CHR 0x27 \<and> inert s"
  by (auto simp: inert_def)

lemma inert_step: "inert [c] \<Longrightarrow> m \<noteq> InTag \<Longrightarrow> html_step m c = m"
  by (cases m) auto

lemma scan_inert: "inert s \<Longrightarrow> m \<noteq> InTag \<Longrightarrow> scan m s = m"
  by (induction s) (auto simp: inert_step)

lemma markup_inert: "inert s \<Longrightarrow> m \<noteq> InTag \<Longrightarrow> markup m s = []"
  by (induction s) (auto simp: inert_step)

text \<open>
  A template hole: a renderer whose output is inert never changes the markup around it,
  in text or in a quoted attribute value.
\<close>

locale hole =
  fixes render :: "'a \<Rightarrow> string"
  assumes render_inert: "inert (render x)"
begin

lemma scan_render [simp]: "m \<noteq> InTag \<Longrightarrow> scan m (render x) = m"
  by (simp add: scan_inert render_inert)

lemma markup_render [simp]: "m \<noteq> InTag \<Longrightarrow> markup m (render x) = []"
  by (simp add: markup_inert render_inert)

end

subsection \<open>Escaping\<close>

lemma escapeHtml_concat: "escapeHtml s = concat (map escape_char s)"
  by (simp add: escapeHtml_def)

lemma escapeHtml_Nil [simp]: "escapeHtml [] = []"
  by (simp add: escapeHtml_def)

lemma escapeHtml_Cons [simp]: "escapeHtml (c # s) = escape_char c @ escapeHtml s"
  by (simp add: escapeHtml_concat)

lemma escapeHtml_append: "escapeHtml (s @ t) = escapeHtml s @ escapeHtml t"
  by (simp add: escapeHtml_concat)

lemma escape_char_inert: "inert (escape_char c)"
  by (simp add: escape_char_def)

lemma escape_char_no_gt: "CHR ''>'' \<notin> set (escape_char c)"
  by (simp add: escape_char_def)

lemma escapeHtml_inert: "inert (escapeHtml s)"
  by (induction s) (simp_all add: escape_char_inert)

interpretation esc: hole escapeHtml
  by unfold_locales (rule escapeHtml_inert)

lemma digit_char_inert: "d < 10 \<Longrightarrow> inert [digit_char d]"
  by (auto simp: inert_def dest!: arg_cong [where f = "of_char :: char \<Rightarrow> nat"] simp: of_char_digit)

lemma nat_to_string_inert: "inert (nat_to_string n)"
  using nat_to_string_digits [of _ n] digit_char_inert
  by (fastforce simp: inert_def)

lemma int_to_string_inert: "inert (int_to_string i)"
  by (simp add: int_to_string_def nat_to_string_inert)

interpretation dec_nat: hole nat_to_string
  by unfold_locales (rule nat_to_string_inert)

interpretation dec_int: hole int_to_string
  by unfold_locales (rule int_to_string_inert)

subsection \<open>Decoding\<close>

lemma decode_ref_None:
  "CHR ''&'' \<noteq> c \<Longrightarrow> decode_ref char_refs (c # s) = None"
  by (simp add: char_refs_def)

lemma html_decode_escape_char: "html_decode (escape_char c @ s) = c # html_decode s"
proof (cases "c = CHR ''&'' \<or> c = CHR ''<'' \<or> c = CHR ''>'' \<or> c = CHR 0x22 \<or> c = CHR 0x27")
  case True
  then show ?thesis
    by (auto simp: escape_char_def char_refs_def)
next
  case False
  then have "CHR ''&'' \<noteq> c" by auto
  with False show ?thesis
    by (simp add: escape_char_def decode_ref_None)
qed

lemma html_decode_escapeHtml_append: "html_decode (escapeHtml s @ t) = s @ html_decode t"
  by (induction s) (simp_all add: html_decode_escape_char)

lemma html_decode_escapeHtml: "html_decode (escapeHtml s) = s"
  using html_decode_escapeHtml_append [of s "[]"] by simp

interpretation html: codec "\<lambda>_. True" escapeHtml html_decode
  by unfold_locales (rule html_decode_escapeHtml)

lemma html_decode_plain: "CHR ''&'' \<notin> set s \<Longrightarrow> html_decode (s @ t) = s @ html_decode t"
  by (induction s) (simp_all add: decode_ref_None)

subsection \<open>Templates\<close>

lemma inert_nl: "inert (nl n)"
  by (auto simp: nl_def newline_char_def inert_def)

interpretation line: hole nl
  by unfold_locales (rule inert_nl)

lemma inert_js_or: "inert s \<Longrightarrow> inert d \<Longrightarrow> inert (js_or s d)"
  by (simp add: js_or_def)

lemma scan_InDq: "CHR 0x22 \<notin> set s \<Longrightarrow> scan InDq s = InDq" "CHR 0x22 \<notin> set s \<Longrightarrow> markup InDq s = []"
  by (induction s) auto

lemma inert_no_quote: "inert s \<Longrightarrow> CHR 0x22 \<notin> set s"
  by (auto simp: inert_def)

lemma scan_dq: "CHR 0x22 \<notin> set s \<Longrightarrow> scan InTag (dq s) = InTag"
  by (simp add: dq_def scan_InDq)

lemma markup_dq: "CHR 0x22 \<notin> set s \<Longrightarrow> markup InTag (dq s) = [CHR 0x22, CHR 0x22]"
  by (simp add: dq_def scan_InDq)

lemma inert_if: "inert (if c then s else t) = ((c \<longrightarrow> inert s) \<and> (\<not> c \<longrightarrow> inert t))"
  by simp

lemma quote_if: "CHR 0x22 \<in> set (if c then s else t) \<longleftrightarrow> (c \<longrightarrow> CHR 0x22 \<in> set s) \<and> (\<not> c \<longrightarrow> CHR 0x22 \<in> set t)"
  by simp

lemmas template = scan_dq markup_dq scan_inert markup_inert escapeHtml_inert nat_to_string_inert int_to_string_inert
  inert_no_quote inert_js_or inert_if quote_if

subsection \<open>Badges\<close>

lemma tls_badges:
  "js_includes (statusBadge ''active'' [] ''ENCRYPTED (HTTPS, pod TLS 1.3)'') ''>ENCRYPTED''"
  "js_includes (statusBadge ''active'' [] ''ENCRYPTED (TLS at ingress)'' @ '' <span class='' @ dq ''text-muted'' @
        ''>External traffic is TLS-terminated at the ingress</span>'') ''>ENCRYPTED''"
  "\<not> js_includes (statusBadge ''disabled'' [] ''UNENCRYPTED (HTTP)'' @ '' (Set TLS_CERT_PATH to secure)'') ''>ENCRYPTED''"
  by code_simp+

lemma mtls_badges:
  "js_includes (statusBadge ''active'' [] ''mTLS REQUIRED'') ''>mTLS REQUIRED''"
  "\<not> js_includes (statusBadge []
          ''background: hsla(45, 90%, 50%, 0.15); color: var(--warning); border: 1px solid hsla(45, 90%, 50%, 0.3);''
          ''mTLS OPTIONAL'' @ '' <span class='' @ dq ''text-muted'' @
        ''>Clients may present a client certificate; token auth still accepted</span>'') ''>mTLS REQUIRED''"
  "\<not> js_includes (statusBadge ''active'' [] ''mTLS ENABLED (pod)'') ''>mTLS REQUIRED''"
  "\<not> js_includes (statusBadge ''disabled'' [] ''mTLS DISABLED'' @
        '' (Clients authenticated via HTTP Token only)'') ''>mTLS REQUIRED''"
  by code_simp+

lemma tls_badge_iff:
  "js_includes (renderTlsStatusBadge data) ''>ENCRYPTED'' \<longleftrightarrow>
   (if tls_mode data \<noteq> [] then tls_mode data \<in> {''pod'', ''edge''}
    else tls_enabled data = Some True \<or> tls_enabled data = None \<and> tls_cert_path data \<noteq> [])"
proof -
  have "js_includes (renderTlsStatusBadge data) ''>ENCRYPTED'' \<longleftrightarrow> tls_mode_of data \<in> {''pod'', ''edge''}"
    by (simp only: renderTlsStatusBadge_def Let_def tls_badges split: if_split) auto
  also have "\<dots> \<longleftrightarrow> (if tls_mode data \<noteq> [] then tls_mode data \<in> {''pod'', ''edge''}
    else tls_enabled data = Some True \<or> tls_enabled data = None \<and> tls_cert_path data \<noteq> [])"
    by (cases "tls_enabled data") (auto simp: tls_mode_of_def)
  finally show ?thesis .
qed

lemma mtls_badge_iff:
  "js_includes (renderMtlsStatusBadge data) ''>mTLS REQUIRED'' \<longleftrightarrow>
   (if mtls_mode data \<noteq> [] then mtls_mode data = ''required''
    else mtls_enabled data = None \<and> client_ca_path data \<noteq> [])"
proof -
  have "js_includes (renderMtlsStatusBadge data) ''>mTLS REQUIRED'' \<longleftrightarrow> mtls_mode_of data = ''required''"
    by (simp only: renderMtlsStatusBadge_def Let_def mtls_badges split: if_split) auto
  also have "\<dots> \<longleftrightarrow> (if mtls_mode data \<noteq> [] then mtls_mode data = ''required''
    else mtls_enabled data = None \<and> client_ca_path data \<noteq> [])"
    by (cases "mtls_enabled data") (auto simp: mtls_mode_of_def)
  finally show ?thesis .
qed

section \<open>Properties\<close>

text \<open>C34: Escaping is undone by the browser's decoding of character references, so that every text is shown as
  it is and different texts stay different; and escaped text has no character that could open or close a
  tag or end an attribute value.\<close>

theorem escapeHtml_roundtrip:
  "html_decode (escapeHtml s) = s \<and> (escapeHtml s = escapeHtml t \<longleftrightarrow> s = t) \<and>
   set (escapeHtml s) \<inter> {CHR ''<'', CHR ''>'', CHR 0x22, CHR 0x27} = {}"
proof (intro conjI)
  show "html_decode (escapeHtml s) = s" by (rule html_decode_escapeHtml)
  show "escapeHtml s = escapeHtml t \<longleftrightarrow> s = t" by (simp add: html.enc_inject)
  have "CHR ''>'' \<notin> set (escapeHtml s)" by (auto simp: escapeHtml_concat escape_char_no_gt)
  then show "set (escapeHtml s) \<inter> {CHR ''<'', CHR ''>'', CHR 0x22, CHR 0x27} = {}"
    using escapeHtml_inert [of s] by (auto simp: inert_def)
qed

text \<open>The settings page claims an encrypted connection exactly when the TLS mode of the response is
  \<^verbatim>\<open>pod\<close> or \<^verbatim>\<open>edge\<close>, with the older flags as fallback in the documented order, and required client
  certificates exactly when the response says so.\<close>

theorem security_badges_truthful:
  "(js_includes (renderTlsStatusBadge data) ''>ENCRYPTED'' \<longleftrightarrow>
     (if tls_mode data \<noteq> [] then tls_mode data \<in> {''pod'', ''edge''}
      else tls_enabled data = Some True \<or> tls_enabled data = None \<and> tls_cert_path data \<noteq> [])) \<and>
   (js_includes (renderMtlsStatusBadge data) ''>mTLS REQUIRED'' \<longleftrightarrow>
     (if mtls_mode data \<noteq> [] then mtls_mode data = ''required''
      else mtls_enabled data = None \<and> client_ca_path data \<noteq> []))"
  using tls_badge_iff mtls_badge_iff by blast

end
