(* ===== verification/Portal_Data.thy ===== *)
theory Portal_Data
  imports Portal_Html
begin

text \<open>
  The values exchanged with the gateway's API: the records of \<^verbatim>\<open>pkg/storage/db.go\<close> as their
  JSON tags name them, requests and responses.
\<close>

section \<open>Payloads of the API\<close>

record connection =
  conn_id :: string
  conn_name :: string
  conn_description :: string
  conn_base_url :: string
  conn_auth_type :: string
  conn_auth_secret_ref :: string
  conn_enabled :: bool
  conn_tool_prefix :: string

record api_endpoint =
  ep_id :: string
  ep_connection_id :: string
  ep_tool_name :: string
  ep_tool_description :: string
  ep_path :: string
  ep_method :: string
  ep_parameters_schema :: string
  ep_template :: string

record audit_log =
  log_timestamp :: string
  log_client_identity :: string
  log_tool_name :: string
  log_status :: string
  log_duration_ms :: int
  log_error_message :: string

record client_token =
  tok_token :: string
  tok_client_name :: string
  tok_client_role :: string
  tok_scopes :: string
  tok_enabled :: bool

record conn_health =
  h_name :: string
  h_url :: string
  h_status :: string
  h_latency_ms :: int

record op_stats =
  connected_users :: int
  active_queries :: int
  connections_health :: "conn_health list option"

text \<open>
  The body of a response as the portal reads it. The gateway encodes an empty Go slice as
  \<^verbatim>\<open>null\<close>, hence the options. \<open>JLogin\<close> and \<open>JError\<close> are the two shapes of the objects
  read after a form was submitted; \<open>JSpec\<close> is an OpenAPI document, kept as the text that
  \<^verbatim>\<open>JSON.stringify(spec, null, 2)\<close> prints. The last six are the bodies of successful writes, which
  the portal does not read: \<open>JPreview\<close> and \<open>JImported\<close> are the two answers of an import, the first with name,
  address and authentication type of the connection and name, description, path, method and schema of each tool.
\<close>

datatype payload =
    is_JConns: JConns "connection list option"
  | is_JEndpoints: JEndpoints "api_endpoint list option"
  | is_JLogs: JLogs "audit_log list option"
  | is_JTokens: JTokens "client_token list option"
  | is_JKeys: JKeys "string list option"
  | is_JOpStats: JOpStats op_stats
  | is_JSettings: JSettings settings
  | is_JSpec: JSpec string
  | is_JLogin: JLogin string string
  | is_JError: JError string
  | is_JText: JText string
  | is_JConn: JConn connection
  | is_JEndpoint: JEndpoint api_endpoint
  | is_JToken: JToken client_token
  | is_JStatus: JStatus string
  | is_JPreview: JPreview "string \<times> string \<times> string" "(string \<times> string \<times> string \<times> string \<times> string) list"
  | is_JImported: JImported string string "string list"

text \<open>A response: its status and its body; \<^const>\<open>Inl\<close> is the message of the error that
  \<^verbatim>\<open>res.json()\<close> is rejected with when the body is not JSON.\<close>

record response =
  status :: nat
  body :: "string + payload"

definition res_ok :: "response \<Rightarrow> bool" where
  "res_ok res = (200 \<le> status res \<and> status res \<le> 299)"

datatype jval = JStr string | JBool bool

record request =
  rq_url :: string
  rq_method :: string
  rq_headers :: "(string \<times> string) list"
  rq_body :: "(string \<times> jval) list option"

end
