(* ===== verification/Portal_Double.thy ===== *)
theory Portal_Double
  imports Complex_Main "HOL-Library.Log_Nat"
begin

text \<open>
  JavaScript numbers. Every arithmetic operation of the portal's statistics and charts is a
  double-precision operation: the exact result rounded to 53 significant bits, ties to even.
  \<open>fl\<close> is that rounding on rational numbers, without overflow and subnormal numbers, which
  the quantities of the portal (milliseconds, counts, pixels) do not reach. The lemmas give
  what the components need of it: it is monotone and leaves integers below \<open>2 ^ 53\<close> alone,
  so a rounded result never leaves an interval with such ends.
\<close>

section \<open>Definitions\<close>

text \<open>The exponent \<open>e\<close> with \<open>2 ^ e \<le> x < 2 ^ (e + 1)\<close>, for \<open>x > 0\<close>.\<close>

definition binade :: "rat \<Rightarrow> int" where
  "binade x =
     (let (n, d) = quotient_of x; e = bitlen n - bitlen d
      in if 2 powi e \<le> x then e else e - 1)"

definition round_even :: "rat \<Rightarrow> int" where
  "round_even x =
     (let f = \<lfloor>x\<rfloor>; d = x - of_int f
      in if d < 1 / 2 then f
         else if 1 / 2 < d then f + 1
         else if even f then f else f + 1)"

text \<open>The distance of neighbouring doubles at \<open>x > 0\<close>.\<close>

definition ulp :: "rat \<Rightarrow> rat" where
  "ulp x = 2 powi (binade x - 52)"

definition fl_pos :: "rat \<Rightarrow> rat" where
  "fl_pos x = of_int (round_even (x / ulp x)) * ulp x"

definition fl :: "rat \<Rightarrow> rat" where
  "fl x = (if x = 0 then 0 else if 0 < x then fl_pos x else - fl_pos (- x))"

definition js_add :: "rat \<Rightarrow> rat \<Rightarrow> rat" where
  "js_add a b = fl (a + b)"

definition js_sub :: "rat \<Rightarrow> rat \<Rightarrow> rat" where
  "js_sub a b = fl (a - b)"

definition js_mul :: "rat \<Rightarrow> rat \<Rightarrow> rat" where
  "js_mul a b = fl (a * b)"

definition js_div :: "rat \<Rightarrow> rat \<Rightarrow> rat" where
  "js_div a b = fl (a / b)"

text \<open>\<^verbatim>\<open>Math.round\<close>, \<^verbatim>\<open>Math.floor\<close>.\<close>

definition Math_round :: "rat \<Rightarrow> int" where
  "Math_round x = \<lfloor>x + 1 / 2\<rfloor>"

definition Math_floor :: "rat \<Rightarrow> int" where
  "Math_floor x = \<lfloor>x\<rfloor>"

section \<open>Lemmas\<close>

subsection \<open>Rounding to integers\<close>

lemma round_even_of_int [simp]: "round_even (of_int k) = k"
  by (simp add: round_even_def)

lemma round_even_floor: "\<lfloor>x\<rfloor> \<le> round_even x \<and> round_even x \<le> \<lfloor>x\<rfloor> + 1"
  by (simp add: round_even_def Let_def)

lemma round_even_mono: "x \<le> y \<Longrightarrow> round_even x \<le> round_even y"
proof (cases "\<lfloor>x\<rfloor> = \<lfloor>y\<rfloor>")
  case True
  assume "x \<le> y"
  with True show ?thesis
    by (auto simp: round_even_def Let_def)
next
  case False
  assume "x \<le> y"
  then have "\<lfloor>x\<rfloor> \<le> \<lfloor>y\<rfloor>" by (rule floor_mono)
  with False have "\<lfloor>x\<rfloor> + 1 \<le> \<lfloor>y\<rfloor>" by simp
  then show ?thesis
    using round_even_floor [of x] round_even_floor [of y] by linarith
qed

lemma round_even_le_of_int: "x \<le> of_int k \<Longrightarrow> round_even x \<le> k"
  using round_even_mono [of x "of_int k"] by simp

lemma round_even_ge_of_int: "of_int k \<le> x \<Longrightarrow> k \<le> round_even x"
  using round_even_mono [of "of_int k" x] by simp

subsection \<open>Binades\<close>

lemma bitlen_powi:
  assumes "0 < n"
  shows "2 powi (bitlen n - 1) \<le> (of_int n :: rat) \<and> (of_int n :: rat) < 2 powi (bitlen n)"
proof -
  have b: "2 ^ nat (bitlen n - 1) \<le> n" "n < 2 ^ nat (bitlen n)"
    using bitlen_bounds [OF assms] by auto
  have pos: "0 \<le> bitlen n - 1"
    using assms bitlen_nonneg [of n] bitlen_eq_zero_iff [of n] by linarith
  from b(1) have "(2 :: rat) ^ nat (bitlen n - 1) \<le> of_int n"
    by (metis of_int_le_iff of_int_numeral of_int_power)
  moreover from b(2) have "(of_int n :: rat) < 2 ^ nat (bitlen n)"
    by (metis of_int_less_iff of_int_numeral of_int_power)
  ultimately show ?thesis
    using pos by (simp add: power_int_def)
qed

lemma binade_bounds:
  assumes "0 < x"
  shows "2 powi (binade x) \<le> x \<and> x < 2 powi (binade x + 1)"
proof -
  obtain n d where q: "quotient_of x = (n, d)" by force
  have d: "0 < d" using q by (rule quotient_of_denom_pos)
  have x: "x = of_int n / of_int d" using q by (rule quotient_of_div)
  with assms d have n: "0 < n"
    by (simp add: zero_less_divide_iff)
  let ?a = "bitlen n" and ?b = "bitlen d"
  note bn = bitlen_powi [OF n] and bd = bitlen_powi [OF d]
  have dpos: "(0 :: rat) < of_int d" using d by simp
  have "2 powi (?a - ?b - 1) * (of_int d :: rat) \<le> 2 powi (?a - ?b - 1) * 2 powi ?b"
    using bd by (intro mult_left_mono) auto
  also have "\<dots> = (2 :: rat) powi (?a - 1)"
    by (simp flip: power_int_add)
  also have "\<dots> \<le> of_int n" using bn by simp
  finally have lo: "2 powi (?a - ?b - 1) \<le> x"
    using dpos by (simp add: x pos_le_divide_eq)
  have "of_int n < (2 :: rat) powi ?a" using bn by simp
  also have "\<dots> = 2 powi (?a - ?b + 1) * 2 powi (?b - 1)"
    by (simp flip: power_int_add)
  also have "\<dots> \<le> 2 powi (?a - ?b + 1) * (of_int d :: rat)"
    using bd by (intro mult_left_mono) auto
  finally have hi: "x < 2 powi (?a - ?b + 1)"
    using dpos by (simp add: x pos_divide_less_eq)
  from lo hi show ?thesis
    by (auto simp: binade_def q Let_def)
qed

lemma powi_strict_mono: "a < b \<Longrightarrow> (2 :: rat) powi a < 2 powi b"
  by (simp add: power_int_strict_increasing)

lemma powi_mono: "a \<le> b \<Longrightarrow> (2 :: rat) powi a \<le> 2 powi b"
  by (simp add: power_int_increasing)

lemma binade_mono: "0 < x \<Longrightarrow> x \<le> y \<Longrightarrow> binade x \<le> binade y"
proof (rule ccontr)
  assume xy: "0 < x" "x \<le> y" and "\<not> binade x \<le> binade y"
  then have "(2 :: rat) powi (binade y + 1) \<le> 2 powi (binade x)"
    by (intro powi_mono) simp
  with binade_bounds [of x] binade_bounds [of y] xy show False by simp
qed

lemma binade_unique: "0 < x \<Longrightarrow> 2 powi e \<le> x \<Longrightarrow> x < 2 powi (e + 1) \<Longrightarrow> binade x = e"
proof (rule antisym)
  assume x: "0 < x" and lo: "2 powi e \<le> x" and hi: "x < 2 powi (e + 1)"
  note b = binade_bounds [OF x]
  show "binade x \<le> e"
  proof (rule ccontr)
    assume "\<not> binade x \<le> e"
    then have "(2 :: rat) powi (e + 1) \<le> 2 powi (binade x)" by (intro powi_mono) simp
    with b hi show False by simp
  qed
  show "e \<le> binade x"
  proof (rule ccontr)
    assume "\<not> e \<le> binade x"
    then have "(2 :: rat) powi (binade x + 1) \<le> 2 powi e" by (intro powi_mono) simp
    with b lo show False by simp
  qed
qed

subsection \<open>Rounding to doubles\<close>

lemma ulp_pos [simp]: "0 < ulp x"
  by (simp add: ulp_def)

lemma ulp_nonzero [simp]: "ulp x \<noteq> 0"
  by (simp add: ulp_def)

lemma fl_pos_le_grid: "x \<le> of_int m * ulp x \<Longrightarrow> fl_pos x \<le> of_int m * ulp x"
proof -
  assume "x \<le> of_int m * ulp x"
  then have "x / ulp x \<le> of_int m" by (simp add: pos_divide_le_eq)
  then have "round_even (x / ulp x) \<le> m" by (rule round_even_le_of_int)
  then show ?thesis by (simp add: fl_pos_def)
qed

lemma fl_pos_ge_grid: "of_int m * ulp x \<le> x \<Longrightarrow> of_int m * ulp x \<le> fl_pos x"
proof -
  assume "of_int m * ulp x \<le> x"
  then have "of_int m \<le> x / ulp x" by (simp add: pos_le_divide_eq)
  then have "m \<le> round_even (x / ulp x)" by (rule round_even_ge_of_int)
  then show ?thesis by (simp add: fl_pos_def)
qed

text \<open>A power of two, or an integer, that is not finer than the grid lies on it.\<close>

lemma powi_on_grid: "binade x - 52 \<le> e \<Longrightarrow> \<exists>m. (2 :: rat) powi e = of_int m * ulp x"
proof -
  assume e: "binade x - 52 \<le> e"
  have "(2 :: rat) powi e = 2 powi (e - (binade x - 52)) * ulp x"
    by (simp add: ulp_def flip: power_int_add)
  also have "(2 :: rat) powi (e - (binade x - 52)) = of_int (2 ^ nat (e - (binade x - 52)))"
    using e by (simp add: power_int_def)
  finally show ?thesis by blast
qed

lemma int_on_grid: "binade x \<le> 52 \<Longrightarrow> \<exists>m. (of_int k :: rat) = of_int m * ulp x"
proof -
  assume "binade x \<le> 52"
  then obtain m where "(2 :: rat) powi 0 = of_int m * ulp x"
    using powi_on_grid [of x 0] by auto
  then have "(of_int k :: rat) = of_int (k * m) * ulp x"
    by (simp add: mult.assoc)
  then show ?thesis by blast
qed

lemma binade_le_52: "0 < x \<Longrightarrow> x < 2 ^ 53 \<Longrightarrow> binade x \<le> 52"
proof (rule ccontr)
  assume x: "0 < x" "x < 2 ^ 53" and "\<not> binade x \<le> 52"
  then have "(2 :: rat) powi 53 \<le> 2 powi (binade x)" by (intro powi_mono) simp
  with binade_bounds [OF x(1)] x(2) show False by simp
qed

lemma fl_pos_mono:
  assumes "0 < x" "x \<le> y" shows "fl_pos x \<le> fl_pos y"
proof (cases "binade x = binade y")
  case True
  then have u: "ulp x = ulp y" by (simp add: ulp_def)
  have "x / ulp y \<le> y / ulp y" using assms(2) by (simp add: divide_right_mono less_imp_le)
  then have "round_even (x / ulp y) \<le> round_even (y / ulp y)" by (rule round_even_mono)
  with u show ?thesis by (simp add: fl_pos_def)
next
  case False
  with binade_mono [OF assms] have lt: "binade x < binade y" by simp
  have "(2 :: rat) powi (binade x + 1) \<le> 2 powi (binade y)" using lt by (intro powi_mono) simp
  with binade_bounds [OF assms(1)] have "x \<le> 2 powi (binade y)" by simp
  moreover obtain m where "(2 :: rat) powi (binade y) = of_int m * ulp x"
    using powi_on_grid [of x "binade y"] lt by auto
  ultimately have "fl_pos x \<le> 2 powi (binade y)" using fl_pos_le_grid by metis
  moreover have "(2 :: rat) powi (binade y) \<le> fl_pos y"
  proof -
    obtain m where m: "(2 :: rat) powi (binade y) = of_int m * ulp y"
      using powi_on_grid [of y "binade y"] by auto
    from assms have "2 powi (binade y) \<le> y" using binade_bounds [of y] by simp
    with m fl_pos_ge_grid [of m y] show ?thesis by simp
  qed
  ultimately show ?thesis by simp
qed

lemma fl_0 [simp]: "fl 0 = 0"
  by (simp add: fl_def)

lemma fl_pos_nonneg: "0 < x \<Longrightarrow> 0 \<le> fl_pos x"
  using fl_pos_ge_grid [of 0 x] by simp

lemma fl_mono: "x \<le> y \<Longrightarrow> fl x \<le> fl y"
  using fl_pos_mono [of x y] fl_pos_mono [of "- y" "- x"] fl_pos_nonneg [of y] fl_pos_nonneg [of "- x"]
  by (auto simp: fl_def)

lemma fl_of_int:
  assumes "\<bar>k\<bar> < 2 ^ 53" shows "fl (of_int k) = of_int k"
proof -
  have pos: "fl_pos (of_int n) = of_int n" if n: "0 < n" "n < 2 ^ 53" for n
  proof -
    have "(of_int n :: rat) < 2 ^ 53" using n(2) by (metis of_int_less_iff of_int_numeral of_int_power)
    with n(1) have "binade (of_int n) \<le> 52" by (intro binade_le_52) simp_all
    then obtain m where m: "(of_int n :: rat) = of_int m * ulp (of_int n)"
      using int_on_grid by blast
    show ?thesis
      using fl_pos_le_grid [of "of_int n" m] fl_pos_ge_grid [of m "of_int n"] m by simp
  qed
  show ?thesis
    using assms pos [of k] pos [of "- k"] by (auto simp: fl_def)
qed

text \<open>Integer bounds survive rounding.\<close>

lemma fl_le: "x \<le> of_int k \<Longrightarrow> \<bar>k\<bar> < 2 ^ 53 \<Longrightarrow> fl x \<le> of_int k"
  using fl_mono [of x "of_int k"] fl_of_int [of k] by simp

lemma fl_ge: "of_int k \<le> x \<Longrightarrow> \<bar>k\<bar> < 2 ^ 53 \<Longrightarrow> of_int k \<le> fl x"
  using fl_mono [of "of_int k" x] fl_of_int [of k] by simp

lemma fl_nonneg: "0 \<le> x \<Longrightarrow> 0 \<le> fl x"
  using fl_mono [of 0 x] by simp

lemma fl_le_1: "x \<le> 1 \<Longrightarrow> fl x \<le> 1"
  using fl_le [of x 1] by simp

text \<open>The relative error of one rounding.\<close>

lemma round_even_error: "\<bar>of_int (round_even x) - x\<bar> \<le> 1 / 2"
  using of_int_floor_le [of x] floor_correct [of x]
  by (auto simp: round_even_def Let_def abs_le_iff)

lemma fl_error:
  assumes "0 < x" shows "\<bar>fl x - x\<bar> \<le> x / 2 ^ 53"
proof -
  have "fl x - x = (of_int (round_even (x / ulp x)) - x / ulp x) * ulp x"
    using assms ulp_pos [of x] by (simp add: fl_def fl_pos_def left_diff_distrib)
  then have "\<bar>fl x - x\<bar> \<le> 1 / 2 * ulp x"
    using round_even_error [of "x / ulp x"] ulp_pos [of x]
    by (simp add: abs_mult mult_right_mono del: ulp_pos)
  also have "ulp x * 2 ^ 52 = 2 powi (binade x)"
    by (simp add: ulp_def power_int_diff)
  then have "1 / 2 * ulp x \<le> x / 2 ^ 53"
    using binade_bounds [OF assms] by simp
  finally show ?thesis .
qed

subsection \<open>Math.round\<close>

lemma Math_round_mono: "x \<le> y \<Longrightarrow> Math_round x \<le> Math_round y"
  by (simp add: Math_round_def floor_mono)

lemma Math_round_of_int [simp]: "Math_round (of_int k) = k"
proof -
  have "\<lfloor>(of_int k :: rat) + 1 / 2\<rfloor> = k" by (rule floor_unique) simp_all
  then show ?thesis by (simp add: Math_round_def)
qed

lemma Math_round_between:
  "of_int lo \<le> x \<Longrightarrow> x \<le> of_int hi \<Longrightarrow> lo \<le> Math_round x \<and> Math_round x \<le> hi"
  using Math_round_mono [of "of_int lo" x] Math_round_mono [of x "of_int hi"] by simp

end
