(* ===== verification/Portal_Charts.thy ===== *)
theory Portal_Charts
  imports Portal_Data Portal_Double
begin

text \<open>
  The computations behind the telemetry page of \<^verbatim>\<open>app.js\<close>: the count of scraped metrics,
  the success rate, the 95th percentile, and the two charts. A chart is a drawing, a list of
  path commands and labelled positions; the SVG text around the numbers is not kept. Numbers
  are rounded as doubles at every operation (\<^verbatim>\<open>Portal_Double\<close>).
\<close>

section \<open>Definitions\<close>

subsection \<open>Key figures\<close>

definition count_metrics :: "string \<Rightarrow> nat" where
  "count_metrics metricsText =
     length (filter (\<lambda>line. js_trim line \<noteq> [] \<and> \<not> js_startsWith line ''#'')
               (js_split newline_char metricsText))"

definition success_rate :: "audit_log list \<Rightarrow> int" where
  "success_rate logs =
     (let successes = length (filter (\<lambda>l. log_status l = ''success'') logs)
      in Math_round (js_mul (js_div (of_nat successes) (of_nat (length logs))) 100))"

definition success_rate_text :: "audit_log list \<Rightarrow> string" where
  "success_rate_text logs =
     (if 0 < length logs then int_to_string (success_rate logs) @ ''%'' else ''0%'')"

definition p95_index :: "nat \<Rightarrow> int" where
  "p95_index n = Math_floor (js_mul (of_nat n) (fl (95 / 100)))"

text \<open>Reading past the end of an array gives \<^verbatim>\<open>undefined\<close>.\<close>

definition p95_latency :: "audit_log list \<Rightarrow> int option" where
  "p95_latency logs =
     (let durations = sort (map log_duration_ms logs); i = p95_index (length durations)
      in if 0 \<le> i \<and> i < int (length durations) then Some (durations ! nat i) else None)"

definition p95_text :: "audit_log list \<Rightarrow> string" where
  "p95_text logs =
     (if 0 < length logs
      then (case p95_latency logs of Some d \<Rightarrow> int_to_string d | None \<Rightarrow> ''undefined'') @ ''ms''
      else ''0ms'')"

definition total_duration :: "audit_log list \<Rightarrow> rat" where
  "total_duration logs = foldl (\<lambda>sum l. js_add sum (of_int (log_duration_ms l))) 0 logs"

text \<open>\<^verbatim>\<open>Math.round(total / STATE.logs.length)\<close> on the dashboard.\<close>

definition average_latency :: "audit_log list \<Rightarrow> int" where
  "average_latency logs = Math_round (js_div (total_duration logs) (of_nat (length logs)))"

definition average_latency_text :: "audit_log list \<Rightarrow> string" where
  "average_latency_text logs =
     (if 0 < length logs then int_to_string (average_latency logs) @ ''ms'' else ''0ms'')"

subsection \<open>The latency chart\<close>

datatype path_cmd = MoveTo rat rat | LineTo rat rat | ClosePath

record point =
  pt_x :: rat
  pt_y :: rat
  pt_val :: int
  pt_name :: string

record latency_chart =
  lc_width :: nat
  lc_grid :: "(rat \<times> rat \<times> rat \<times> rat) list"
  lc_labels :: "(rat \<times> rat \<times> string) list"
  lc_area :: "path_cmd list"
  lc_path :: "path_cmd list"
  lc_dots :: "(rat \<times> rat \<times> string) list"

text \<open>\<^verbatim>\<open>wrapper.clientWidth || 400\<close>\<close>

definition chart_width :: "nat \<Rightarrow> nat" where
  "chart_width clientWidth = (if clientWidth = 0 then 400 else clientWidth)"

text \<open>The last 20 requests in chronological order; the log comes newest first.\<close>

definition latency_data :: "audit_log list \<Rightarrow> audit_log list" where
  "latency_data logs = rev (take 20 logs)"

definition max_latency :: "audit_log list \<Rightarrow> int" where
  "max_latency data = foldr max (map log_duration_ms data) 50"

definition latency_point :: "nat \<Rightarrow> nat \<Rightarrow> int \<Rightarrow> nat \<Rightarrow> audit_log \<Rightarrow> point" where
  "latency_point w n maxVal i d =
     (let paddingLeft = 40; paddingTop = 20; chartWidth = of_int (int w - 40 - 10); chartHeight = 170;
          steps = (if n - 1 = 0 then 1 else n - 1);
          x = js_add paddingLeft (js_mul (js_div (of_nat i) (of_nat steps)) chartWidth);
          y = js_sub (js_add paddingTop chartHeight)
                (js_mul (js_div (of_int (log_duration_ms d)) (of_int maxVal)) chartHeight)
      in \<lparr>pt_x = x, pt_y = y, pt_val = log_duration_ms d, pt_name = log_tool_name d\<rparr>)"

definition latency_points :: "nat \<Rightarrow> audit_log list \<Rightarrow> point list" where
  "latency_points w data =
     map (\<lambda>(i, d). latency_point w (length data) (max_latency data) i d) (enumerate 0 data)"

definition line_path :: "point list \<Rightarrow> path_cmd list" where
  "line_path points =
     (case points of
        [] \<Rightarrow> []
      | p # ps \<Rightarrow> MoveTo (pt_x p) (pt_y p) # map (\<lambda>q. LineTo (pt_x q) (pt_y q)) ps)"

definition area_path :: "point list \<Rightarrow> path_cmd list" where
  "area_path points =
     (case points of
        [] \<Rightarrow> []
      | p # ps \<Rightarrow>
          [MoveTo (pt_x p) 190, LineTo (pt_x p) (pt_y p)] @
          map (\<lambda>q. LineTo (pt_x q) (pt_y q)) ps @
          [LineTo (pt_x (last points)) 190, ClosePath])"

definition point_title :: "point \<Rightarrow> string" where
  "point_title p =
     escapeHtml (pt_name p) @ [newline_char] @ ''Latency: '' @ int_to_string (pt_val p) @ ''ms''"

text \<open>\<^const>\<open>None\<close> where the code writes the placeholder.\<close>

definition renderLatencyChart :: "nat \<Rightarrow> audit_log list \<Rightarrow> latency_chart option" where
  "renderLatencyChart clientWidth logs =
     (let data = latency_data logs in
      if length data = 0 then None
      else
        (let w = chart_width clientWidth; right = of_int (int w - 10);
             maxVal = max_latency data; points = latency_points w data
         in Some
           \<lparr>lc_width = w,
            lc_grid = [(40, 20, right, 20), (40, 105, right, 105), (40, 190, right, 190)],
            lc_labels =
              [(32, 24, int_to_string maxVal @ ''ms''),
               (32, 109, int_to_string (Math_round (js_div (of_int maxVal) 2)) @ ''ms''),
               (32, 194, ''0ms'')],
            lc_area = area_path points,
            lc_path = line_path points,
            lc_dots = map (\<lambda>p. (pt_x p, pt_y p, point_title p)) points\<rparr>))"

subsection \<open>The frequency chart\<close>

text \<open>
  \<^verbatim>\<open>freqMap\<close> is a plain object, so reading a property also finds the properties every object
  inherits: for such a name \<^verbatim>\<open>(freqMap[name] || 0) + 1\<close> appends the text \<^verbatim>\<open>1\<close> to the
  inherited value's text. \<open>Count\<close> is a number, \<open>Garbled\<close> such a text, of which only the
  number of appended ones is kept.
\<close>

datatype freq_value = Count nat | Garbled nat

definition inherited_names :: "string list" where
  "inherited_names =
     [''constructor'', ''__defineGetter__'', ''__defineSetter__'', ''hasOwnProperty'',
      ''__lookupGetter__'', ''__lookupSetter__'', ''isPrototypeOf'', ''propertyIsEnumerable'',
      ''toString'', ''valueOf'', ''__proto__'', ''toLocaleString'']"

definition freq_read :: "(string \<times> freq_value) list \<Rightarrow> string \<Rightarrow> freq_value" where
  "freq_read m k =
     (case map_of m k of
        Some v \<Rightarrow> v
      | None \<Rightarrow> (if k \<in> set inherited_names then Garbled 0 else Count 0))"

definition freq_incr :: "freq_value \<Rightarrow> freq_value" where
  "freq_incr v = (case v of Count n \<Rightarrow> Count (n + 1) | Garbled n \<Rightarrow> Garbled (n + 1))"

fun freq_write :: "(string \<times> freq_value) list \<Rightarrow> string \<Rightarrow> freq_value \<Rightarrow> (string \<times> freq_value) list" where
  "freq_write [] k v = [(k, v)]"
| "freq_write ((k', v') # m) k v = (if k' = k then (k, v) # m else (k', v') # freq_write m k v)"

text \<open>Assigning a primitive value to \<^verbatim>\<open>__proto__\<close> is ignored.\<close>

definition freq_bump :: "(string \<times> freq_value) list \<Rightarrow> string \<Rightarrow> (string \<times> freq_value) list" where
  "freq_bump m k = (if k = ''__proto__'' then m else freq_write m k (freq_incr (freq_read m k)))"

definition freq_map :: "audit_log list \<Rightarrow> (string \<times> freq_value) list" where
  "freq_map logs = foldl (\<lambda>m l. freq_bump m (log_tool_name l)) [] logs"

text \<open>
  \<^verbatim>\<open>Object.entries\<close> lists the keys that are array indices first, in ascending order, and then
  the others in order of insertion.
\<close>

definition is_array_index :: "string \<Rightarrow> bool" where
  "is_array_index k =
     (k \<noteq> [] \<and> (\<forall>c \<in> set k. 48 \<le> (of_char c :: nat) \<and> (of_char c :: nat) \<le> 57) \<and>
      (hd k = CHR ''0'' \<longrightarrow> k = ''0'') \<and> digits_value k < 2 ^ 32 - 1)"

definition object_entries :: "(string \<times> 'a) list \<Rightarrow> (string \<times> 'a) list" where
  "object_entries m =
     sort_key (\<lambda>(k, v). digits_value k) (filter (\<lambda>(k, v). is_array_index k) m) @
     filter (\<lambda>(k, v). \<not> is_array_index k) m"

fun counts_only :: "(string \<times> freq_value) list \<Rightarrow> (string \<times> nat) list option" where
  "counts_only [] = Some []"
| "counts_only ((k, Count n) # m) = map_option ((#) (k, n)) (counts_only m)"
| "counts_only ((k, Garbled n) # m) = None"

text \<open>
  The five most frequent tools. \<^verbatim>\<open>sort\<close> is stable; its comparison subtracts the counts, which
  gives no order when one of them is not a number: \<^const>\<open>None\<close> is that case.
\<close>

definition frequency_data :: "audit_log list \<Rightarrow> (string \<times> nat) list option" where
  "frequency_data logs =
     map_option (\<lambda>m. take 5 (sort_key (\<lambda>(k, n). - int n) m)) (counts_only (object_entries (freq_map logs)))"

record bar =
  bar_label :: string
  bar_label_y :: rat
  bar_y :: rat
  bar_width :: rat
  bar_count :: nat
  bar_count_x :: rat

record frequency_chart =
  fc_width :: nat
  fc_background :: rat
  fc_bars :: "bar list"

definition display_name :: "string \<Rightarrow> string" where
  "display_name name = (if 22 < length name then take 19 name @ ''...'' else name)"

definition max_count :: "(string \<times> nat) list \<Rightarrow> nat" where
  "max_count data = foldr max (map snd data) 5"

definition frequency_bar :: "nat \<Rightarrow> (string \<times> nat) list \<Rightarrow> nat \<Rightarrow> string \<times> nat \<Rightarrow> bar" where
  "frequency_bar w data i d =
     (let paddingLeft = 140; paddingTop = 10; chartWidth = of_int (int w - 140 - 20); chartHeight = 190;
          rowHeight = js_div chartHeight (of_nat (length data));
          y = js_add (js_add paddingTop (js_mul (of_nat i) rowHeight)) (js_div (js_sub rowHeight 14) 2);
          barWidth = js_mul (js_div (of_nat (snd d)) (of_nat (max_count data))) chartWidth
      in \<lparr>bar_label = escapeHtml (display_name (fst d)), bar_label_y = js_add y 11, bar_y = y,
          bar_width = barWidth, bar_count = snd d,
          bar_count_x = js_add (js_add paddingLeft barWidth) 8\<rparr>)"

text \<open>The outer \<^const>\<open>None\<close> is the unordered case above, the inner one the placeholder.\<close>

definition renderFrequencyChart :: "nat \<Rightarrow> audit_log list \<Rightarrow> frequency_chart option option" where
  "renderFrequencyChart clientWidth logs =
     map_option (\<lambda>data.
       if length data = 0 then None
       else
         (let w = chart_width clientWidth
          in Some \<lparr>fc_width = w, fc_background = of_int (int w - 140 - 20),
                   fc_bars = map (\<lambda>(i, d). frequency_bar w data i d) (enumerate 0 data)\<rparr>))
       (frequency_data logs)"

subsection \<open>Reference notions\<close>

text \<open>The number of calls of a tool, as a reference for the chart.\<close>

definition calls_of :: "audit_log list \<Rightarrow> string \<Rightarrow> nat" where
  "calls_of logs k = length (filter (\<lambda>l. log_tool_name l = k) logs)"

text \<open>No tool has the name of a property that every object inherits.\<close>

definition plain_names :: "audit_log list \<Rightarrow> bool" where
  "plain_names logs = (\<forall>l \<in> set logs. log_tool_name l \<notin> set inherited_names)"

text \<open>The tools by number of calls, the most frequent first.\<close>

definition ranked_calls :: "audit_log list \<Rightarrow> (string \<times> nat) list" where
  "ranked_calls logs =
     sort_key (\<lambda>(k, n). - int n) (map (\<lambda>(k, v). (k, calls_of logs k)) (object_entries (freq_map logs)))"

text \<open>The number of successful calls.\<close>

definition successes :: "audit_log list \<Rightarrow> nat" where
  "successes logs = length (filter (\<lambda>l. log_status l = ''success'') logs)"

text \<open>A value of the frequency map that is no number.\<close>

definition garbled :: "freq_value \<Rightarrow> bool" where
  "garbled v = (case v of Garbled n \<Rightarrow> True | Count n \<Rightarrow> False)"

text \<open>A log for the examples.\<close>

definition sample_logs :: "audit_log list" where
  "sample_logs =
     [\<lparr>log_timestamp = ''2024-05-01T10:00:02Z'', log_client_identity = ''alice'', log_tool_name = ''get_user'',
       log_status = ''success'', log_duration_ms = 120, log_error_message = []\<rparr>,
      \<lparr>log_timestamp = ''2024-05-01T10:00:01Z'', log_client_identity = ''bob'', log_tool_name = ''list_orders'',
       log_status = ''error'', log_duration_ms = 35, log_error_message = ''timeout''\<rparr>,
      \<lparr>log_timestamp = ''2024-05-01T10:00:00Z'', log_client_identity = ''alice'', log_tool_name = ''get_user'',
       log_status = ''success'', log_duration_ms = 80, log_error_message = []\<rparr>]"

section \<open>Lemmas\<close>

subsection \<open>Key figures\<close>

lemma foldl_js_add:
  "\<bar>a\<bar> + (\<Sum>l\<leftarrow>logs. \<bar>log_duration_ms l\<bar>) < 2 ^ 53 \<Longrightarrow>
   foldl (\<lambda>sum l. js_add sum (of_int (log_duration_ms l))) (of_int a) logs =
     of_int (a + (\<Sum>l\<leftarrow>logs. log_duration_ms l))"
proof (induction logs arbitrary: a)
  case (Cons l logs)
  have "0 \<le> (\<Sum>l\<leftarrow>logs. \<bar>log_duration_ms l\<bar>)" by (rule sum_list_nonneg) auto
  with Cons.prems have "\<bar>a + log_duration_ms l\<bar> < 2 ^ 53"
    "\<bar>a + log_duration_ms l\<bar> + (\<Sum>l\<leftarrow>logs. \<bar>log_duration_ms l\<bar>) < 2 ^ 53" by auto
  then show ?case
    using Cons.IH [of "a + log_duration_ms l"] fl_of_int [of "a + log_duration_ms l"]
    by (simp add: js_add_def add.assoc)
qed simp

lemma total_duration_exact:
  assumes "(\<Sum>l\<leftarrow>logs. \<bar>log_duration_ms l\<bar>) < 2 ^ 53"
  shows "total_duration logs = of_int (\<Sum>l\<leftarrow>logs. log_duration_ms l)"
  using foldl_js_add [of 0 logs] assms by (simp add: total_duration_def)

lemma ratio_bounds: "0 < n \<Longrightarrow> s \<le> n \<Longrightarrow> 0 \<le> (of_nat s / of_nat n :: rat) \<and> (of_nat s / of_nat n :: rat) \<le> 1"
  by (simp add: divide_le_eq)

lemma success_rate_range:
  assumes "logs \<noteq> []" shows "0 \<le> success_rate logs \<and> success_rate logs \<le> 100"
proof -
  let ?r = "js_div (of_nat (successes logs)) (of_nat (length logs))"
  have "0 \<le> ?r" "?r \<le> 1"
    using ratio_bounds [of "length logs" "successes logs"] assms
    by (auto simp: js_div_def successes_def intro: fl_nonneg fl_le_1)
  then have "of_int 0 \<le> js_mul ?r 100" "js_mul ?r 100 \<le> of_int 100"
    using fl_le [of "?r * 100" 100] by (auto simp: js_mul_def intro: fl_nonneg)
  from Math_round_between [OF this] show ?thesis
    by (simp add: success_rate_def successes_def)
qed

lemma fl_error2: "0 \<le> x \<Longrightarrow> \<bar>fl x - x\<bar> \<le> x / 2 ^ 53"
  using fl_error [of x] by (cases "x = 0") auto

lemma Math_round_error: "\<bar>of_int (Math_round x) - x\<bar> \<le> 1 / 2"
  unfolding Math_round_def using floor_correct [of "x + 1/2"] by linarith

lemma success_rate_accurate:
  assumes "logs \<noteq> []"
  shows "\<bar>of_int (success_rate logs) - 100 * of_nat (successes logs) / of_nat (length logs) :: rat\<bar> \<le> 1 / 2 + 1 / 2 ^ 45"
proof -
  define q :: rat where "q = of_nat (successes logs) / of_nat (length logs)"
  have q: "0 \<le> q" "q \<le> 1"
    using ratio_bounds [of "length logs" "successes logs"] assms by (auto simp: q_def successes_def)
  define r where "r = fl q"
  have r: "0 \<le> r" "r \<le> 1" "\<bar>r - q\<bar> \<le> q / 2 ^ 53" using q fl_error2 [of q] by (auto simp: r_def fl_nonneg fl_le_1)
  have m: "\<bar>fl (r * 100) - r * 100\<bar> \<le> (r * 100) / 2 ^ 53" using r(1) by (intro fl_error2) simp
  have e: "success_rate logs = Math_round (fl (r * 100))"
    by (simp add: success_rate_def successes_def js_mul_def js_div_def r_def q_def)
  show ?thesis
    unfolding e times_divide_eq_right [symmetric] q_def [symmetric]
    using abs_le_D1 [OF m] abs_le_D2 [OF m] abs_le_D1 [OF r(3)] abs_le_D2 [OF r(3)] r(1,2) q
      abs_le_D1 [OF Math_round_error [of "fl (r * 100)"]] abs_le_D2 [OF Math_round_error [of "fl (r * 100)"]]
    by (intro abs_leI) (simp_all add: field_simps)
qed


lemma p95_constant: "fl (95 / 100) \<le> 95 / 100" "95 / 100 - 1 / 2 ^ 53 \<le> fl (95 / 100)"
  by code_simp+

lemma p95_product:
  assumes "0 < n" "n < 2 ^ 47"
  shows "19 / 20 * of_nat n - 1 / 20 < js_mul (of_nat n) (fl (95 / 100))"
    "js_mul (of_nat n) (fl (95 / 100)) < 19 / 20 * of_nat n + 1 / 20"
    "0 \<le> js_mul (of_nat n) (fl (95 / 100))"
proof -
  define x :: rat where "x = of_nat n * fl (95 / 100)"
  have n: "0 < (of_nat n :: rat)" "(of_nat n :: rat) < 2 ^ 47"
    using assms by (simp, metis of_nat_less_iff of_nat_numeral of_nat_power)
  have lo: "of_nat n * (95 / 100 - 1 / 2 ^ 53) \<le> x" and hi: "x \<le> of_nat n * (95 / 100)"
    unfolding x_def using n p95_constant by (auto intro!: mult_left_mono)
  have pos: "0 \<le> x" unfolding x_def by (simp add: fl_nonneg)
  have e: "\<bar>fl x - x\<bar> \<le> x / 2 ^ 53" by (rule fl_error2 [OF pos])
  from lo hi abs_le_D1 [OF e] abs_le_D2 [OF e] n show "19 / 20 * of_nat n - 1 / 20 < js_mul (of_nat n) (fl (95 / 100))"
    "js_mul (of_nat n) (fl (95 / 100)) < 19 / 20 * of_nat n + 1 / 20"
    unfolding js_mul_def x_def [symmetric] by (simp_all add: field_simps)
  from pos show "0 \<le> js_mul (of_nat n) (fl (95 / 100))"
    unfolding js_mul_def x_def [symmetric] by (rule fl_nonneg)
qed

lemma p95_index_bounds:
  assumes "0 < n" "n < 2 ^ 47"
  shows "0 \<le> p95_index n" "20 * p95_index n \<le> 19 * int n" "19 * int n \<le> 20 * (p95_index n + 1)"
proof -
  let ?x = "js_mul (of_nat n) (fl (95 / 100))"
  note b = p95_product [OF assms]
  show "0 \<le> p95_index n" using b(3) by (simp add: p95_index_def Math_floor_def)
  have "of_int (p95_index n) \<le> ?x" "?x < of_int (p95_index n) + 1"
    using floor_correct [of ?x] by (simp_all add: p95_index_def Math_floor_def)
  with b have "(of_int (20 * p95_index n) :: rat) < of_int (19 * int n + 1)"
    "(of_int (19 * int n) :: rat) < of_int (20 * (p95_index n + 1) + 1)" by simp_all
  then have "20 * p95_index n < 19 * int n + 1" "19 * int n < 20 * (p95_index n + 1) + 1"
    by (simp_all only: of_int_less_iff)
  then show "20 * p95_index n \<le> 19 * int n" "19 * int n \<le> 20 * (p95_index n + 1)" by simp_all
qed

subsection \<open>Counting calls\<close>

lemma map_of_freq_write:
  "map_of (freq_write m k v) k' = (if k' = k then Some v else map_of m k')"
  by (induction m k v rule: freq_write.induct) auto

lemma keys_freq_write:
  "map fst (freq_write m k v) = (if k \<in> set (map fst m) then map fst m else map fst m @ [k])"
  by (induction m k v rule: freq_write.induct) auto

interpretation freq: tally "\<lambda>k. k \<noteq> ''__proto__''" freq_read "\<lambda>m k (_ :: unit). freq_bump m k"
  "\<lambda>v _. freq_incr v" "map fst"
  by unfold_locales (auto simp: freq_bump_def freq_read_def map_of_freq_write keys_freq_write split: option.splits)

lemma foldl_freq_incr: "foldl (\<lambda>v _. freq_incr v) (Count n) xs = Count (n + length xs)"
  by (induction xs arbitrary: n) (auto simp: freq_incr_def)

lemma plain_not_proto: "plain_names logs \<Longrightarrow> l \<in> set logs \<Longrightarrow> log_tool_name l \<noteq> ''__proto__''"
  by (auto simp: plain_names_def inherited_names_def)

lemma freq_map_read:
  assumes "plain_names logs" "k \<notin> set inherited_names"
  shows "freq_read (freq_map logs) k = Count (calls_of logs k)"
  using freq.get_fold [where es = logs and key = log_tool_name and m = "[]" and k = k] plain_not_proto [OF assms(1)] assms(2)
  by (simp add: freq_map_def freq_read_def calls_of_def foldl_freq_incr)

lemma freq_map_keys:
  assumes "plain_names logs"
  shows "distinct (map fst (freq_map logs))" "set (map fst (freq_map logs)) = log_tool_name ` set logs"
  using freq.keys_fold [where es = logs and key = log_tool_name and m = "[]"] plain_not_proto [OF assms]
  by (simp_all add: freq_map_def)

lemma freq_map_entries:
  assumes "plain_names logs" "(k, v) \<in> set (freq_map logs)"
  shows "v = Count (calls_of logs k)"
proof -
  have "k \<in> log_tool_name ` set logs" using freq_map_keys(2) [OF assms(1)] assms(2) by force
  then have "k \<notin> set inherited_names" using assms(1) by (auto simp: plain_names_def)
  then show ?thesis
    using freq_map_read [OF assms(1), of k] map_of_is_SomeI [OF freq_map_keys(1) [OF assms(1)] assms(2)]
    by (simp add: freq_read_def)
qed

lemma counts_only_all:
  "(\<And>k v. (k, v) \<in> set m \<Longrightarrow> v = Count (f k)) \<Longrightarrow> counts_only m = Some (map (\<lambda>(k, v). (k, f k)) m)"
  by (induction m rule: counts_only.induct) force+

lemma object_entries_mset: "mset (object_entries m) = mset m"
proof -
  have "mset (object_entries m) =
      filter_mset (\<lambda>(k, v). is_array_index k) (mset m) + filter_mset (\<lambda>(k, v). \<not> is_array_index k) (mset m)"
    by (simp add: object_entries_def)
  also have "\<dots> = mset m"
    using multiset_partition [of "mset m" "\<lambda>(k, v). is_array_index k"] by (simp add: case_prod_unfold)
  finally show ?thesis .
qed

lemma object_entries_keys:
  "set (object_entries m) = set m" "distinct (map fst (object_entries m)) = distinct (map fst m)"
proof -
  show "set (object_entries m) = set m" by (metis object_entries_mset set_mset_mset)
  have "mset (map fst (object_entries m)) = mset (map fst m)" by (simp add: object_entries_mset)
  then show "distinct (map fst (object_entries m)) = distinct (map fst m)" by (metis distinct_count_atmost_1 mset_eq_setD)
qed


lemma frequency_data_ranked:
  assumes "plain_names logs" shows "frequency_data logs = Some (take 5 (ranked_calls logs))"
proof -
  have "counts_only (object_entries (freq_map logs)) =
      Some (map (\<lambda>(k, v). (k, calls_of logs k)) (object_entries (freq_map logs)))"
    using freq_map_entries [OF assms] by (intro counts_only_all) (simp add: object_entries_keys)
  then show ?thesis by (simp add: frequency_data_def ranked_calls_def)
qed

lemma ranked_calls_set:
  assumes "plain_names logs"
  shows "set (ranked_calls logs) = (\<lambda>k. (k, calls_of logs k)) ` log_tool_name ` set logs"
  using freq_map_keys(2) [OF assms]
  by (force simp: ranked_calls_def object_entries_keys image_image case_prod_unfold)

lemma ranked_calls_distinct:
  assumes "plain_names logs" shows "distinct (map fst (ranked_calls logs))"
proof -
  have "mset (map fst (ranked_calls logs)) = mset (map fst (object_entries (freq_map logs)))"
    by (simp add: ranked_calls_def case_prod_unfold multiset.map_comp o_def)
  then show ?thesis
    using freq_map_keys(1) [OF assms] object_entries_keys(2) by (metis mset_eq_imp_distinct_iff)
qed

lemma ranked_calls_sorted: "sorted (map (\<lambda>(k, n). - int n) (ranked_calls logs))"
  by (simp add: ranked_calls_def)

lemma frequency_top5_facts:
  assumes "plain_names logs"
  shows "\<exists>data. frequency_data logs = Some data \<and>
    length data = min 5 (card (log_tool_name ` set logs)) \<and> distinct (map fst data) \<and>
    sorted (rev (map snd data)) \<and>
    (\<forall>(k, n) \<in> set data. n = calls_of logs k \<and> 0 < n) \<and>
    (\<forall>l \<in> set logs. log_tool_name l \<in> fst ` set data \<or>
       (\<forall>(k, n) \<in> set data. calls_of logs (log_tool_name l) \<le> n))"
proof (intro exI conjI)
  let ?r = "ranked_calls logs"
  let ?d = "take 5 ?r"
  show "frequency_data logs = Some ?d" by (rule frequency_data_ranked [OF assms])
  have "card (set ?r) = length ?r"
    using ranked_calls_distinct [OF assms] by (metis distinct_card distinct_map)
  moreover have "card (set ?r) = card (log_tool_name ` set logs)"
    unfolding ranked_calls_set [OF assms] by (rule card_image) (simp add: inj_on_def)
  ultimately show "length ?d = min 5 (card (log_tool_name ` set logs))" by simp
  show "distinct (map fst ?d)"
    using ranked_calls_distinct [OF assms] by (simp flip: take_map)
  have "sorted (map (\<lambda>p. - int (snd p)) ?d)"
    using ranked_calls_sorted [of logs] by (simp add: case_prod_unfold sorted_wrt_take flip: take_map)
  then show "sorted (rev (map snd ?d))"
    by (simp add: sorted_wrt_rev sorted_wrt_map)
  show "\<forall>(k, n) \<in> set ?d. n = calls_of logs k \<and> 0 < n"
    using ranked_calls_set [OF assms]
    by (fastforce dest!: in_set_takeD simp: calls_of_def filter_empty_conv)
  show "\<forall>l \<in> set logs. log_tool_name l \<in> fst ` set ?d \<or>
       (\<forall>(k, n) \<in> set ?d. calls_of logs (log_tool_name l) \<le> n)"
  proof
    fix l assume l: "l \<in> set logs"
    let ?e = "(log_tool_name l, calls_of logs (log_tool_name l))"
    have "?e \<in> set ?d \<union> set (drop 5 ?r)"
      using l ranked_calls_set [OF assms] by (metis append_take_drop_id image_eqI set_append)
    then show "log_tool_name l \<in> fst ` set ?d \<or> (\<forall>(k, n) \<in> set ?d. calls_of logs (log_tool_name l) \<le> n)"
      using sorted_take_le [OF ranked_calls_sorted, of _ 5 logs ?e] by force
  qed
qed

lemma counts_only_garbled: "(k, Garbled n) \<in> set m \<Longrightarrow> counts_only m = None"
  by (induction m rule: counts_only.induct) auto

lemma garbled_incr: "garbled (freq_incr v) = garbled v"
  by (cases v) (simp_all add: garbled_def freq_incr_def)

lemma freq_bump_read:
  "freq_read (freq_bump m k) k' = (if k' = k \<and> k \<noteq> ''__proto__'' then freq_incr (freq_read m k) else freq_read m k')"
  by (auto simp: freq_bump_def freq_read_def map_of_freq_write split: option.splits)

lemma garbled_fold:
  "garbled (freq_read (foldl (\<lambda>m l. freq_bump m (log_tool_name l)) m logs) k) = garbled (freq_read m k)"
  by (induction logs arbitrary: m) (auto simp: freq_bump_read garbled_incr)

lemma keys_fold_bump:
  "set (map fst (foldl (\<lambda>m l. freq_bump m (log_tool_name l)) m logs)) =
     set (map fst m) \<union> (log_tool_name ` set logs - {''__proto__''})"
proof (induction logs arbitrary: m)
  case (Cons l logs)
  have "set (map fst (freq_bump m (log_tool_name l))) = set (map fst m) \<union> ({log_tool_name l} - {''__proto__''})"
    using keys_freq_write by (auto simp: freq_bump_def simp del: set_map)
  with Cons.IH show ?case by auto
qed simp

subsection \<open>Positions\<close>

lemma js_ratio: "0 \<le> a \<Longrightarrow> a \<le> b \<Longrightarrow> 0 < b \<Longrightarrow> 0 \<le> js_div a b \<and> js_div a b \<le> 1"
  by (simp add: js_div_def fl_nonneg fl_le_1)

lemma js_scale:
  assumes "0 \<le> r" "r \<le> 1" "0 \<le> k" "k < 2 ^ 53"
  shows "0 \<le> js_mul r (of_int k) \<and> js_mul r (of_int k) \<le> of_int k"
proof -
  have "r * of_int k \<le> of_int k" using assms by (simp add: mult_left_le_one_le)
  then show ?thesis using assms fl_le [of "r * of_int k" k] by (auto simp: js_mul_def fl_nonneg)
qed

lemma js_offset:
  assumes "0 \<le> r" "r \<le> of_int k" "\<bar>m\<bar> < 2 ^ 53" "\<bar>m + k\<bar> < 2 ^ 53"
  shows "of_int m \<le> js_add (of_int m) r \<and> js_add (of_int m) r \<le> of_int (m + k)"
  using assms fl_ge [of m "of_int m + r"] fl_le [of "of_int m + r" "m + k"] by (auto simp: js_add_def)

lemma latency_point_x:
  assumes "i < n" "50 \<le> w" "w < 2 ^ 53"
  shows "40 \<le> pt_x (latency_point w n mx i d) \<and> pt_x (latency_point w n mx i d) \<le> of_int (int w - 10)"
proof -
  define k where "k = (if n - 1 = 0 then 1 else n - 1)"
  define r where "r = js_div (of_nat i) (of_nat k)"
  have "0 \<le> r \<and> r \<le> 1" unfolding r_def by (rule js_ratio) (use assms in \<open>auto simp: k_def\<close>)
  then have "0 \<le> js_mul r (of_int (int w - 50)) \<and> js_mul r (of_int (int w - 50)) \<le> of_int (int w - 50)"
    by (intro js_scale) (use assms in auto)
  then have "of_int 40 \<le> js_add (of_int 40) (js_mul r (of_int (int w - 50))) \<and>
      js_add (of_int 40) (js_mul r (of_int (int w - 50))) \<le> of_int (40 + (int w - 50))"
    by (intro js_offset) (use assms in auto)
  then show ?thesis
    by (simp add: latency_point_def Let_def r_def k_def)
qed

lemma latency_point_y:
  assumes "0 \<le> log_duration_ms d" "log_duration_ms d \<le> mx" "0 < mx"
  shows "20 \<le> pt_y (latency_point w n mx i d) \<and> pt_y (latency_point w n mx i d) \<le> 190"
proof -
  define r where "r = js_mul (js_div (of_int (log_duration_ms d)) (of_int mx)) (of_int 170)"
  have "0 \<le> r \<and> r \<le> of_int 170"
    unfolding r_def using js_ratio [of "of_int (log_duration_ms d)" "of_int mx"] assms by (intro js_scale) auto
  moreover have "js_add 20 170 = 190" using fl_of_int [of 190] by (simp add: js_add_def)
  ultimately show ?thesis
    using fl_ge [of 20 "190 - r"] fl_le [of "190 - r" 190] by (simp add: latency_point_def Let_def js_sub_def r_def)
qed

lemma latency_point_x_mono:
  "i \<le> j \<Longrightarrow> 50 \<le> w \<Longrightarrow> pt_x (latency_point w n mx i d) \<le> pt_x (latency_point w n mx j d')"
  unfolding latency_point_def Let_def point.simps js_add_def js_mul_def js_div_def
  by (intro fl_mono add_left_mono mult_right_mono divide_right_mono) auto

lemma max_latency_upper: "d \<in> set data \<Longrightarrow> log_duration_ms d \<le> max_latency data" "50 \<le> max_latency data"
  unfolding max_latency_def using foldr_max_upper by (metis image_eqI list.set_map, blast)

lemma latency_points_nth:
  "i < length data \<Longrightarrow> latency_points w data ! i = latency_point w (length data) (max_latency data) i (data ! i)"
  by (simp add: latency_points_def nth_enumerate_eq)

lemma length_latency_points [simp]: "length (latency_points w data) = length data"
  by (simp add: latency_points_def)

lemma latency_points_in_frame:
  assumes "\<And>l. l \<in> set data \<Longrightarrow> 0 \<le> log_duration_ms l" "50 \<le> w" "w < 2 ^ 53" "p \<in> set (latency_points w data)"
  shows "40 \<le> pt_x p \<and> pt_x p \<le> of_int (int w - 10) \<and> 20 \<le> pt_y p \<and> pt_y p \<le> 190"
proof -
  obtain i where i: "i < length data" "p = latency_point w (length data) (max_latency data) i (data ! i)"
    using assms(4) by (auto simp: in_set_conv_nth latency_points_nth)
  then show ?thesis
    using latency_point_x [OF i(1) assms(2,3)] latency_point_y [of "data ! i"] max_latency_upper(1) [of "data ! i" data] max_latency_upper(2) [of data] assms(1)
    by simp
qed

lemma latency_points_sorted:
  "50 \<le> w \<Longrightarrow> sorted (map pt_x (latency_points w data))"
  by (auto simp: sorted_iff_nth_mono latency_points_nth intro: latency_point_x_mono)

lemma max_count_upper: "d \<in> set data \<Longrightarrow> snd d \<le> max_count data" "5 \<le> max_count data"
  unfolding max_count_def using foldr_max_upper by (metis image_eqI list.set_map, blast)

lemma frequency_bar_width:
  assumes "d \<in> set data" "160 \<le> w" "w < 2 ^ 53"
  shows "0 \<le> bar_width (frequency_bar w data i d) \<and> bar_width (frequency_bar w data i d) \<le> of_int (int w - 160)"
proof -
  have "0 \<le> js_div (of_nat (snd d)) (of_nat (max_count data)) \<and> js_div (of_nat (snd d)) (of_nat (max_count data)) \<le> 1"
    using max_count_upper(1) [OF assms(1)] max_count_upper(2) [of data] by (intro js_ratio) auto
  then have "0 \<le> js_mul (js_div (of_nat (snd d)) (of_nat (max_count data))) (of_int (int w - 160)) \<and>
     js_mul (js_div (of_nat (snd d)) (of_nat (max_count data))) (of_int (int w - 160)) \<le> of_int (int w - 160)"
    by (intro js_scale) (use assms in auto)
  then show ?thesis by (simp add: frequency_bar_def Let_def)
qed


section \<open>Properties\<close>

text \<open>The success rate on the telemetry page is a percentage between 0 and 100, and it differs from
  the exact ratio of successful calls by at most one half plus the error of the two roundings.\<close>

theorem success_rate_correct:
  assumes "logs \<noteq> []"
  shows "0 \<le> success_rate logs \<and> success_rate logs \<le> 100 \<and>
    \<bar>of_int (success_rate logs) - 100 * of_nat (successes logs) / of_nat (length logs) :: rat\<bar> \<le> 1 / 2 + 1 / 2 ^ 45"
  using success_rate_range [OF assms] success_rate_accurate [OF assms] by simp

theorem success_rate_correct_witness:
  "0 \<le> success_rate sample_logs \<and> success_rate sample_logs \<le> 100"
  using success_rate_correct [of sample_logs] by (simp add: sample_logs_def)

text \<open>The 95th percentile of the telemetry page is one of the latencies of the log (never
  \<^verbatim>\<open>undefined\<close>); at least 95 percent of the calls took at most that long and at most 95 percent took
  less, for every log of fewer than \<^term>\<open>2 ^ 47 :: nat\<close> entries.\<close>

theorem p95_percentile:
  assumes "logs \<noteq> []" "length logs < 2 ^ 47"
  shows "\<exists>d \<in> log_duration_ms ` set logs. p95_latency logs = Some d \<and>
    19 * length logs \<le> 20 * length (filter (\<lambda>l. log_duration_ms l \<le> d) logs) \<and>
    20 * length (filter (\<lambda>l. log_duration_ms l < d) logs) \<le> 19 * length logs"
proof -
  let ?n = "length logs" and ?ds = "sort (map log_duration_ms logs)"
  define i where "i = nat (p95_index ?n)"
  have n: "0 < ?n" using assms(1) by simp
  note b = p95_index_bounds [OF n assms(2)]
  have ii: "p95_index ?n = int i" "i < ?n" using b n unfolding i_def by linarith+
  have p: "p95_latency logs = Some (?ds ! i)" using ii by (simp add: p95_latency_def Let_def)
  have mem: "?ds ! i \<in> log_duration_ms ` set logs"
    using nth_mem [of i ?ds] ii by simp
  have r: "Suc i \<le> length (filter (\<lambda>x. x \<le> ?ds ! i) ?ds)" "length (filter (\<lambda>x. x < ?ds ! i) ?ds) \<le> i"
    using sorted_rank [of ?ds i] ii by simp_all
  show ?thesis
    by (rule bexI [OF _ mem]) (use p r b ii in \<open>simp add: filter_sort_length\<close>)
qed

theorem p95_percentile_witness:
  "\<exists>d. p95_latency sample_logs = Some d \<and> d \<in> {120, 35, 80}"
  using p95_percentile [of sample_logs] by (auto simp: sample_logs_def)

text \<open>The average latency of the dashboard lies between the smallest and the largest latency of the
  log, as long as the latencies sum to less than \<^term>\<open>2 ^ 53 :: int\<close>.\<close>

theorem average_latency_bounds:
  assumes "logs \<noteq> []" "(\<Sum>l\<leftarrow>logs. \<bar>log_duration_ms l\<bar>) < 2 ^ 53"
    and "\<And>l. l \<in> set logs \<Longrightarrow> lo \<le> log_duration_ms l \<and> log_duration_ms l \<le> hi"
    and "\<bar>lo\<bar> < 2 ^ 53" "\<bar>hi\<bar> < 2 ^ 53"
  shows "lo \<le> average_latency logs \<and> average_latency logs \<le> hi"
proof -
  let ?n = "length logs" and ?s = "\<Sum>l\<leftarrow>logs. log_duration_ms l"
  have n: "0 < (of_nat ?n :: rat)" using assms(1) by simp
  have "int ?n * lo \<le> ?s" "?s \<le> int ?n * hi"
    using sum_list_bounded [of "map log_duration_ms logs" lo hi] assms(3) by auto
  then have "(of_int (int ?n * lo) :: rat) \<le> of_int ?s" "(of_int ?s :: rat) \<le> of_int (int ?n * hi)"
    by (simp_all only: of_int_le_iff)
  with n have "of_int lo \<le> (of_int ?s / of_nat ?n :: rat)" "(of_int ?s / of_nat ?n :: rat) \<le> of_int hi"
    by (simp_all add: pos_le_divide_eq pos_divide_le_eq mult.commute)
  then show ?thesis
    using assms(4,5) total_duration_exact [OF assms(2)]
    by (auto simp: average_latency_def js_div_def intro!: Math_round_between [THEN conjunct1] Math_round_between [THEN conjunct2] fl_ge fl_le)
qed

theorem average_latency_bounds_witness:
  "35 \<le> average_latency sample_logs \<and> average_latency sample_logs \<le> 120"
  by (rule average_latency_bounds) (auto simp: sample_logs_def)

text \<open>The latency chart draws the 20 newest calls in chronological order, from left to right, every
  dot inside the frame of the chart, and the last dot is the newest call.\<close>

theorem latency_chart_in_frame:
  assumes "logs \<noteq> []" "\<forall>l \<in> set logs. 0 \<le> log_duration_ms l" "50 \<le> chart_width cw" "chart_width cw < 2 ^ 53"
  shows "\<exists>ch. renderLatencyChart cw logs = Some ch \<and>
    length (lc_dots ch) = min 20 (length logs) \<and>
    (\<forall>(x, y, t) \<in> set (lc_dots ch). 40 \<le> x \<and> x \<le> of_int (int (chart_width cw) - 10) \<and> 20 \<le> y \<and> y \<le> 190) \<and>
    sorted (map fst (lc_dots ch)) \<and>
    snd (snd (last (lc_dots ch))) =
      escapeHtml (log_tool_name (hd logs)) @ [newline_char] @ ''Latency: '' @
      int_to_string (log_duration_ms (hd logs)) @ ''ms''"
proof -
  define w where "w = chart_width cw"
  define data where "data = latency_data logs"
  define ps where "ps = latency_points w data"
  have data: "data \<noteq> []" "set data \<subseteq> set logs" "length data = min 20 (length logs)" "last data = hd logs"
    using assms(1) by (auto simp: data_def latency_data_def last_rev hd_take dest: in_set_takeD)
  from data(1) obtain ch where ch: "renderLatencyChart cw logs = Some ch" "lc_dots ch = map (\<lambda>p. (pt_x p, pt_y p, point_title p)) ps"
    by (auto simp: renderLatencyChart_def Let_def ps_def w_def data_def)
  have frame: "40 \<le> pt_x p \<and> pt_x p \<le> of_int (int w - 10) \<and> 20 \<le> pt_y p \<and> pt_y p \<le> 190" if "p \<in> set ps" for p
    using latency_points_in_frame [of data w p] that assms data(2) by (auto simp: ps_def w_def)
  have ne: "ps \<noteq> []" using data(1) length_latency_points [of w data] by (metis length_0_conv ps_def)
  have last: "last ps = latency_point w (length data) (max_latency data) (length data - 1) (last data)"
    using ne data(1) by (simp add: last_conv_nth) (simp add: ps_def latency_points_nth)
  have "snd (snd (last (lc_dots ch))) = point_title (last ps)"
    using ne by (simp add: ch(2) last_map)
  then show ?thesis
    using ch frame data last latency_points_sorted [of w data] assms(3)
    by (auto simp: ps_def [symmetric] w_def [symmetric] o_def point_title_def latency_point_def Let_def)
       (simp_all add: ps_def)
qed

theorem latency_chart_in_frame_witness:
  "\<exists>ch. renderLatencyChart 0 sample_logs = Some ch \<and> length (lc_dots ch) = 3"
  using latency_chart_in_frame [of sample_logs 0] by (auto simp: sample_logs_def chart_width_def)

text \<open>The frequency chart shows the five most frequently called tools, by falling number of calls
  and with the right numbers, unless a tool has the name of a property that every object inherits.\<close>

theorem frequency_chart_top5:
  assumes "plain_names logs"
  shows "\<exists>data. frequency_data logs = Some data \<and>
    length data = min 5 (card (log_tool_name ` set logs)) \<and> distinct (map fst data) \<and>
    sorted (rev (map snd data)) \<and>
    (\<forall>(k, n) \<in> set data. n = calls_of logs k \<and> 0 < n) \<and>
    (\<forall>l \<in> set logs. log_tool_name l \<in> fst ` set data \<or>
       (\<forall>(k, n) \<in> set data. calls_of logs (log_tool_name l) \<le> n))"
  by (rule frequency_top5_facts [OF assms])

theorem frequency_chart_top5_witness:
  "\<exists>data. frequency_data sample_logs = Some data \<and> sorted (rev (map snd data))"
  using frequency_chart_top5 [of sample_logs] by (auto simp: sample_logs_def plain_names_def inherited_names_def)

text \<open>One bar per tool, labelled with the escaped and shortened name and the number of calls, and no
  wider than the background it is drawn on.\<close>

theorem frequency_chart_bars:
  assumes "plain_names logs" "logs \<noteq> []" "160 \<le> chart_width cw" "chart_width cw < 2 ^ 53"
  shows "\<exists>ch data. renderFrequencyChart cw logs = Some (Some ch) \<and> frequency_data logs = Some data \<and>
    map bar_count (fc_bars ch) = map snd data \<and>
    map bar_label (fc_bars ch) = map (\<lambda>d. escapeHtml (display_name (fst d))) data \<and>
    (\<forall>b \<in> set (fc_bars ch). 0 \<le> bar_width b \<and> bar_width b \<le> fc_background ch)"
proof -
  obtain data where data: "frequency_data logs = Some data" "length data = min 5 (card (log_tool_name ` set logs))"
    using frequency_top5_facts [OF assms(1)] by blast
  have "0 < card (log_tool_name ` set logs)" using assms(2) by (simp add: card_gt_0_iff)
  with data(2) have ne: "data \<noteq> []" by auto
  define w where "w = chart_width cw"
  let ?ch = "\<lparr>fc_width = w, fc_background = of_int (int w - 160),
              fc_bars = map (\<lambda>(i, d). frequency_bar w data i d) (enumerate 0 data)\<rparr>"
  have "renderFrequencyChart cw logs = Some (Some ?ch)"
    using data(1) ne by (simp add: renderFrequencyChart_def Let_def w_def)
  moreover have "map bar_count (fc_bars ?ch) = map snd data"
    "map bar_label (fc_bars ?ch) = map (\<lambda>d. escapeHtml (display_name (fst d))) data"
    by (auto simp: case_prod_unfold frequency_bar_def Let_def o_def intro!: nth_equalityI simp: nth_enumerate_eq)
  moreover have "\<forall>b \<in> set (fc_bars ?ch). 0 \<le> bar_width b \<and> bar_width b \<le> fc_background ?ch"
    using frequency_bar_width [of _ data w] assms(3,4) by (auto simp: w_def enumerate_eq_zip dest!: set_zip_rightD)
  ultimately show ?thesis using data(1) by blast
qed

theorem frequency_chart_bars_witness:
  "\<exists>ch. renderFrequencyChart 400 sample_logs = Some (Some ch)"
  using frequency_chart_bars [of sample_logs 400]
  by (auto simp: sample_logs_def plain_names_def inherited_names_def chart_width_def)

text \<open>One call of a tool whose name every object inherits (\<^verbatim>\<open>constructor\<close>, \<^verbatim>\<open>toString\<close>, \<dots>) turns its
  count into text, and the chart's order is lost.\<close>

theorem inherited_name_breaks_chart:
  assumes "k \<in> set inherited_names" "k \<noteq> ''__proto__''" "k \<in> log_tool_name ` set logs"
  shows "renderFrequencyChart cw logs = None"
proof -
  have "k \<in> set (map fst (freq_map logs))"
    using assms keys_fold_bump [of "[]" logs] by (auto simp: freq_map_def)
  then obtain v where v: "map_of (freq_map logs) k = Some v" by (metis map_of_eq_None_iff not_Some_eq set_map)
  have "garbled (freq_read (freq_map logs) k)"
    unfolding freq_map_def garbled_fold using assms(1) by (simp add: freq_read_def garbled_def)
  then have "garbled v" using v by (simp add: freq_read_def)
  then obtain n where "(k, Garbled n) \<in> set (object_entries (freq_map logs))"
    using map_of_SomeD [OF v] by (cases v) (auto simp: garbled_def object_entries_keys)
  from counts_only_garbled [OF this] show ?thesis
    by (simp add: renderFrequencyChart_def frequency_data_def)
qed

theorem inherited_name_breaks_chart_witness:
  "renderFrequencyChart 400 (map (log_tool_name_update (\<lambda>_. ''constructor'')) sample_logs) = None"
  by (rule inherited_name_breaks_chart [where k = "''constructor''"])
    (simp_all add: sample_logs_def inherited_names_def)

end
