(* ===== verification/Portal_Async.thy ===== *)
theory Portal_Async
  imports Portal_Prelude
begin

text \<open>
  The execution model of the portal's asynchronous functions. A JavaScript function runs to
  completion except at \<^verbatim>\<open>await\<close>, where it is suspended until the environment answers; other
  handlers run in between. A \<open>proc\<close> is such a function: state updates, reads of the current
  state, calls of other asynchronous functions whose promise is not awaited (they run up to
  their first \<^verbatim>\<open>await\<close> before the caller goes on), and suspension points. The event loop is a
  step relation over the shared state and the suspended functions.
\<close>

section \<open>Definitions\<close>

datatype (dead 's, dead 'q, dead 'r) proc =
    Done
  | Do "'s \<Rightarrow> 's" "('s, 'q, 'r) proc"
  | Read "'s \<Rightarrow> ('s, 'q, 'r) proc"
  | Call "('s, 'q, 'r) proc" "('s, 'q, 'r) proc"
  | Await 'q "'r \<Rightarrow> ('s, 'q, 'r) proc"

type_synonym ('s, 'q, 'r) suspended = "'q \<times> ('r \<Rightarrow> ('s, 'q, 'r) proc)"

text \<open>Run-to-completion: the state at the end and the functions left suspended.\<close>

primrec run :: "('s, 'q, 'r) proc \<Rightarrow> 's \<Rightarrow> 's \<times> ('s, 'q, 'r) suspended list" where
  "run Done s = (s, [])"
| "run (Do f p) s = run p (f s)"
| "run (Read f) s = run (f s) s"
| "run (Call p k) s =
     (let (s1, ws) = run p s; (s2, vs) = run k s1 in (s2, ws @ vs))"
| "run (Await q k) s = (s, [(q, k)])"

record ('s, 'q, 'r) machine =
  mem :: 's
  waiting :: "('s, 'q, 'r) suspended list"

datatype ('e, 'r) action = Resume nat 'r | Event 'e

text \<open>
  One turn of the event loop. \<open>answers q r\<close> says which answers the environment may give to
  a suspension point; \<open>handler s e\<close> is the code an event runs, \<^const>\<open>None\<close> where the event
  cannot happen.
\<close>

fun turn ::
  "('q \<Rightarrow> 'r \<Rightarrow> bool) \<Rightarrow> ('s \<Rightarrow> 'e \<Rightarrow> ('s, 'q, 'r) proc option) \<Rightarrow>
   ('s, 'q, 'r) machine \<Rightarrow> ('e, 'r) action \<Rightarrow> ('s, 'q, 'r) machine option" where
  "turn answers handler m (Resume i r) =
     (if i < length (waiting m) \<and> answers (fst (waiting m ! i)) r then
        (let (s', ws) = run (snd (waiting m ! i) r) (mem m)
         in Some \<lparr>mem = s', waiting = take i (waiting m) @ drop (Suc i) (waiting m) @ ws\<rparr>)
      else None)"
| "turn answers handler m (Event e) =
     (case handler (mem m) e of
        None \<Rightarrow> None
      | Some p \<Rightarrow>
          (let (s', ws) = run p (mem m) in Some \<lparr>mem = s', waiting = waiting m @ ws\<rparr>))"

fun turns ::
  "('q \<Rightarrow> 'r \<Rightarrow> bool) \<Rightarrow> ('s \<Rightarrow> 'e \<Rightarrow> ('s, 'q, 'r) proc option) \<Rightarrow>
   ('s, 'q, 'r) machine \<Rightarrow> ('e, 'r) action list \<Rightarrow> ('s, 'q, 'r) machine option" where
  "turns answers handler m [] = Some m"
| "turns answers handler m (a # as) =
     (case turn answers handler m a of
        None \<Rightarrow> None
      | Some m' \<Rightarrow> turns answers handler m' as)"

text \<open>The states the event loop can reach from a set of initial ones.\<close>

inductive reach ::
  "('q \<Rightarrow> 'r \<Rightarrow> bool) \<Rightarrow> ('s \<Rightarrow> 'e \<Rightarrow> ('s, 'q, 'r) proc option) \<Rightarrow>
   ('s \<Rightarrow> bool) \<Rightarrow> ('s, 'q, 'r) machine \<Rightarrow> bool"
  for answers handler init where
  start: "init s \<Longrightarrow> reach answers handler init \<lparr>mem = s, waiting = []\<rparr>"
| step: "reach answers handler init m \<Longrightarrow> turn answers handler m a = Some m' \<Longrightarrow>
         reach answers handler init m'"

text \<open>
  Rely and guarantee. \<open>keeps answers I R p a s\<close>: the segment of \<open>p\<close> that began in state
  \<open>a\<close> and is now in \<open>s\<close> re-establishes \<open>I\<close> by the time it is suspended or done, is then
  related to \<open>a\<close> by \<open>R\<close>, and so are all later segments, provided that what happens while
  \<open>p\<close> is suspended keeps \<open>I\<close> and follows \<open>R\<close>.
\<close>

primrec keeps ::
  "('q \<Rightarrow> 'r \<Rightarrow> bool) \<Rightarrow> ('s \<Rightarrow> bool) \<Rightarrow> ('s \<Rightarrow> 's \<Rightarrow> bool) \<Rightarrow> ('s, 'q, 'r) proc \<Rightarrow> 's \<Rightarrow> 's \<Rightarrow> bool" where
  "keeps answers I R Done a s = (I s \<and> R a s)"
| "keeps answers I R (Do f p) a s = keeps answers I R p a (f s)"
| "keeps answers I R (Read f) a s = keeps answers I R (f s) a s"
| "keeps answers I R (Call p k) a s =
     (keeps answers I R p a s \<and> keeps answers I R k (fst (run p s)) (fst (run p s)))"
| "keeps answers I R (Await q k) a s =
     (I s \<and> R a s \<and>
      (\<forall>r s'. answers q r \<longrightarrow> I s' \<longrightarrow> R s s' \<longrightarrow> keeps answers I R (k r) s' s'))"

definition resumable ::
  "('q \<Rightarrow> 'r \<Rightarrow> bool) \<Rightarrow> ('s \<Rightarrow> bool) \<Rightarrow> ('s \<Rightarrow> 's \<Rightarrow> bool) \<Rightarrow> 's \<Rightarrow> ('s, 'q, 'r) suspended \<Rightarrow> bool" where
  "resumable answers I R s w =
     (\<forall>r t. answers (fst w) r \<longrightarrow> I t \<longrightarrow> R s t \<longrightarrow> keeps answers I R (snd w r) t t)"

definition loop_ok ::
  "('q \<Rightarrow> 'r \<Rightarrow> bool) \<Rightarrow> ('s \<Rightarrow> bool) \<Rightarrow> ('s \<Rightarrow> 's \<Rightarrow> bool) \<Rightarrow> ('s, 'q, 'r) machine \<Rightarrow> bool" where
  "loop_ok answers I R m \<longleftrightarrow>
     I (mem m) \<and> list_all (resumable answers I R (mem m)) (waiting m)"

text \<open>
  One function driven on its own: \<open>drive p s [(g1, r1), (g2, r2), \<dots>]\<close> answers its suspension
  points in turn, with arbitrary changes \<open>g1\<close>, \<open>g2\<close>, \<dots> made to the state by other code
  while it was suspended.
\<close>

fun drive :: "('s, 'q, 'r) proc \<Rightarrow> 's \<Rightarrow> (('s \<Rightarrow> 's) \<times> 'r) list \<Rightarrow> 's" where
  "drive p s [] = fst (run p s)"
| "drive p s ((g, r) # rs) =
     (case run p s of
        (s', [(q, k)]) \<Rightarrow> drive (k r) (g s') rs
      | (s', _) \<Rightarrow> s')"

section \<open>Lemmas\<close>

text \<open>The rely relation is a preorder: time passes, and then passes again.\<close>

locale rely =
  fixes R :: "'s \<Rightarrow> 's \<Rightarrow> bool"
  assumes rely_refl: "R s s"
    and rely_trans: "R s t \<Longrightarrow> R t u \<Longrightarrow> R s u"
begin

lemma resumable_trans:
  "R s t \<Longrightarrow> list_all (resumable answers I R s) ws \<Longrightarrow> list_all (resumable answers I R t) ws"
  by (auto simp: list_all_iff resumable_def intro: rely_trans)

lemma run_keeps:
  "keeps answers I R p a s \<Longrightarrow> run p s = (s', ws) \<Longrightarrow>
   I s' \<and> R a s' \<and> list_all (resumable answers I R s') ws"
proof (induction p arbitrary: a s s' ws)
  case (Call p k)
  obtain s1 us where p: "run p s = (s1, us)" by force
  obtain s2 vs where k: "run k s1 = (s2, vs)" by force
  have 1: "I s1 \<and> R a s1 \<and> list_all (resumable answers I R s1) us"
    using Call.prems p by (intro Call.IH(1) [of a s]) auto
  have 2: "I s2 \<and> R s1 s2 \<and> list_all (resumable answers I R s2) vs"
    using Call.prems p k by (intro Call.IH(2) [of s1 s1]) auto
  from 1 2 have "list_all (resumable answers I R s2) (us @ vs)" "R a s2"
    by (auto intro: resumable_trans rely_trans)
  with 2 show ?case
    using Call.prems p k by auto
next
  case (Read f)
  from Read.prems show ?case by (intro Read.IH [of "f s" a s]) auto
next
  case (Do f p)
  from Do.prems show ?case by (intro Do.IH [of a "f s"]) auto
qed (auto simp: resumable_def)

end

text \<open>
  An invariant of the event loop under a rely relation: an initial state has it and every event
  handler keeps it. The loop then keeps it under every interleaving of events and answers.
\<close>

locale loop_invariant = rely R
  for R :: "'s \<Rightarrow> 's \<Rightarrow> bool" +
  fixes answers :: "'q \<Rightarrow> 'r \<Rightarrow> bool"
    and handler :: "'s \<Rightarrow> 'e \<Rightarrow> ('s, 'q, 'r) proc option"
    and init :: "'s \<Rightarrow> bool"
    and I :: "'s \<Rightarrow> bool"
  assumes init_inv: "init s \<Longrightarrow> I s"
    and handler_keeps: "I s \<Longrightarrow> handler s e = Some p \<Longrightarrow> keeps answers I R p s s"
begin

lemma turn_ok:
  assumes ok: "loop_ok answers I R m" and turn: "turn answers handler m a = Some m'"
  shows "loop_ok answers I R m'"
proof (cases a)
  case (Resume i r)
  with turn have i: "i < length (waiting m)" and r: "answers (fst (waiting m ! i)) r"
    by (auto split: if_splits)
  obtain s' ws where run: "run (snd (waiting m ! i) r) (mem m) = (s', ws)" by force
  from ok i have "resumable answers I R (mem m) (waiting m ! i)"
    by (simp add: loop_ok_def list_all_length)
  with ok r have "keeps answers I R (snd (waiting m ! i) r) (mem m) (mem m)"
    by (simp add: loop_ok_def resumable_def rely_refl)
  note step = run_keeps [OF this run]
  with ok have "list_all (resumable answers I R s') (waiting m)"
    by (auto simp: loop_ok_def intro: resumable_trans)
  with step Resume turn i r run show ?thesis
    by (auto simp: loop_ok_def list_all_take list_all_drop)
next
  case (Event e)
  with turn obtain p where p: "handler (mem m) e = Some p"
    by (auto split: option.splits)
  obtain s' ws where run: "run p (mem m) = (s', ws)" by force
  from ok p have "keeps answers I R p (mem m) (mem m)"
    by (auto simp: loop_ok_def intro: handler_keeps)
  from run_keeps [OF this run] ok Event turn p run show ?thesis
    by (auto simp: loop_ok_def intro: resumable_trans)
qed

lemma reach_ok: "reach answers handler init m \<Longrightarrow> loop_ok answers I R m"
proof (induction rule: reach.induct)
  case (start s)
  then show ?case by (simp add: loop_ok_def init_inv)
next
  case (step m a m')
  then show ?case by (blast intro: turn_ok)
qed

lemma reach_inv: "reach answers handler init m \<Longrightarrow> I (mem m)"
  using reach_ok loop_ok_def by blast

end

lemma turns_reach:
  "reach answers handler init m \<Longrightarrow> turns answers handler m as = Some m' \<Longrightarrow>
   reach answers handler init m'"
  by (induction as arbitrary: m) (auto split: option.splits intro: reach.step)

lemma turns_append:
  "turns answers handler m (as @ bs) =
     (case turns answers handler m as of
        None \<Rightarrow> None | Some m' \<Rightarrow> turns answers handler m' bs)"
  by (induction as arbitrary: m) (auto split: option.splits)

end
