(* ===== verification/Portal_Browser.thy ===== *)
theory Portal_Browser
  imports Portal_Data Portal_Charts Portal_Async
begin

text \<open>
  The state the portal's code works on: the global \<^verbatim>\<open>STATE\<close> object, \<^verbatim>\<open>localStorage\<close>, the
  elements of the page, the location, timers, and the requests handed to the network; and the
  functions of \<^verbatim>\<open>app.js\<close> everything else is built on: the \<^verbatim>\<open>fetch\<close> interceptor, \<^verbatim>\<open>getHeaders\<close> and \<^verbatim>\<open>showToast\<close>.
\<close>

section \<open>Suspension points\<close>

datatype fetch_result = NetErr string | Resp response

datatype prompt = Fetch request | Json response | Text response | WriteClipboard string

datatype answer = AFetch fetch_result | AJson "string + payload" | AText "string + string" | AClip bool

section \<open>The page\<close>

text \<open>
  The content of an element: text, a fragment of HTML, an appended element with its tag, class
  and inner HTML, or one of the two charts, which are kept as drawings instead of SVG text.
\<close>

datatype node =
    TextNode string
  | HtmlNode string
  | ElemNode string string string
  | LatencyNode latency_chart
  | FrequencyNode "frequency_chart option"

record elem =
  cls :: "string list"
  content :: "node list"
  val :: string
  checked :: bool
  href :: string
  options :: "string list"

text \<open>A section of the help page, with its search keywords.\<close>

record doc_section =
  doc_title :: string
  doc_text :: string
  doc_keywords :: string
  doc_hidden :: bool

text \<open>The global object \<^verbatim>\<open>STATE\<close>.\<close>

record app_state =
  st_token :: string
  st_username :: string
  st_connections :: "connection list"
  st_endpoints :: "api_endpoint list"
  st_logs :: "audit_log list"
  st_tokens :: "client_token list"

text \<open>
  The browser as the code sees it. \<open>ids\<close> are the ids present in the page, for the lookups
  that the code guards against \<^verbatim>\<open>null\<close>; \<open>hash_listeners\<close> counts the registrations of the
  router's \<^verbatim>\<open>hashchange\<close> listener and \<open>hash_events\<close> the \<^verbatim>\<open>hashchange\<close> events not yet
  delivered; \<open>loaded\<close> tells whether \<^verbatim>\<open>window.onload\<close> has fired; \<open>timers\<close> holds the due times of the toast timers; \<open>sent\<close> is the history of
  the requests handed to the network; \<open>locale_date\<close> is the browser's locale-dependent
  \<^verbatim>\<open>new Date(s).toLocaleString()\<close> and \<open>client_width\<close> its layout.
\<close>

record browser =
  STATE :: app_state
  localStorage :: "string \<rightharpoonup> string"
  ids :: "string list"
  dom :: "string \<Rightarrow> elem"
  loc_hash :: string
  loc_host :: string
  loc_protocol :: string
  loc_href :: string
  now :: nat
  timers :: "nat list"
  reloading :: bool
  hash_listeners :: nat
  hash_events :: nat
  sent :: "request list"
  clipboard :: string
  downloads :: "(string \<times> string) list"
  html_light :: bool
  locale_date :: "string \<Rightarrow> string"
  client_width :: "string \<Rightarrow> nat"
  docs :: "doc_section list"
  loaded :: bool

type_synonym app_proc = "(browser, prompt, answer) proc"
type_synonym app_machine = "(browser, prompt, answer) machine"

subsection \<open>Elements\<close>

definition upd_elem :: "string \<Rightarrow> (elem \<Rightarrow> elem) \<Rightarrow> browser \<Rightarrow> browser" where
  "upd_elem i f b = b\<lparr>dom := (dom b)(i := f (dom b i))\<rparr>"

text \<open>\<^verbatim>\<open>classList.add\<close> and \<^verbatim>\<open>classList.remove\<close> on the ordered set of class names.\<close>

definition add_class :: "string \<Rightarrow> string list \<Rightarrow> string list" where
  "add_class c cs = (if c \<in> set cs then cs else cs @ [c])"

definition remove_class :: "string \<Rightarrow> string list \<Rightarrow> string list" where
  "remove_class c cs = filter (\<lambda>d. d \<noteq> c) cs"

definition set_innerText :: "string \<Rightarrow> string \<Rightarrow> browser \<Rightarrow> browser" where
  "set_innerText i t = upd_elem i (\<lambda>e. e\<lparr>content := [TextNode t]\<rparr>)"

definition set_innerHTML :: "string \<Rightarrow> string \<Rightarrow> browser \<Rightarrow> browser" where
  "set_innerHTML i h = upd_elem i (\<lambda>e. e\<lparr>content := (if h = [] then [] else [HtmlNode h])\<rparr>)"

definition append_children :: "string \<Rightarrow> node list \<Rightarrow> browser \<Rightarrow> browser" where
  "append_children i ns = upd_elem i (\<lambda>e. e\<lparr>content := content e @ ns\<rparr>)"

definition class_add :: "string \<Rightarrow> string \<Rightarrow> browser \<Rightarrow> browser" where
  "class_add i c = upd_elem i (\<lambda>e. e\<lparr>cls := add_class c (cls e)\<rparr>)"

definition class_remove :: "string \<Rightarrow> string \<Rightarrow> browser \<Rightarrow> browser" where
  "class_remove i c = upd_elem i (\<lambda>e. e\<lparr>cls := remove_class c (cls e)\<rparr>)"

definition set_className :: "string \<Rightarrow> string list \<Rightarrow> browser \<Rightarrow> browser" where
  "set_className i cs = upd_elem i (\<lambda>e. e\<lparr>cls := cs\<rparr>)"

definition set_href :: "string \<Rightarrow> string \<Rightarrow> browser \<Rightarrow> browser" where
  "set_href i h = upd_elem i (\<lambda>e. e\<lparr>href := h\<rparr>)"

definition set_val :: "string \<Rightarrow> string \<Rightarrow> browser \<Rightarrow> browser" where
  "set_val i v = upd_elem i (\<lambda>e. e\<lparr>val := v\<rparr>)"

definition set_checked :: "string \<Rightarrow> bool \<Rightarrow> browser \<Rightarrow> browser" where
  "set_checked i v = upd_elem i (\<lambda>e. e\<lparr>checked := v\<rparr>)"

definition is_hidden :: "browser \<Rightarrow> string \<Rightarrow> bool" where
  "is_hidden b i = (''hidden'' \<in> set (cls (dom b i)))"

definition has_id :: "browser \<Rightarrow> string \<Rightarrow> bool" where
  "has_id b i = (i \<in> set (ids b))"

definition node_text :: "node \<Rightarrow> string" where
  "node_text n = (case n of TextNode t \<Rightarrow> t | HtmlNode h \<Rightarrow> h | ElemNode _ _ h \<Rightarrow> h | _ \<Rightarrow> [])"

text \<open>\<^verbatim>\<open>innerText\<close> of an element that only ever holds text.\<close>

definition get_innerText :: "browser \<Rightarrow> string \<Rightarrow> string" where
  "get_innerText b i = concat (map node_text (content (dom b i)))"

section \<open>Functions of app.js\<close>

subsection \<open>Session storage, headers, toasts\<close>

definition token_key :: string where
  "token_key = ''mcp_gateway_token''"

definition username_key :: string where
  "username_key = ''mcp_gateway_username''"

text \<open>\<^verbatim>\<open>localStorage.getItem(k) || ''\<close>\<close>

definition stored :: "browser \<Rightarrow> string \<Rightarrow> string" where
  "stored b k = (case localStorage b k of None \<Rightarrow> [] | Some v \<Rightarrow> v)"

text \<open>The initialiser of \<^verbatim>\<open>STATE\<close>, run when the script is loaded.\<close>

definition init_STATE :: "browser \<Rightarrow> app_state" where
  "init_STATE b = \<lparr>st_token = stored b token_key, st_username = stored b username_key,
                   st_connections = [], st_endpoints = [], st_logs = [], st_tokens = []\<rparr>"

definition getHeaders :: "browser \<Rightarrow> (string \<times> string) list" where
  "getHeaders b = [(''Content-Type'', ''application/json''),
                   (''Authorization'', ''Bearer '' @ st_token (STATE b))]"

definition showToast :: "string \<Rightarrow> string \<Rightarrow> browser \<Rightarrow> browser" where
  "showToast message type b =
     (let b1 = set_innerText ''toast'' message b;
          b2 = set_className ''toast'' [''toast'', type] b1;
          b3 = class_remove ''toast'' ''hidden'' b2
      in b3\<lparr>timers := timers b3 @ [now b3 + 4000]\<rparr>)"

text \<open>The callback of \<^verbatim>\<open>setTimeout\<close>: a timer that is due hides the toast.\<close>

definition timer_due :: "nat \<Rightarrow> browser \<Rightarrow> browser" where
  "timer_due i b =
     (class_add ''toast'' ''hidden'' b)\<lparr>timers := take i (timers b) @ drop (Suc i) (timers b)\<rparr>"

subsection \<open>fetch\<close>

text \<open>The body of the interceptor's \<^verbatim>\<open>if\<close>: forget the session and reload the page.\<close>

definition session_expired :: "browser \<Rightarrow> browser" where
  "session_expired b =
     b\<lparr>localStorage := (localStorage b)(token_key := None, username_key := None), reloading := True\<rparr>"

text \<open>
  The interceptor after its \<^verbatim>\<open>await\<close>, with the rest of the caller \<open>k\<close>, which is applied to the
  response or to the message of the error that a failed request is rejected with.
\<close>

definition intercept :: "string \<Rightarrow> (fetch_result \<Rightarrow> app_proc) \<Rightarrow> answer \<Rightarrow> app_proc" where
  "intercept url k a =
     (case a of
        AFetch (NetErr msg) \<Rightarrow> k (NetErr msg)
      | AFetch (Resp res) \<Rightarrow>
          (if status res = 401 \<and> \<not> js_includes url ''/api/auth/login''
           then Do session_expired (k (Resp res))
           else k (Resp res))
      | _ \<Rightarrow> Done)"

text \<open>
  \<^verbatim>\<open>await fetch(url, opts)\<close> through the interceptor; \<open>rq\<close> builds the request from the
  state at the time of the call.
\<close>

definition fetch :: "(browser \<Rightarrow> request) \<Rightarrow> (fetch_result \<Rightarrow> app_proc) \<Rightarrow> app_proc" where
  "fetch rq k =
     Read (\<lambda>b. let r = rq b in
       Do (\<lambda>b. b\<lparr>sent := sent b @ [r]\<rparr>) (Await (Fetch r) (intercept (rq_url r) k)))"

text \<open>\<^verbatim>\<open>await fetch\<close> inside a \<^verbatim>\<open>try\<close> block whose \<^verbatim>\<open>catch\<close> branch is \<open>c\<close>.\<close>

definition try_fetch ::
  "(browser \<Rightarrow> request) \<Rightarrow> (string \<Rightarrow> app_proc) \<Rightarrow> (response \<Rightarrow> app_proc) \<Rightarrow> app_proc" where
  "try_fetch rq c k = fetch rq (\<lambda>r. case r of NetErr msg \<Rightarrow> c msg | Resp res \<Rightarrow> k res)"

text \<open>\<^verbatim>\<open>await res.json()\<close> inside a \<^verbatim>\<open>try\<close> block.\<close>

definition try_json :: "response \<Rightarrow> (string \<Rightarrow> app_proc) \<Rightarrow> (payload \<Rightarrow> app_proc) \<Rightarrow> app_proc" where
  "try_json res c k =
     Await (Json res) (\<lambda>a. case a of
         AJson (Inl msg) \<Rightarrow> c msg
       | AJson (Inr p) \<Rightarrow> k p
       | _ \<Rightarrow> Done)"

text \<open>\<^verbatim>\<open>await res.text()\<close> inside a \<^verbatim>\<open>try\<close> block.\<close>

definition try_text :: "response \<Rightarrow> (string \<Rightarrow> app_proc) \<Rightarrow> (string \<Rightarrow> app_proc) \<Rightarrow> app_proc" where
  "try_text res c k =
     Await (Text res) (\<lambda>a. case a of
         AText (Inl msg) \<Rightarrow> c msg
       | AText (Inr t) \<Rightarrow> k t
       | _ \<Rightarrow> Done)"

text \<open>\<^verbatim>\<open>{ headers: getHeaders() }\<close>: a GET of a path.\<close>

definition get_request :: "string \<Rightarrow> browser \<Rightarrow> request" where
  "get_request url b =
     \<lparr>rq_url = url, rq_method = ''GET'', rq_headers = getHeaders b, rq_body = None\<rparr>"

definition delete_request :: "string \<Rightarrow> browser \<Rightarrow> request" where
  "delete_request url b =
     \<lparr>rq_url = url, rq_method = ''DELETE'', rq_headers = getHeaders b, rq_body = None\<rparr>"

definition post_request :: "string \<Rightarrow> (string \<times> jval) list \<Rightarrow> browser \<Rightarrow> request" where
  "post_request url flds b =
     \<lparr>rq_url = url, rq_method = ''POST'', rq_headers = getHeaders b, rq_body = Some flds\<rparr>"

text \<open>Assignments to the fields of \<^verbatim>\<open>STATE\<close>.\<close>

definition set_connections :: "connection list \<Rightarrow> browser \<Rightarrow> browser" where
  "set_connections xs b = b\<lparr>STATE := (STATE b)\<lparr>st_connections := xs\<rparr>\<rparr>"

definition set_endpoints :: "api_endpoint list \<Rightarrow> browser \<Rightarrow> browser" where
  "set_endpoints xs b = b\<lparr>STATE := (STATE b)\<lparr>st_endpoints := xs\<rparr>\<rparr>"

definition set_logs :: "audit_log list \<Rightarrow> browser \<Rightarrow> browser" where
  "set_logs xs b = b\<lparr>STATE := (STATE b)\<lparr>st_logs := xs\<rparr>\<rparr>"

definition set_tokens :: "client_token list \<Rightarrow> browser \<Rightarrow> browser" where
  "set_tokens xs b = b\<lparr>STATE := (STATE b)\<lparr>st_tokens := xs\<rparr>\<rparr>"

text \<open>The decoded body of a list route, after \<^verbatim>\<open>|| []\<close>.\<close>

definition as_conns :: "payload \<Rightarrow> connection list" where
  "as_conns p = (case p of JConns x \<Rightarrow> js_or_empty x | _ \<Rightarrow> [])"

definition as_endpoints :: "payload \<Rightarrow> api_endpoint list" where
  "as_endpoints p = (case p of JEndpoints x \<Rightarrow> js_or_empty x | _ \<Rightarrow> [])"

definition as_logs :: "payload \<Rightarrow> audit_log list" where
  "as_logs p = (case p of JLogs x \<Rightarrow> js_or_empty x | _ \<Rightarrow> [])"

definition as_tokens :: "payload \<Rightarrow> client_token list" where
  "as_tokens p = (case p of JTokens x \<Rightarrow> js_or_empty x | _ \<Rightarrow> [])"

definition as_keys :: "payload \<Rightarrow> string list" where
  "as_keys p = (case p of JKeys x \<Rightarrow> js_or_empty x | _ \<Rightarrow> [])"

text \<open>\<^verbatim>\<open>if (!STATE.token) return;\<close>\<close>

definition if_token :: "app_proc \<Rightarrow> app_proc" where
  "if_token p = Read (\<lambda>b. if st_token (STATE b) = [] then Done else p)"

text \<open>\<^verbatim>\<open>const el = document.getElementById(i); if (!el) return;\<close>\<close>

definition if_id :: "string \<Rightarrow> app_proc \<Rightarrow> app_proc" where
  "if_id i p = Read (\<lambda>b. if has_id b i then p else Done)"

section \<open>The server's side of a suspension point\<close>

text \<open>The fields the portal reads from a response that is not a success.\<close>

definition login_token :: "payload \<Rightarrow> string" where
  "login_token p = (case p of JLogin t u \<Rightarrow> t | _ \<Rightarrow> [])"

definition login_username :: "payload \<Rightarrow> string" where
  "login_username p = (case p of JLogin t u \<Rightarrow> u | _ \<Rightarrow> [])"

definition error_field :: "payload \<Rightarrow> string" where
  "error_field p = (case p of JError e \<Rightarrow> e | _ \<Rightarrow> [])"

text \<open>
  Which payload a successful response of a route carries: the gateway's handlers
  (\<^verbatim>\<open>pkg/portal/api.go\<close>) encode exactly these values.
\<close>

definition typed :: "string \<Rightarrow> payload \<Rightarrow> bool" where
  "typed url p =
     (if url = ''/api/connections'' then is_JConns p
      else if url = ''/api/endpoints'' then is_JEndpoints p
      else if url = ''/api/logs'' then is_JLogs p
      else if url = ''/api/tokens'' then is_JTokens p
      else if url = ''/api/vault'' then is_JKeys p
      else if url = ''/api/operational-stats'' then is_JOpStats p
      else if url = ''/api/settings'' then is_JSettings p
      else if url = ''/api/openapi.json'' then is_JSpec p
      else if url = ''/metrics'' then is_JText p
      else if url = ''/api/auth/login'' then is_JLogin p
      else True)"

fun answers :: "prompt \<Rightarrow> answer \<Rightarrow> bool" where
  "answers (Fetch rq) (AFetch (NetErr msg)) = True"
| "answers (Fetch rq) (AFetch (Resp res)) =
     (rq_method rq = ''GET'' \<and> res_ok res \<longrightarrow>
        (case body res of Inl _ \<Rightarrow> True | Inr p \<Rightarrow> typed (rq_url rq) p))"
| "answers (Json res) (AJson x) = (x = body res)"
| "answers (Text res) (AText (Inl msg)) = True"
| "answers (Text res) (AText (Inr t)) = (body res = Inr (JText t))"
| "answers (WriteClipboard t) (AClip ok) = True"
| "answers _ _ = False"

text \<open>A page of a logged-in user for the examples.\<close>

definition sample_page :: browser where
  "sample_page =
     \<lparr>STATE = \<lparr>st_token = ''t1'', st_username = ''admin'', st_connections = [], st_endpoints = [], st_logs = [],
                st_tokens = []\<rparr>,
      localStorage = [token_key \<mapsto> ''t1'', username_key \<mapsto> ''admin''],
      ids = [''tokens-table-body'', ''vault-table-body''],
      dom = (\<lambda>_. \<lparr>cls = [], content = [], val = [], checked = False, href = [], options = []\<rparr>),
      loc_hash = [], loc_host = ''localhost:8080'', loc_protocol = ''http:'', loc_href = [], now = 0, timers = [],
      reloading = False, hash_listeners = 1, hash_events = 0, sent = [], clipboard = [], downloads = [],
      html_light = False, locale_date = (\<lambda>s. s), client_width = (\<lambda>_. 600), docs = [], loaded = True\<rparr>"

section \<open>Lemmas\<close>

subsection \<open>Reads after writes\<close>

lemmas elem_ops [app_defs] =
  set_innerText_def set_innerHTML_def append_children_def class_add_def class_remove_def
  set_className_def set_href_def set_val_def set_checked_def

lemma dom_upd_elem [dom_simps, simp]:
  "dom (upd_elem i f b) j = (if j = i then f (dom b i) else dom b j)"
  by (simp add: upd_elem_def)

text \<open>Writing to the page changes nothing but the page.\<close>

lemma upd_elem_frame [simp]:
  "STATE (upd_elem i f b) = STATE b"
  "localStorage (upd_elem i f b) = localStorage b"
  "ids (upd_elem i f b) = ids b"
  "loc_hash (upd_elem i f b) = loc_hash b"
  "loc_host (upd_elem i f b) = loc_host b"
  "loc_protocol (upd_elem i f b) = loc_protocol b"
  "loc_href (upd_elem i f b) = loc_href b"
  "now (upd_elem i f b) = now b"
  "timers (upd_elem i f b) = timers b"
  "reloading (upd_elem i f b) = reloading b"
  "hash_listeners (upd_elem i f b) = hash_listeners b"
  "hash_events (upd_elem i f b) = hash_events b"
  "sent (upd_elem i f b) = sent b"
  "clipboard (upd_elem i f b) = clipboard b"
  "downloads (upd_elem i f b) = downloads b"
  "html_light (upd_elem i f b) = html_light b"
  "locale_date (upd_elem i f b) = locale_date b"
  "client_width (upd_elem i f b) = client_width b"
  "docs (upd_elem i f b) = docs b"
  "loaded (upd_elem i f b) = loaded b"
  by (simp_all add: upd_elem_def)

lemma showToast_frame [simp]:
  "STATE (showToast m t b) = STATE b"
  "localStorage (showToast m t b) = localStorage b"
  "ids (showToast m t b) = ids b"
  "loc_hash (showToast m t b) = loc_hash b"
  "reloading (showToast m t b) = reloading b"
  "hash_listeners (showToast m t b) = hash_listeners b"
  "hash_events (showToast m t b) = hash_events b"
  "sent (showToast m t b) = sent b"
  "now (showToast m t b) = now b"
  "timers (showToast m t b) = timers b @ [now b + 4000]"
  by (simp_all add: showToast_def elem_ops Let_def)

lemma showToast_dom [dom_simps, simp]:
  "dom (showToast m t b) j =
     (if j = ''toast''
      then (dom b j)\<lparr>content := [TextNode m], cls := remove_class ''hidden'' [''toast'', t]\<rparr>
      else dom b j)"
  by (simp add: showToast_def elem_ops Let_def)

lemma add_class_set [simp]: "set (add_class c cs) = insert c (set cs)"
  by (auto simp: add_class_def)

lemma remove_class_set [simp]: "set (remove_class c cs) = set cs - {c}"
  by (auto simp: remove_class_def)

lemma session_expired_frame [simp]:
  "STATE (session_expired b) = STATE b"
  "ids (session_expired b) = ids b"
  "dom (session_expired b) = dom b"
  "loc_hash (session_expired b) = loc_hash b"
  "reloading (session_expired b) = True"
  "hash_listeners (session_expired b) = hash_listeners b"
  "hash_events (session_expired b) = hash_events b"
  "sent (session_expired b) = sent b"
  "timers (session_expired b) = timers b"
  "now (session_expired b) = now b"
  by (simp_all add: session_expired_def)

lemma intercept_ok: "res_ok res \<Longrightarrow> intercept url k (AFetch (Resp res)) = k (Resp res)"
  by (simp add: intercept_def res_ok_def)

subsection \<open>Answers\<close>

fun_cases answers_FetchE: "answers (Fetch rq) a"
fun_cases answers_JsonE: "answers (Json res) a"
fun_cases answers_TextE: "answers (Text res) a"

lemmas answers_elims = answers_FetchE answers_JsonE answers_TextE

end
