(* ===== verification/Portal_Views.thy ===== *)
theory Portal_Views
  imports Portal_Uri Portal_Browser
begin

text \<open>
  The views of the portal: the functions of \<^verbatim>\<open>app.js\<close> that load data from the gateway and
  render it. For each view, the HTML of one row or card as the template literal builds it, and
  the asynchronous loader: the guard on the session token, the loading placeholder, the
  requests, the check of the response, the assignment to \<^verbatim>\<open>STATE\<close>, the rendering, and the
  \<^verbatim>\<open>catch\<close> branch.
\<close>

section \<open>Definitions\<close>

subsection \<open>Dashboard\<close>

definition health_row :: "conn_health \<Rightarrow> string" where
  "health_row h =
     (let isOK = js_startsWith (h_status h) ''OK'';
          isDisabled = (h_status h = ''DISABLED'');
          statusStyle =
            (if isOK then ''color: var(--success); font-weight: 500;''
             else if isDisabled then ''color: var(--text-muted);''
             else ''color: var(--danger); font-weight: 500;'');
          latencyText = (if isDisabled then ''N/A'' else int_to_string (h_latency_ms h) @ ''ms'')
      in nl 28 @ ''<td><strong>'' @ escapeHtml (h_name h) @ ''</strong></td>'' @
         nl 28 @ ''<td><code style='' @ dq ''font-size: 0.8rem;'' @ ''>'' @ escapeHtml (h_url h) @ ''</code></td>'' @
         nl 28 @ ''<td><span style='' @ dq statusStyle @ ''>'' @ escapeHtml (h_status h) @ ''</span></td>'' @
         nl 28 @ ''<td class='' @ dq ''text-secondary'' @ ''>'' @ latencyText @ ''</td>'' @ nl 24)"

definition no_health_html :: string where
  "no_health_html =
     ''<tr><td colspan='' @ dq ''4'' @ '' class='' @ dq ''text-muted text-center'' @
     ''>No active API connections.</td></tr>''"

definition show_counts :: "browser \<Rightarrow> browser" where
  "show_counts b =
     set_innerText ''stat-latency'' (average_latency_text (st_logs (STATE b)))
     (set_innerText ''stat-requests'' (nat_to_string (length (st_logs (STATE b))))
     (set_innerText ''stat-tools'' (nat_to_string (length (st_endpoints (STATE b))))
     (set_innerText ''stat-connections'' (nat_to_string (length (st_connections (STATE b)))) b)))"

definition render_health :: "conn_health list option \<Rightarrow> browser \<Rightarrow> browser" where
  "render_health hs b =
     (let b0 = set_innerHTML ''config-api-health-body'' [] b in
      case hs of
        None \<Rightarrow> set_innerHTML ''config-api-health-body'' no_health_html b0
      | Some xs \<Rightarrow>
          (if 0 < length xs
           then append_children ''config-api-health-body'' (map (\<lambda>h. ElemNode ''tr'' [] (health_row h)) xs) b0
           else set_innerHTML ''config-api-health-body'' no_health_html b0))"

definition show_op_stats :: "op_stats \<Rightarrow> browser \<Rightarrow> browser" where
  "show_op_stats opData b =
     (let b1 = (if has_id b ''config-active-sessions''
                then set_innerText ''config-active-sessions''
                       (int_to_string (connected_users opData) @ '' Connected'') b
                else b);
          b2 = (if has_id b ''config-active-queries''
                then set_innerText ''config-active-queries''
                       (int_to_string (active_queries opData) @ '' Running'') b1
                else b1)
      in if has_id b ''config-api-health-body'' then render_health (connections_health opData) b2 else b2)"

definition load_op_stats :: "response \<Rightarrow> app_proc" where
  "load_op_stats opRes =
     (if res_ok opRes
      then try_json opRes (\<lambda>msg. Done)
             (\<lambda>p. case p of JOpStats opData \<Rightarrow> Do (show_op_stats opData) Done | _ \<Rightarrow> Done)
      else Done)"

definition loadDashboardStats :: app_proc where
  "loadDashboardStats = if_token (
     try_fetch (get_request ''/api/connections'') (\<lambda>msg. Done) (\<lambda>connsRes.
     try_fetch (get_request ''/api/endpoints'') (\<lambda>msg. Done) (\<lambda>epsRes.
     try_fetch (get_request ''/api/logs'') (\<lambda>msg. Done) (\<lambda>logsRes.
     try_fetch (get_request ''/api/operational-stats'') (\<lambda>msg. Done) (\<lambda>opRes.
       if res_ok connsRes \<and> res_ok epsRes \<and> res_ok logsRes then
         try_json connsRes (\<lambda>msg. Done) (\<lambda>p. Do (set_connections (as_conns p)) (
         try_json epsRes (\<lambda>msg. Done) (\<lambda>p. Do (set_endpoints (as_endpoints p)) (
         try_json logsRes (\<lambda>msg. Done) (\<lambda>p. Do (set_logs (as_logs p)) (
         Do show_counts (load_op_stats opRes)))))))
       else load_op_stats opRes)))))"

subsection \<open>Connections\<close>

definition conn_card :: "api_endpoint list \<Rightarrow> connection \<Rightarrow> string" where
  "conn_card eps conn =
     (let toolCount = length (filter (\<lambda>e. ep_connection_id e = conn_id conn) eps)
      in nl 16 @ ''<div>'' @
         nl 20 @ ''<div class='' @ dq ''conn-card-header'' @ ''>'' @
         nl 24 @ ''<h3>'' @ escapeHtml (conn_name conn) @ ''</h3>'' @
         nl 24 @ ''<span class='' @ dq (''badge-status '' @ (if conn_enabled conn then ''active'' else ''disabled'')) @ ''>'' @
         nl 28 @ (if conn_enabled conn then ''Enabled'' else ''Disabled'') @
         nl 24 @ ''</span>'' @
         nl 20 @ ''</div>'' @
         nl 20 @ ''<p>'' @ escapeHtml (js_or (conn_description conn) ''No description provided'') @ ''</p>'' @
         nl 20 @ ''<div class='' @ dq ''mt-4'' @ ''>'' @
         nl 24 @ ''<span class='' @ dq ''conn-url-badge'' @ ''>'' @ escapeHtml (conn_base_url conn) @ ''</span>'' @
         nl 20 @ ''</div>'' @
         nl 16 @ ''</div>'' @
         nl 16 @ ''<div>'' @
         nl 20 @ ''<div class='' @ dq ''flex-justify mt-4'' @ ''>'' @
         nl 24 @ ''<span class='' @ dq ''badge'' @ ''>'' @ nat_to_string toolCount @ '' MCP Tools</span>'' @
         nl 24 @ ''<div class='' @ dq ''conn-actions'' @ ''>'' @
         nl 28 @ ''<button class='' @ dq ''btn-secondary btn-edit-conn'' @ '' data-id='' @ dq (conn_id conn) @ ''>Edit</button>'' @
         nl 28 @ ''<button class='' @ dq ''btn-danger btn-delete-conn'' @ '' data-id='' @ dq (conn_id conn) @ ''>Delete</button>'' @
         nl 24 @ ''</div>'' @
         nl 20 @ ''</div>'' @
         nl 16 @ ''</div>'' @ nl 12)"

definition no_connections_html :: string where
  "no_connections_html =
     nl 16 @ ''<div class='' @ dq ''card glass text-center'' @ '' style='' @ dq ''grid-column: 1 / -1;'' @ ''>'' @
     nl 20 @ ''<h3>No API connections configured</h3>'' @
     nl 20 @ ''<p class='' @ dq ''text-muted mt-2'' @
             ''>Connect your internal databases or web services to get started.</p>'' @
     nl 16 @ ''</div>'' @ nl 12"

definition render_connections :: "browser \<Rightarrow> browser" where
  "render_connections b =
     (let b0 = set_innerHTML ''connections-grid'' [] b; conns = st_connections (STATE b) in
      if length conns = 0 then set_innerHTML ''connections-grid'' no_connections_html b0
      else append_children ''connections-grid''
             (map (\<lambda>conn. ElemNode ''div'' ''conn-card glass'' (conn_card (st_endpoints (STATE b)) conn)) conns) b0)"

definition connections_loading_html :: string where
  "connections_loading_html =
     ''<p class='' @ dq ''text-muted'' @ ''>Loading configured API connections...</p>''"

definition connections_error_html :: "string \<Rightarrow> string" where
  "connections_error_html msg =
     ''<p class='' @ dq ''text-danger'' @ ''>Error loading API connections: '' @ msg @ ''</p>''"

definition connections_error :: "string \<Rightarrow> app_proc" where
  "connections_error msg = Do (set_innerHTML ''connections-grid'' (connections_error_html msg)) Done"

definition loadConnections :: app_proc where
  "loadConnections = if_token (
     Do (set_innerHTML ''connections-grid'' connections_loading_html) (
     try_fetch (get_request ''/api/connections'') connections_error (\<lambda>res.
       if \<not> res_ok res then connections_error ''Failed to fetch''
       else try_json res connections_error (\<lambda>p.
              Do (set_connections (as_conns p)) (Do render_connections Done)))))"

subsection \<open>Endpoints\<close>

definition find_connection :: "connection list \<Rightarrow> string \<Rightarrow> connection option" where
  "find_connection conns i = find (\<lambda>c. conn_id c = i) conns"

definition conn_prefix :: "connection list \<Rightarrow> api_endpoint \<Rightarrow> string" where
  "conn_prefix conns ep =
     (case find_connection conns (ep_connection_id ep) of
        Some conn \<Rightarrow> conn_tool_prefix conn | None \<Rightarrow> [])"

definition endpoint_row :: "connection list \<Rightarrow> api_endpoint \<Rightarrow> string" where
  "endpoint_row conns ep =
     (let connName = (case find_connection conns (ep_connection_id ep) of
                        Some conn \<Rightarrow> conn_name conn | None \<Rightarrow> ''Unknown API'');
          prefix = conn_prefix conns ep;
          resolvedToolName = (if prefix \<noteq> [] then prefix @ ep_tool_name ep else ep_tool_name ep)
      in nl 16 @ ''<td>'' @
         nl 20 @ ''<strong>'' @ escapeHtml resolvedToolName @ ''</strong>'' @
         nl 20 @ (if prefix \<noteq> []
                  then ''<br><small class='' @ dq ''text-muted'' @ '' style='' @ dq ''font-size:0.75rem;'' @
                       ''>(raw: '' @ escapeHtml (ep_tool_name ep) @ '')</small>''
                  else []) @
         nl 16 @ ''</td>'' @
         nl 16 @ ''<td>'' @ escapeHtml connName @ ''</td>'' @
         nl 16 @ ''<td><code>'' @ escapeHtml (ep_path ep) @ ''</code></td>'' @
         nl 16 @ ''<td><span class='' @ dq ''badge'' @ ''>'' @ escapeHtml (ep_method ep) @ ''</span></td>'' @
         nl 16 @ ''<td><span class='' @ dq ''text-secondary'' @ ''>'' @ escapeHtml (ep_tool_description ep) @ ''</span></td>'' @
         nl 16 @ ''<td>'' @
         nl 20 @ ''<div style='' @ dq ''display: flex; gap: 0.5rem;'' @ ''>'' @
         nl 24 @ ''<button class='' @ dq ''btn-secondary btn-edit-ep'' @ '' data-id='' @ dq (ep_id ep) @ ''>Edit</button>'' @
         nl 24 @ ''<button class='' @ dq ''btn-danger btn-delete-ep'' @ '' data-id='' @ dq (ep_id ep) @ ''>Delete</button>'' @
         nl 20 @ ''</div>'' @
         nl 16 @ ''</td>'' @ nl 12)"

definition no_endpoints_html :: string where
  "no_endpoints_html =
     ''<tr><td colspan='' @ dq ''6'' @ '' class='' @ dq ''text-center text-muted'' @
     ''>No MCP tools defined. Add a tool to link a route to LLM queries.</td></tr>''"

text \<open>
  The namespace audit: a \<^verbatim>\<open>Map\<close>, which iterates in insertion order, from resolved tool names
  to the names of the connections that define them.
\<close>

fun map_push :: "(string \<times> 'a list) list \<Rightarrow> string \<Rightarrow> 'a \<Rightarrow> (string \<times> 'a list) list" where
  "map_push [] k v = [(k, [v])]"
| "map_push ((k', vs) # m) k v = (if k' = k then (k', vs @ [v]) # m else (k', vs) # map_push m k v)"

definition full_name :: "connection list \<Rightarrow> api_endpoint \<Rightarrow> string" where
  "full_name conns ep = conn_prefix conns ep @ ep_tool_name ep"

definition source_name :: "connection list \<Rightarrow> api_endpoint \<Rightarrow> string" where
  "source_name conns ep =
     (case find_connection conns (ep_connection_id ep) of
        Some conn \<Rightarrow> conn_name conn | None \<Rightarrow> ''Unknown'')"

definition resolved_names :: "connection list \<Rightarrow> api_endpoint list \<Rightarrow> (string \<times> string list) list" where
  "resolved_names conns eps =
     foldl (\<lambda>m ep. map_push m (full_name conns ep) (source_name conns ep)) [] eps"

definition clashing :: "connection list \<Rightarrow> api_endpoint list \<Rightarrow> string list" where
  "clashing conns eps =
     map (\<lambda>(key, sources). dq key @ '' (APIs: '' @ js_join '', '' sources @ '')'')
       (filter (\<lambda>(key, sources). 1 < length sources) (resolved_names conns eps))"

definition audit_namespaces :: "browser \<Rightarrow> browser" where
  "audit_namespaces b =
     (let cl = clashing (st_connections (STATE b)) (st_endpoints (STATE b)) in
      if 0 < length cl
      then showToast (''Namespace Conflict Detected: '' @ js_join ''; '' cl @
                      ''. Set unique tool prefix names in connections configs.'') ''error'' b
      else b)"

definition render_endpoints :: "browser \<Rightarrow> browser" where
  "render_endpoints b =
     (let b0 = set_innerHTML ''endpoints-table-body'' [] b; eps = st_endpoints (STATE b) in
      if length eps = 0 then set_innerHTML ''endpoints-table-body'' no_endpoints_html b0
      else audit_namespaces
             (append_children ''endpoints-table-body''
                (map (\<lambda>ep. ElemNode ''tr'' [] (endpoint_row (st_connections (STATE b)) ep)) eps) b0))"

definition endpoints_loading_html :: string where
  "endpoints_loading_html =
     ''<tr><td colspan='' @ dq ''6'' @ '' class='' @ dq ''text-muted'' @
     ''>Loading endpoints mapping...</td></tr>''"

definition endpoints_error_html :: "string \<Rightarrow> string" where
  "endpoints_error_html msg =
     ''<tr><td colspan='' @ dq ''6'' @ '' class='' @ dq ''text-danger'' @
     ''>Error loading endpoints: '' @ msg @ ''</td></tr>''"

definition endpoints_error :: "string \<Rightarrow> app_proc" where
  "endpoints_error msg = Do (set_innerHTML ''endpoints-table-body'' (endpoints_error_html msg)) Done"

definition load_endpoint_rows :: app_proc where
  "load_endpoint_rows =
     try_fetch (get_request ''/api/endpoints'') endpoints_error (\<lambda>res.
       if \<not> res_ok res then endpoints_error ''Failed to fetch''
       else try_json res endpoints_error (\<lambda>p.
              Do (set_endpoints (as_endpoints p)) (Do render_endpoints Done)))"

definition loadEndpoints :: app_proc where
  "loadEndpoints = if_token (
     Do (set_innerHTML ''endpoints-table-body'' endpoints_loading_html) (
     Read (\<lambda>b.
       if length (st_connections (STATE b)) = 0 then
         try_fetch (get_request ''/api/connections'') (\<lambda>msg. load_endpoint_rows) (\<lambda>connRes.
           if res_ok connRes then
             try_json connRes (\<lambda>msg. load_endpoint_rows) (\<lambda>p.
               Do (set_connections (as_conns p)) load_endpoint_rows)
           else load_endpoint_rows)
       else load_endpoint_rows)))"

subsection \<open>Audit log\<close>

definition log_row :: "(string \<Rightarrow> string) \<Rightarrow> audit_log \<Rightarrow> string" where
  "log_row toLocaleString entry =
     (let date = toLocaleString (log_timestamp entry);
          statusClass = (if log_status entry = ''success'' then ''badge-status active'' else ''badge-status disabled'');
          errorSnippet =
            (if log_error_message entry \<noteq> []
             then ''<code class='' @ dq ''text-danger'' @ ''>'' @ escapeHtml (log_error_message entry) @ ''</code>''
             else ''<span class='' @ dq ''text-muted'' @ ''>-</span>'')
      in nl 16 @ ''<td>'' @ date @ ''</td>'' @
         nl 16 @ ''<td><code>'' @ escapeHtml (log_client_identity entry) @ ''</code></td>'' @
         nl 16 @ ''<td><strong>'' @ escapeHtml (log_tool_name entry) @ ''</strong></td>'' @
         nl 16 @ ''<td><span class='' @ dq statusClass @ ''>'' @ log_status entry @ ''</span></td>'' @
         nl 16 @ ''<td><code>'' @ int_to_string (log_duration_ms entry) @ ''ms</code></td>'' @
         nl 16 @ ''<td>'' @ errorSnippet @ ''</td>'' @ nl 12)"

definition no_logs_html :: string where
  "no_logs_html =
     ''<tr><td colspan='' @ dq ''6'' @ '' class='' @ dq ''text-center text-muted'' @
     ''>Audit log is empty. Generate queries from your AI clients to log events.</td></tr>''"

definition render_logs :: "browser \<Rightarrow> browser" where
  "render_logs b =
     (let b0 = set_innerHTML ''logs-table-body'' [] b; logs = st_logs (STATE b) in
      if length logs = 0 then set_innerHTML ''logs-table-body'' no_logs_html b0
      else append_children ''logs-table-body''
             (map (\<lambda>entry. ElemNode ''tr'' [] (log_row (locale_date b) entry)) logs) b0)"

definition logs_loading_html :: string where
  "logs_loading_html =
     ''<tr><td colspan='' @ dq ''6'' @ '' class='' @ dq ''text-muted'' @
     ''>Loading audit entries...</td></tr>''"

definition logs_error_html :: "string \<Rightarrow> string" where
  "logs_error_html msg =
     ''<tr><td colspan='' @ dq ''6'' @ '' class='' @ dq ''text-danger'' @
     ''>Error fetching logs: '' @ msg @ ''</td></tr>''"

definition logs_error :: "string \<Rightarrow> app_proc" where
  "logs_error msg = Do (set_innerHTML ''logs-table-body'' (logs_error_html msg)) Done"

definition loadAuditLogs :: app_proc where
  "loadAuditLogs = if_token (
     Do (set_innerHTML ''logs-table-body'' logs_loading_html) (
     try_fetch (get_request ''/api/logs'') logs_error (\<lambda>res.
       if \<not> res_ok res then logs_error ''Failed to fetch''
       else try_json res logs_error (\<lambda>p.
              Do (set_logs (as_logs p)) (Do render_logs Done)))))"

subsection \<open>Vault\<close>

definition secret_row :: "string \<Rightarrow> string" where
  "secret_row key =
     nl 16 @ ''<td><code>'' @ escapeHtml key @ ''</code></td>'' @
     nl 16 @ ''<td>'' @
     nl 20 @ ''<button class='' @ dq ''btn-danger btn-delete-secret'' @ '' data-key='' @ dq (escapeHtml key) @ ''>Delete</button>'' @
     nl 16 @ ''</td>'' @ nl 12"

definition no_secrets_html :: string where
  "no_secrets_html =
     ''<tr><td colspan='' @ dq ''2'' @ '' class='' @ dq ''text-center text-muted'' @
     ''>No secrets registered. Put credentials into the vault form to populate.</td></tr>''"

definition render_secrets :: "string list \<Rightarrow> browser \<Rightarrow> browser" where
  "render_secrets keys b =
     (let b0 = set_innerHTML ''vault-table-body'' [] b in
      if length keys = 0 then set_innerHTML ''vault-table-body'' no_secrets_html b0
      else append_children ''vault-table-body'' (map (\<lambda>key. ElemNode ''tr'' [] (secret_row key)) keys) b0)"

definition vault_loading_html :: string where
  "vault_loading_html =
     ''<tr><td colspan='' @ dq ''2'' @ '' class='' @ dq ''text-muted'' @
     ''>Loading vault secrets...</td></tr>''"

definition vault_error_html :: "string \<Rightarrow> string" where
  "vault_error_html msg =
     ''<tr><td colspan='' @ dq ''2'' @ '' class='' @ dq ''text-danger'' @
     ''>Error loading vault: '' @ msg @ ''</td></tr>''"

definition vault_error :: "string \<Rightarrow> app_proc" where
  "vault_error msg = Do (set_innerHTML ''vault-table-body'' (vault_error_html msg)) Done"

definition loadVaultSecrets :: app_proc where
  "loadVaultSecrets = if_token (if_id ''vault-table-body'' (
     Do (set_innerHTML ''vault-table-body'' vault_loading_html) (
     try_fetch (get_request ''/api/vault'') vault_error (\<lambda>res.
       if \<not> res_ok res then vault_error ''Failed to fetch vault keys''
       else try_json res vault_error (\<lambda>p. Do (render_secrets (as_keys p)) Done)))))"

subsection \<open>Settings\<close>

definition show_settings :: "settings \<Rightarrow> browser \<Rightarrow> browser" where
  "show_settings data b =
     set_innerHTML ''settings-mtls-status'' (renderMtlsStatusBadge data)
     (set_innerHTML ''settings-tls-status'' (renderTlsStatusBadge data)
     (set_innerHTML ''settings-oidc-status'' (oidc_status_html data)
     (set_innerText ''settings-vault-local-path'' (js_or (vault_local_path data) ''-'')
     (set_innerText ''settings-vault-provider'' (js_or (vault_provider data) ''local'')
     (set_innerText ''settings-db-path'' (js_or (database_path data) ''-'')
     (set_innerText ''settings-port'' (js_or (port data) ''8080'') b))))))"

definition settings_error :: "string \<Rightarrow> app_proc" where
  "settings_error msg = Do (showToast ''Failed to retrieve server configurations'' ''error'') Done"

definition loadSettingsConfig :: app_proc where
  "loadSettingsConfig = if_token (
     try_fetch (get_request ''/api/settings'') settings_error (\<lambda>res.
       if \<not> res_ok res then settings_error ''Failed to load settings configuration''
       else try_json res settings_error (\<lambda>p.
              case p of JSettings data \<Rightarrow> Do (show_settings data) Done | _ \<Rightarrow> Done)))"

definition openapi_error :: "string \<Rightarrow> app_proc" where
  "openapi_error msg = Do (set_innerText ''openapi-code-block'' (''Error: '' @ msg)) Done"

definition link_swagger :: "browser \<Rightarrow> browser" where
  "link_swagger b =
     (if has_id b ''btn-interactive-swagger''
      then set_href ''btn-interactive-swagger''
             (''/swagger.html?token='' @ encodeURIComponent (st_token (STATE b))) b
      else b)"

definition loadOpenAPIDocs :: app_proc where
  "loadOpenAPIDocs = if_token (if_id ''openapi-code-block'' (
     Do (set_innerText ''openapi-code-block'' ''Resolving active routes documentation...'') (
     Do link_swagger (
     try_fetch (get_request ''/api/openapi.json'') openapi_error (\<lambda>res.
       if \<not> res_ok res then openapi_error ''Failed to retrieve openapi specs''
       else try_json res openapi_error (\<lambda>p.
              case p of JSpec spec \<Rightarrow> Do (set_innerText ''openapi-code-block'' spec) Done | _ \<Rightarrow> Done))))))"

subsection \<open>Client tokens\<close>

text \<open>The inline handler of the delete button.\<close>

definition token_onclick :: "string \<Rightarrow> string" where
  "token_onclick token = ''deleteClientToken('' @ [CHR 0x27] @ escapeHtml token @ [CHR 0x27] @ '')''"

definition token_row :: "client_token \<Rightarrow> string" where
  "token_row t =
     nl 16 @ ''<td><strong>'' @ escapeHtml (tok_client_name t) @ ''</strong></td>'' @
     nl 16 @ ''<td><code style='' @ dq ''background: hsla(0,0%,100%,0.08); padding: 0.2rem 0.4rem; border-radius: 4px;'' @
             ''>'' @ escapeHtml (tok_token t) @ ''</code></td>'' @
     nl 16 @ ''<td><span class='' @ dq (''badge '' @ (if tok_client_role t = ''admin'' then [] else ''badge-disabled'')) @
             ''>'' @ escapeHtml (tok_client_role t) @ ''</span></td>'' @
     nl 16 @ ''<td><code>'' @ escapeHtml (js_or (tok_scopes t) ''*'') @ ''</code></td>'' @
     nl 16 @ ''<td>'' @
     nl 20 @ ''<span class='' @ dq (''badge-status '' @ (if tok_enabled t then ''active'' else ''disabled'')) @ ''>'' @
     nl 24 @ (if tok_enabled t then ''Active'' else ''Disabled'') @
     nl 20 @ ''</span>'' @
     nl 16 @ ''</td>'' @
     nl 16 @ ''<td>'' @
     nl 20 @ ''<button class='' @ dq ''btn-icon text-danger'' @ '' onclick='' @
             dq (token_onclick (tok_token t)) @ ''>Delete</button>'' @
     nl 16 @ ''</td>'' @ nl 12"

definition no_tokens_html :: string where
  "no_tokens_html =
     ''<tr><td colspan='' @ dq ''6'' @ '' class='' @ dq ''text-center text-muted'' @
     ''>No client tokens registered yet.</td></tr>''"

definition render_tokens :: "browser \<Rightarrow> browser" where
  "render_tokens b =
     (let b0 = set_innerHTML ''tokens-table-body'' [] b; ts = st_tokens (STATE b) in
      if length ts = 0 then set_innerHTML ''tokens-table-body'' no_tokens_html b0
      else append_children ''tokens-table-body'' (map (\<lambda>t. ElemNode ''tr'' [] (token_row t)) ts) b0)"

definition tokens_loading_html :: string where
  "tokens_loading_html =
     ''<tr><td colspan='' @ dq ''6'' @ '' class='' @ dq ''text-center text-muted'' @
     ''>Loading client tokens...</td></tr>''"

definition tokens_error_html :: "string \<Rightarrow> string" where
  "tokens_error_html msg =
     ''<tr><td colspan='' @ dq ''6'' @ '' class='' @ dq ''text-center text-danger'' @
     ''>Error: '' @ escapeHtml msg @ ''</td></tr>''"

definition tokens_error :: "string \<Rightarrow> app_proc" where
  "tokens_error msg = Do (set_innerHTML ''tokens-table-body'' (tokens_error_html msg)) Done"

definition loadClientTokens :: app_proc where
  "loadClientTokens = if_token (if_id ''tokens-table-body'' (
     Do (set_innerHTML ''tokens-table-body'' tokens_loading_html) (
     try_fetch (get_request ''/api/tokens'') tokens_error (\<lambda>res.
       if \<not> res_ok res then tokens_error ''Failed to fetch tokens''
       else try_json res tokens_error (\<lambda>p.
              Do (set_tokens (as_tokens p)) (Do render_tokens Done))))))"

subsection \<open>Telemetry\<close>

definition no_chart_html :: string where
  "no_chart_html =
     ''<p class='' @ dq ''text-center text-muted'' @ '' style='' @ dq ''line-height:220px;'' @
     ''>No execution data available</p>''"

definition draw_latency_chart :: "audit_log list \<Rightarrow> browser \<Rightarrow> browser" where
  "draw_latency_chart logs b =
     (let i = ''latency-chart-wrapper'' in
      if \<not> has_id b i then b
      else case renderLatencyChart (client_width b i) logs of
             None \<Rightarrow> set_innerHTML i no_chart_html b
           | Some ch \<Rightarrow> upd_elem i (\<lambda>e. e\<lparr>content := [LatencyNode ch]\<rparr>) b)"

definition draw_frequency_chart :: "audit_log list \<Rightarrow> browser \<Rightarrow> browser" where
  "draw_frequency_chart logs b =
     (let i = ''frequency-chart-wrapper'' in
      if \<not> has_id b i then b
      else case renderFrequencyChart (client_width b i) logs of
             None \<Rightarrow> upd_elem i (\<lambda>e. e\<lparr>content := [FrequencyNode None]\<rparr>) b
           | Some None \<Rightarrow> set_innerHTML i no_chart_html b
           | Some (Some ch) \<Rightarrow> upd_elem i (\<lambda>e. e\<lparr>content := [FrequencyNode (Some ch)]\<rparr>) b)"

definition show_metrics :: "string \<Rightarrow> browser \<Rightarrow> browser" where
  "show_metrics metricsText b =
     set_innerText ''telemetry-scraped-count'' (nat_to_string (count_metrics metricsText))
       (if has_id b ''telemetry-raw-prom'' then set_innerText ''telemetry-raw-prom'' metricsText b else b)"

definition show_telemetry :: "audit_log list \<Rightarrow> browser \<Rightarrow> browser" where
  "show_telemetry logs b =
     draw_frequency_chart logs
     (draw_latency_chart logs
     (set_innerText ''telemetry-p95-latency'' (p95_text logs)
     (set_innerText ''telemetry-success-rate'' (success_rate_text logs) b)))"

definition telemetry_error :: "string \<Rightarrow> app_proc" where
  "telemetry_error msg = Do (showToast ''Error loading telemetry dashboard data'' ''error'') Done"

definition load_log_charts :: app_proc where
  "load_log_charts =
     try_fetch (get_request ''/api/logs'') telemetry_error (\<lambda>logsRes.
       if res_ok logsRes
       then try_json logsRes telemetry_error (\<lambda>p. Do (show_telemetry (as_logs p)) Done)
       else Done)"

definition loadTelemetry :: app_proc where
  "loadTelemetry = if_token (
     try_fetch (get_request ''/metrics'') telemetry_error (\<lambda>metricsRes.
       if res_ok metricsRes
       then try_text metricsRes telemetry_error (\<lambda>metricsText.
              Do (show_metrics metricsText) load_log_charts)
       else load_log_charts))"

section \<open>Reference notions\<close>

text \<open>The list a key is mapped to, empty if there is none.\<close>

definition pushed :: "(string \<times> 'a list) list \<Rightarrow> string \<Rightarrow> 'a list" where
  "pushed m k = (case map_of m k of None \<Rightarrow> [] | Some vs \<Rightarrow> vs)"

text \<open>The endpoints that resolve to one tool name.\<close>

definition homonyms :: "connection list \<Rightarrow> api_endpoint list \<Rightarrow> string \<Rightarrow> api_endpoint list" where
  "homonyms conns eps k = filter (\<lambda>ep. full_name conns ep = k) eps"

text \<open>The text that reports a clash: the name and the connections it comes from, in order.\<close>

definition clash_text :: "connection list \<Rightarrow> api_endpoint list \<Rightarrow> string \<Rightarrow> string" where
  "clash_text conns eps k = dq k @ '' (APIs: '' @ js_join '', '' (map (source_name conns) (homonyms conns eps k)) @ '')''"

text \<open>The guard of every loader.\<close>

definition has_session :: "browser \<Rightarrow> bool" where
  "has_session b = (st_token (STATE b) \<noteq> [])"

text \<open>What the connections view shows for a list.\<close>

definition conn_nodes :: "api_endpoint list \<Rightarrow> connection list \<Rightarrow> node list" where
  "conn_nodes eps conns =
     (if conns = [] then [HtmlNode no_connections_html]
      else map (\<lambda>c. ElemNode ''div'' ''conn-card glass'' (conn_card eps c)) conns)"

text \<open>What the audit log view shows for a list.\<close>

definition log_nodes :: "(string \<Rightarrow> string) \<Rightarrow> audit_log list \<Rightarrow> node list" where
  "log_nodes loc logs =
     (if logs = [] then [HtmlNode no_logs_html] else map (\<lambda>e. ElemNode ''tr'' [] (log_row loc e)) logs)"

text \<open>What the client tokens view shows for a list.\<close>

definition token_nodes :: "client_token list \<Rightarrow> node list" where
  "token_nodes ts =
     (if ts = [] then [HtmlNode no_tokens_html] else map (\<lambda>t. ElemNode ''tr'' [] (token_row t)) ts)"

text \<open>What the vault view shows for a list.\<close>

definition secret_nodes :: "string list \<Rightarrow> node list" where
  "secret_nodes keys =
     (if keys = [] then [HtmlNode no_secrets_html] else map (\<lambda>k. ElemNode ''tr'' [] (secret_row k)) keys)"

text \<open>What the tools view shows for a list.\<close>

definition endpoint_nodes :: "connection list \<Rightarrow> api_endpoint list \<Rightarrow> node list" where
  "endpoint_nodes conns eps =
     (if eps = [] then [HtmlNode no_endpoints_html] else map (\<lambda>e. ElemNode ''tr'' [] (endpoint_row conns e)) eps)"

text \<open>The argument that the inline handler of a token's delete button passes on.\<close>

definition onclick_arg :: "string \<Rightarrow> string option" where
  "onclick_arg source = (case strip_prefix (''deleteClientToken('' @ [CHR 0x27]) source of
      Some rest \<Rightarrow> js_quoted_arg rest | None \<Rightarrow> None)"

text \<open>Values for the examples.\<close>

definition sample_connection :: connection where
  "sample_connection =
     \<lparr>conn_id = ''c1'', conn_name = ''Orders <API>'', conn_description = [], conn_base_url = ''https://orders.local'',
      conn_auth_type = ''bearer'', conn_auth_secret_ref = ''orders_key'', conn_enabled = True,
      conn_tool_prefix = ''orders_''\<rparr>"

definition sample_endpoint :: api_endpoint where
  "sample_endpoint =
     \<lparr>ep_id = ''e1'', ep_connection_id = ''c1'', ep_tool_name = ''list'', ep_tool_description = ''<b>List</b>'',
      ep_path = ''/orders'', ep_method = ''GET'', ep_parameters_schema = ''{}'', ep_template = []\<rparr>"

definition sample_response :: "payload \<Rightarrow> response" where
  "sample_response p = \<lparr>status = 200, body = Inr p\<rparr>"

section \<open>Lemmas\<close>

subsection \<open>The contract of a list view\<close>

text \<open>
  The contract of a view that shows a list: a placeholder while the request is under way, the rows
  of a successful response, and the error text otherwise.
\<close>

locale list_view =
  fixes ready :: "browser \<Rightarrow> bool"
    and loader :: app_proc
    and url tid loading refused :: string
    and error_html :: "string \<Rightarrow> string"
    and finish :: "payload \<Rightarrow> app_proc"
    and display :: "payload \<Rightarrow> browser \<Rightarrow> browser"
    and nodes :: "payload \<Rightarrow> browser \<Rightarrow> node list"
  assumes run_loader:
    "ready b \<Longrightarrow> run loader b =
       run (Do (set_innerHTML tid loading)
             (try_fetch (get_request url) (\<lambda>msg. Do (set_innerHTML tid (error_html msg)) Done) (\<lambda>res.
                if \<not> res_ok res then Do (set_innerHTML tid (error_html refused)) Done
                else try_json res (\<lambda>msg. Do (set_innerHTML tid (error_html msg)) Done) finish))) b"
    and run_finish: "run (finish p) b = (display p b, [])"
    and display_nodes: "content (dom (display p b) tid) = nodes p b"
    and error_html: "error_html msg \<noteq> []"
    and not_login: "\<not> js_includes url ''/api/auth/login''"
begin

lemma request_sent:
  "ready b \<Longrightarrow> sent (fst (run loader b)) = sent b @ [get_request url b]"
  by (simp add: run_loader try_fetch_def fetch_def Let_def set_innerHTML_def get_request_def getHeaders_def)

lemma drive_shown:
  assumes "ready b" "res_ok res" "body res = Inr p"
  shows "drive loader b [(g, AFetch (Resp res)), (h, AJson (body res))] =
     display p (h (g (fst (run loader b))))"
  using assms by (simp add: run_loader try_fetch_def fetch_def intercept_def try_json_def Let_def res_ok_def run_finish)

lemma drive_shown_nodes:
  assumes "ready b" "res_ok res" "body res = Inr p"
  shows "content (dom (drive loader b [(g, AFetch (Resp res)), (h, AJson (body res))]) tid) =
     nodes p (h (g (fst (run loader b))))"
  unfolding drive_shown [OF assms] by (rule display_nodes)

lemma drive_network_error:
  "ready b \<Longrightarrow> content (dom (drive loader b [(g, AFetch (NetErr msg))]) tid) = [HtmlNode (error_html msg)]"
  by (simp add: run_loader try_fetch_def fetch_def intercept_def Let_def set_innerHTML_def error_html)

lemma drive_bad_json:
  "ready b \<Longrightarrow> res_ok res \<Longrightarrow>
   content (dom (drive loader b [(g, AFetch (Resp res)), (h, AJson (Inl msg))]) tid) = [HtmlNode (error_html msg)]"
  by (simp add: run_loader try_fetch_def fetch_def intercept_def try_json_def Let_def set_innerHTML_def error_html
      res_ok_def)

lemma drive_refused:
  assumes "ready b" "\<not> res_ok res"
  shows "content (dom (drive loader b [(g, AFetch (Resp res))]) tid) = [HtmlNode (error_html refused)]"
    "status res = 401 \<Longrightarrow> reloading (drive loader b [(g, AFetch (Resp res))]) \<and>
       stored (drive loader b [(g, AFetch (Resp res))]) token_key = []"
  using assms not_login
  by (auto simp: run_loader try_fetch_def fetch_def intercept_def Let_def set_innerHTML_def error_html
      session_expired_def stored_def token_key_def username_key_def get_request_def)

end

lemma if_token_run: "has_session b \<Longrightarrow> run (if_token p) b = run p b"
  by (simp add: if_token_def has_session_def)

lemma if_token_id_run: "has_session b \<and> has_id b i \<Longrightarrow> run (if_token (if_id i p)) b = run p b"
  by (simp add: if_token_def if_id_def has_session_def)

lemma content_innerHTML: "content (dom (set_innerHTML i h b) i) = (if h = [] then [] else [HtmlNode h])"
  by (simp add: set_innerHTML_def)

lemma content_append: "content (dom (append_children i ns b) i) = content (dom b i) @ ns"
  by (simp add: append_children_def)

lemmas shown_content = content_innerHTML content_append Let_def

interpretation conns: list_view has_session loadConnections "''/api/connections''" "''connections-grid''"
  connections_loading_html "''Failed to fetch''" connections_error_html
  "\<lambda>p. Do (set_connections (as_conns p)) (Do render_connections Done)"
  "\<lambda>p b. render_connections (set_connections (as_conns p) b)"
  "\<lambda>p b. conn_nodes (st_endpoints (STATE b)) (as_conns p)"
proof (unfold_locales, goal_cases)
  case (1 b)
  then show ?case
    unfolding loadConnections_def connections_error_def [abs_def] by (rule if_token_run)
next
  case (3 p b)
  then show ?case
    by (simp add: render_connections_def conn_nodes_def shown_content set_connections_def no_connections_html_def nl_def)
qed (simp_all add: connections_error_html_def js_startsWith_def)

interpretation logs: list_view has_session loadAuditLogs "''/api/logs''" "''logs-table-body''"
  logs_loading_html "''Failed to fetch''" logs_error_html
  "\<lambda>p. Do (set_logs (as_logs p)) (Do render_logs Done)"
  "\<lambda>p b. render_logs (set_logs (as_logs p) b)" "\<lambda>p b. log_nodes (locale_date b) (as_logs p)"
proof (unfold_locales, goal_cases)
  case (1 b)
  then show ?case
    unfolding loadAuditLogs_def logs_error_def [abs_def] by (rule if_token_run)
next
  case (3 p b)
  then show ?case
    by (simp add: render_logs_def log_nodes_def shown_content set_logs_def no_logs_html_def)
qed (simp_all add: logs_error_html_def js_startsWith_def)

interpretation toks: list_view "\<lambda>b. has_session b \<and> has_id b ''tokens-table-body''" loadClientTokens
  "''/api/tokens''" "''tokens-table-body''" tokens_loading_html "''Failed to fetch tokens''" tokens_error_html
  "\<lambda>p. Do (set_tokens (as_tokens p)) (Do render_tokens Done)"
  "\<lambda>p b. render_tokens (set_tokens (as_tokens p) b)" "\<lambda>p b. token_nodes (as_tokens p)"
proof (unfold_locales, goal_cases)
  case (1 b)
  then show ?case
    unfolding loadClientTokens_def tokens_error_def [abs_def] by (rule if_token_id_run)
next
  case (3 p b)
  then show ?case
    by (simp add: render_tokens_def token_nodes_def shown_content set_tokens_def no_tokens_html_def)
qed (simp_all add: tokens_error_html_def js_startsWith_def)

interpretation vault: list_view "\<lambda>b. has_session b \<and> has_id b ''vault-table-body''" loadVaultSecrets
  "''/api/vault''" "''vault-table-body''" vault_loading_html "''Failed to fetch vault keys''" vault_error_html
  "\<lambda>p. Do (render_secrets (as_keys p)) Done"
  "\<lambda>p b. render_secrets (as_keys p) b" "\<lambda>p b. secret_nodes (as_keys p)"
proof (unfold_locales, goal_cases)
  case (1 b)
  then show ?case
    unfolding loadVaultSecrets_def vault_error_def [abs_def] by (rule if_token_id_run)
next
  case (3 p b)
  then show ?case
    by (simp add: render_secrets_def secret_nodes_def shown_content no_secrets_html_def)
qed (simp_all add: vault_error_html_def js_startsWith_def)

subsection \<open>The namespace audit\<close>

lemma map_of_map_push: "map_of (map_push m k v) k' = (if k' = k then Some (pushed m k @ [v]) else map_of m k')"
  by (induction m k v rule: map_push.induct) (auto simp: pushed_def)

lemma keys_map_push: "map fst (map_push m k v) = (if k \<in> set (map fst m) then map fst m else map fst m @ [k])"
  by (induction m k v rule: map_push.induct) auto

interpretation push: tally "\<lambda>_. True" pushed map_push "\<lambda>vs v. vs @ [v]" "map fst"
  by unfold_locales (auto simp: map_of_map_push pushed_def keys_map_push)

lemma foldl_snoc: "foldl (\<lambda>vs v. vs @ [v]) vs xs = vs @ xs"
  by (induction xs arbitrary: vs) auto

lemma resolved_names_keys:
  "distinct (map fst (resolved_names conns eps))"
  "set (map fst (resolved_names conns eps)) = full_name conns ` set eps"
  using push.keys_fold [where es = eps and m = "[]" and key = "full_name conns" and entry = "source_name conns"]
  by (simp_all add: resolved_names_def)

lemma resolved_names_entry:
  assumes "(k, vs) \<in> set (resolved_names conns eps)"
  shows "vs = map (source_name conns) (homonyms conns eps k)"
  using push.get_fold [where es = eps and m = "[]" and k = k and key = "full_name conns" and entry = "source_name conns"]
    map_of_is_SomeI [OF resolved_names_keys(1) assms]
  by (simp add: resolved_names_def homonyms_def pushed_def foldl_snoc)

lemma resolved_names_eq:
  "resolved_names conns eps =
     map (\<lambda>k. (k, map (source_name conns) (homonyms conns eps k))) (map fst (resolved_names conns eps))"
  unfolding map_map by (rule map_idI [symmetric]) (auto dest: resolved_names_entry)

lemma clashing_eq:
  "clashing conns eps =
     map (clash_text conns eps)
       (filter (\<lambda>k. 1 < length (homonyms conns eps k)) (map fst (resolved_names conns eps)))"
  unfolding clashing_def by (subst resolved_names_eq) (simp add: filter_map o_def clash_text_def)

lemma homonyms_nonempty: "homonyms conns eps k \<noteq> [] \<longleftrightarrow> k \<in> set (map fst (resolved_names conns eps))"
  unfolding resolved_names_keys(2) by (auto simp: homonyms_def filter_empty_conv)

lemma homonyms_distinct:
  "(\<forall>k. length (homonyms conns eps k) \<le> 1) \<longleftrightarrow> distinct (map (full_name conns) eps)"
proof (induction eps)
  case (Cons ep eps)
  have hom: "homonyms conns (ep # eps) k =
      (if full_name conns ep = k then ep # homonyms conns eps k else homonyms conns eps k)" for k
    by (simp add: homonyms_def)
  have "(\<forall>k. length (homonyms conns (ep # eps) k) \<le> 1) \<longleftrightarrow>
      homonyms conns eps (full_name conns ep) = [] \<and> (\<forall>k. length (homonyms conns eps k) \<le> 1)"
  proof (intro iffI conjI allI)
    assume le: "\<forall>k. length (homonyms conns (ep # eps) k) \<le> 1"
    show "homonyms conns eps (full_name conns ep) = []" using le [rule_format, of "full_name conns ep"] by (simp add: hom)
    show "length (homonyms conns eps k) \<le> 1" for k using le [rule_format, of k] by (simp add: hom split: if_splits)
  qed (auto simp: hom)
  then show ?case using Cons.IH by (auto simp: homonyms_def filter_empty_conv image_iff)
qed (simp add: homonyms_def)

subsection \<open>Markup of the templates\<close>

lemma log_row_safe:
  assumes "inert (loc (log_timestamp e))" "inert (log_status e)" "log_error_message e = [] \<longleftrightarrow> log_error_message e' = []"
    and "inert (loc (log_timestamp e'))" "inert (log_status e')"
  shows "safe_row (log_row loc e) (log_row loc e')"
  using assms
  by (cases "log_error_message e = []") (simp_all add: safe_row_def log_row_def Let_def template split del: if_split)

lemma health_row_safe: "safe_row (health_row h) (health_row h')"
  by (simp add: safe_row_def health_row_def Let_def template split del: if_split)

lemma secret_row_safe: "safe_row (secret_row k) (secret_row k')"
  by (simp add: safe_row_def secret_row_def Let_def template split del: if_split)

lemma conn_card_safe:
  "inert (conn_id c) \<Longrightarrow> inert (conn_id c') \<Longrightarrow> safe_row (conn_card eps c) (conn_card eps' c')"
  by (simp add: safe_row_def conn_card_def Let_def template split del: if_split)

lemma endpoint_row_safe:
  "inert (ep_id e) \<Longrightarrow> inert (ep_id e') \<Longrightarrow> conn_prefix conns e = [] \<longleftrightarrow> conn_prefix conns' e' = [] \<Longrightarrow>
   safe_row (endpoint_row conns e) (endpoint_row conns' e')"
  by (cases "conn_prefix conns e = []")
    (simp_all add: safe_row_def endpoint_row_def Let_def template split del: if_split)

lemma token_onclick_no_quote: "CHR 0x22 \<notin> set (token_onclick t)"
  using escapeHtml_inert [of t] by (simp add: token_onclick_def inert_no_quote)

lemma token_row_scan: "scan InText (token_row t) = InText"
  unfolding token_row_def
  by (simp add: template token_onclick_no_quote split del: if_split)
lemma token_row_markup: "markup InText (token_row t) = markup InText (token_row t')"
  unfolding token_row_def
  by (simp add: template token_onclick_no_quote split del: if_split)

lemma token_row_safe: "safe_row (token_row t) (token_row t')"
  using token_row_scan token_row_markup by (simp add: safe_row_def)

subsection \<open>Further views\<close>

lemma html_decode_onclick:
  "html_decode (token_onclick t) = ''deleteClientToken('' @ [CHR 0x27] @ t @ [CHR 0x27] @ '')''"
proof -
  have "html_decode (token_onclick t) =
      html_decode ((''deleteClientToken('' @ [CHR 0x27]) @ escapeHtml t @ ([CHR 0x27] @ '')'' @ []))"
    by (simp add: token_onclick_def)
  also have "\<dots> = (''deleteClientToken('' @ [CHR 0x27]) @ t @ html_decode ([CHR 0x27] @ '')'' @ [])"
    by (subst html_decode_plain) (auto simp: html_decode_escapeHtml_append)
  also have "html_decode ([CHR 0x27] @ '')'' @ []) = [CHR 0x27] @ '')''"
    using html_decode_plain [of "[CHR 0x27] @ '')''" "[]"] by simp
  finally show ?thesis by simp
qed

lemma takeWhile_quote: "takeWhile (\<lambda>c. c \<noteq> q) (t @ q # r) = t \<longleftrightarrow> q \<notin> set t"
  by (induction t) auto

lemma onclick_arg_iff:
  "onclick_arg (html_decode (token_onclick t)) = Some t \<longleftrightarrow>
   set t \<inter> {CHR 0x27, CHR 0x5C, CHR 0x0A, CHR 0x0D} = {}"
proof -
  have "onclick_arg (html_decode (token_onclick t)) = js_quoted_arg (t @ CHR 0x27 # '')'')"
    by (simp add: html_decode_onclick onclick_arg_def)
  moreover have "js_quoted_arg (t @ CHR 0x27 # '')'') = Some t \<longleftrightarrow> set t \<inter> {CHR 0x27, CHR 0x5C, CHR 0x0A, CHR 0x0D} = {}"
    using takeWhile_quote [of "CHR 0x27" t "'')''"] by (auto simp: js_quoted_arg_def Let_def)
  ultimately show ?thesis by simp
qed

lemma render_frame:
  "STATE (render_logs b) = STATE b" "locale_date (render_logs b) = locale_date b"
  "STATE (render_connections b) = STATE b"
  by (simp_all add: render_logs_def render_connections_def elem_ops Let_def)

lemma render_endpoints_content:
  "content (dom (render_endpoints b) ''endpoints-table-body'') = endpoint_nodes (st_connections (STATE b)) (st_endpoints (STATE b))"
  "STATE (render_endpoints b) = STATE b"
  by (auto simp: render_endpoints_def audit_namespaces_def endpoint_nodes_def elem_ops Let_def no_endpoints_html_def)

section \<open>Properties\<close>

text \<open>A response of \<^verbatim>\<open>/api/logs\<close> becomes the audit log: one row per entry in the order of the
  response, or the placeholder for an empty log, whatever other code did while the request was under way.\<close>

theorem audit_log_view:
  assumes "has_session b" "res_ok res" "body res = Inr (JLogs x)"
    and "c = drive loadAuditLogs b [(g, AFetch (Resp res)), (h, AJson (body res))]"
  shows "st_logs (STATE c) = js_or_empty x \<and>
    content (dom c ''logs-table-body'') = log_nodes (locale_date c) (js_or_empty x)"
  unfolding assms(4) logs.drive_shown [OF assms(1-3)]
  using logs.display_nodes [of "JLogs x"] by (simp add: as_logs_def render_frame) (simp add: set_logs_def)

theorem audit_log_view_witness:
  "st_logs (STATE (drive loadAuditLogs sample_page
       [(id, AFetch (Resp (sample_response (JLogs (Some sample_logs))))),
        (id, AJson (body (sample_response (JLogs (Some sample_logs)))))])) = sample_logs"
  by (rule audit_log_view [where x = "Some sample_logs", OF _ _ _ refl, THEN conjunct1, simplified js_or_empty_simps])
    (simp_all add: has_session_def sample_page_def sample_response_def res_ok_def)

text \<open>A response of \<^verbatim>\<open>/api/connections\<close> becomes the grid: one card per connection in order, with the
  number of tools counted over the endpoints known at that moment.\<close>

theorem connections_view:
  assumes "has_session b" "res_ok res" "body res = Inr (JConns x)"
    and "c = drive loadConnections b [(g, AFetch (Resp res)), (h, AJson (body res))]"
  shows "st_connections (STATE c) = js_or_empty x \<and>
    content (dom c ''connections-grid'') = conn_nodes (st_endpoints (STATE c)) (js_or_empty x)"
  unfolding assms(4) conns.drive_shown [OF assms(1-3)]
  using conns.display_nodes [of "JConns x"] by (simp add: as_conns_def render_frame) (simp add: set_connections_def)

theorem connections_view_witness:
  "st_connections (STATE (drive loadConnections sample_page
       [(id, AFetch (Resp (sample_response (JConns (Some [sample_connection]))))),
        (id, AJson (body (sample_response (JConns (Some [sample_connection])))))])) = [sample_connection]"
  by (rule connections_view [where x = "Some [sample_connection]", OF _ _ _ refl, THEN conjunct1, simplified js_or_empty_simps])
    (simp_all add: has_session_def sample_page_def sample_response_def res_ok_def)

text \<open>The client tokens and the vault keys of a response are shown in order, one row each.\<close>

theorem token_vault_views:
  assumes "has_session b" "has_id b ''tokens-table-body''" "has_id b ''vault-table-body''"
    and "res_ok res" "body res = Inr (JTokens x)" "res_ok res'" "body res' = Inr (JKeys y)"
  shows "content (dom (drive loadClientTokens b [(g, AFetch (Resp res)), (h, AJson (body res))]) ''tokens-table-body'')
       = token_nodes (js_or_empty x) \<and>
    content (dom (drive loadVaultSecrets b [(g, AFetch (Resp res')), (h, AJson (body res'))]) ''vault-table-body'')
       = secret_nodes (js_or_empty y)"
  using toks.drive_shown_nodes [of b res "JTokens x" g h] vault.drive_shown_nodes [of b res' "JKeys y" g h] assms
  by (simp_all add: as_tokens_def as_keys_def)

theorem token_vault_views_witness:
  "content (dom (drive loadClientTokens sample_page
       [(id, AFetch (Resp (sample_response (JTokens None)))), (id, AJson (body (sample_response (JTokens None))))])
       ''tokens-table-body'') = token_nodes (js_or_empty None) \<and>
   content (dom (drive loadVaultSecrets sample_page
       [(id, AFetch (Resp (sample_response (JKeys (Some [''k'']))))),
        (id, AJson (body (sample_response (JKeys (Some [''k''])))))])
       ''vault-table-body'') = secret_nodes (js_or_empty (Some [''k'']))"
  by (rule token_vault_views)
    (simp_all add: has_session_def sample_page_def sample_response_def res_ok_def has_id_def)

text \<open>The tools view loads the connections first when none are known, and shows every endpoint with the
  prefix of its connection, provided no other code replaces the connections in between.\<close>

theorem endpoints_view:
  assumes "has_session b" "st_connections (STATE b) = []"
    and "res_ok r1" "body r1 = Inr (JConns x)" "res_ok r2" "body r2 = Inr (JEndpoints y)"
    and "\<And>s. st_connections (STATE (g3 s)) = st_connections (STATE s)" "\<And>s. st_connections (STATE (g4 s)) = st_connections (STATE s)"
    and "c = drive loadEndpoints b [(g1, AFetch (Resp r1)), (g2, AJson (body r1)), (g3, AFetch (Resp r2)), (g4, AJson (body r2))]"
  shows "st_endpoints (STATE c) = js_or_empty y \<and> st_connections (STATE c) = js_or_empty x \<and>
    content (dom c ''endpoints-table-body'') = endpoint_nodes (js_or_empty x) (js_or_empty y)"
  using assms
  by (simp add: loadEndpoints_def load_endpoint_rows_def if_token_def has_session_def try_fetch_def fetch_def
      intercept_ok try_json_def Let_def render_endpoints_content set_endpoints_def set_connections_def
      set_innerHTML_def as_conns_def as_endpoints_def)

theorem endpoints_view_witness:
  "st_endpoints (STATE (drive loadEndpoints sample_page
       [(id, AFetch (Resp (sample_response (JConns (Some [sample_connection]))))),
        (id, AJson (body (sample_response (JConns (Some [sample_connection]))))),
        (id, AFetch (Resp (sample_response (JEndpoints (Some [sample_endpoint]))))),
        (id, AJson (body (sample_response (JEndpoints (Some [sample_endpoint])))))])) = [sample_endpoint]"
  by (rule endpoints_view [where x = "Some [sample_connection]" and y = "Some [sample_endpoint]",
        OF _ _ _ _ _ _ _ _ refl, THEN conjunct1, simplified js_or_empty_simps])
    (simp_all add: has_session_def sample_page_def sample_response_def res_ok_def)

text \<open>C36: The namespace audit reports a clash exactly when two endpoints resolve to the same tool name, and
  for each such name exactly the connections that define it, in order.\<close>

theorem namespace_audit:
  "(clashing conns eps = [] \<longleftrightarrow> distinct (map (full_name conns) eps)) \<and>
   set (clashing conns eps) = clash_text conns eps ` {k. 1 < length (homonyms conns eps k)}"
proof
  have iff: "1 < length (homonyms conns eps k) \<longleftrightarrow>
      k \<in> set (map fst (resolved_names conns eps)) \<and> 1 < length (homonyms conns eps k)" for k
    using homonyms_nonempty [of conns eps k] by auto
  then show set: "set (clashing conns eps) = clash_text conns eps ` {k. 1 < length (homonyms conns eps k)}"
    unfolding clashing_eq set_map [of "clash_text conns eps"] set_filter by (metis (no_types, lifting) Collect_cong)
  have "clashing conns eps = [] \<longleftrightarrow> {k. 1 < length (homonyms conns eps k)} = {}"
    unfolding set_empty [symmetric] set by (rule image_is_empty)
  also have "\<dots> \<longleftrightarrow> (\<forall>k. length (homonyms conns eps k) \<le> 1)"
    by (simp add: not_less)
  finally show "clashing conns eps = [] \<longleftrightarrow> distinct (map (full_name conns) eps)"
    by (simp only: homonyms_distinct)
qed

text \<open>The delete button of a client token calls \<^verbatim>\<open>deleteClientToken\<close> with that token if and only if the
  token has no quote, backslash or line break: escaping for HTML is undone before the handler's source is read.\<close>

theorem onclick_argument:
  "onclick_arg (html_decode (token_onclick t)) = Some t \<longleftrightarrow>
   set t \<inter> {CHR 0x27, CHR 0x5C, CHR 0x0A, CHR 0x0D} = {}"
  by (rule onclick_arg_iff)

text \<open>C35: Whatever the values of a connection's health, a vault key or a client token, the row made from
  them has the elements and attributes of the template and nothing else.\<close>

theorem escaped_rows_are_safe:
  "safe_row (health_row h) (health_row h') \<and> safe_row (secret_row k) (secret_row k') \<and>
   safe_row (token_row t) (token_row t')"
  by (simp add: health_row_safe secret_row_safe token_row_safe)

text \<open>The rows of the audit log, the cards of the connections and the rows of the tools have the elements
  and attributes of their template, provided that the values written without escaping (ids, the status of
  a log entry, the formatted date) are inert.\<close>

theorem rows_with_raw_fields_are_safe:
  assumes "inert (conn_id c)" "inert (conn_id c')" "inert (ep_id e)" "inert (ep_id e')"
    and "conn_prefix conns e = [] \<longleftrightarrow> conn_prefix conns' e' = []"
    and "inert (loc (log_timestamp l))" "inert (log_status l)" "inert (loc (log_timestamp l'))" "inert (log_status l')"
    and "log_error_message l = [] \<longleftrightarrow> log_error_message l' = []"
  shows "safe_row (conn_card eps c) (conn_card eps' c') \<and> safe_row (endpoint_row conns e) (endpoint_row conns' e') \<and>
    safe_row (log_row loc l) (log_row loc l')"
  using assms by (simp add: conn_card_safe endpoint_row_safe log_row_safe)

theorem rows_with_raw_fields_are_safe_witness:
  "safe_row (conn_card [] sample_connection) (conn_card [] (sample_connection\<lparr>conn_name := ''<script>''\<rparr>)) \<and>
   safe_row (endpoint_row [] sample_endpoint) (endpoint_row [] (sample_endpoint\<lparr>ep_path := ''<img>''\<rparr>)) \<and>
   safe_row (log_row (\<lambda>_. ''1/2/2024'') (hd sample_logs))
     (log_row (\<lambda>_. ''1/2/2024'') ((hd sample_logs)\<lparr>log_tool_name := ''<svg>''\<rparr>))"
  by (rule rows_with_raw_fields_are_safe)
    (simp_all add: sample_connection_def sample_endpoint_def sample_logs_def conn_prefix_def find_connection_def)

text \<open>A connection id with a quote, which is written into the card without escaping, adds elements to it.\<close>

theorem conn_id_injects_markup:
  "\<not> safe_row (conn_card [] (sample_connection\<lparr>conn_id := CHR 0x22 # ''><img src=x onerror=f()>''\<rparr>))
             (conn_card [] sample_connection)"
  by code_simp

text \<open>When the three lists arrive, the dashboard shows how many connections, tools and requests the page
  now knows, and the average latency of the requests of the response.\<close>

theorem dashboard_shows_counts:
  assumes "has_session b" "res_ok r1" "res_ok r2" "res_ok r3" "\<not> res_ok r4"
    and "body r1 = Inr (JConns x)" "body r2 = Inr (JEndpoints y)" "body r3 = Inr (JLogs z)"
    and "c = drive loadDashboardStats b
           [(g1, AFetch (Resp r1)), (g2, AFetch (Resp r2)), (g3, AFetch (Resp r3)), (g4, AFetch (Resp r4)),
            (g5, AJson (body r1)), (g6, AJson (body r2)), (g7, AJson (body r3))]"
  shows "get_innerText c ''stat-connections'' = nat_to_string (length (st_connections (STATE c))) \<and>
    get_innerText c ''stat-tools'' = nat_to_string (length (st_endpoints (STATE c))) \<and>
    get_innerText c ''stat-requests'' = nat_to_string (length (js_or_empty z)) \<and>
    get_innerText c ''stat-latency'' = average_latency_text (js_or_empty z)"
proof -
  have "\<exists>d. c = show_counts (set_logs (js_or_empty z) d)"
    unfolding assms(9) using assms(1-8)
    by (auto simp: loadDashboardStats_def if_token_def has_session_def try_fetch_def fetch_def intercept_ok
        try_json_def Let_def load_op_stats_def as_logs_def) (auto simp: intercept_def)
  then show ?thesis
    by (auto simp: show_counts_def get_innerText_def elem_ops node_text_def set_logs_def)
qed

theorem dashboard_shows_counts_witness:
  "get_innerText (drive loadDashboardStats sample_page
       [(id, AFetch (Resp (sample_response (JConns None)))), (id, AFetch (Resp (sample_response (JEndpoints None)))),
        (id, AFetch (Resp (sample_response (JLogs (Some sample_logs))))), (id, AFetch (Resp \<lparr>status = 500, body = Inl []\<rparr>)),
        (id, AJson (body (sample_response (JConns None)))), (id, AJson (body (sample_response (JEndpoints None)))),
        (id, AJson (body (sample_response (JLogs (Some sample_logs)))))])
     ''stat-requests'' = nat_to_string (length sample_logs)"
  by (rule dashboard_shows_counts [where z = "Some sample_logs", OF _ _ _ _ _ _ _ _ refl, THEN conjunct2,
        THEN conjunct2, THEN conjunct1, simplified js_or_empty_simps])
    (auto simp: has_session_def sample_page_def sample_response_def res_ok_def)

end
