(* ===== verification/Portal_Forms.thy ===== *)
theory Portal_Forms
  imports Portal_Views
begin

text \<open>
  The modals, forms and buttons of \<^verbatim>\<open>app.js\<close>: opening a modal for a new or an existing
  connection or endpoint, submitting the forms, deleting, generating a client token, the schema
  dialog, the search of the help page and the theme switch. What the browser does to a value
  assigned to a form control depends on the control's type in \<^verbatim>\<open>index.html\<close> and is written
  out here.
\<close>

section \<open>Definitions\<close>

subsection \<open>Form controls\<close>

datatype field_kind = TextField | UrlField | HiddenField | TextArea | SelectField

text \<open>The types of the controls in \<^verbatim>\<open>index.html\<close>.\<close>

definition field_kind_of :: "string \<Rightarrow> field_kind" where
  "field_kind_of i =
     (if i = ''conn-url'' then UrlField
      else if i \<in> {''connection-id'', ''endpoint-id''} then HiddenField
      else if i \<in> {''ep-schema'', ''ep-template'', ''vault-value''} then TextArea
      else if i \<in> {''conn-auth'', ''ep-conn-id'', ''ep-method'', ''token-role''} then SelectField
      else TextField)"

definition strip_newlines :: "string \<Rightarrow> string" where
  "strip_newlines = filter (\<lambda>c. c \<noteq> CHR 0x0A \<and> c \<noteq> CHR 0x0D)"

definition ascii_space :: "char \<Rightarrow> bool" where
  "ascii_space c = (c \<in> {CHR 0x09, CHR 0x0A, CHR 0x0C, CHR 0x0D, CHR 0x20})"

definition strip_spaces :: "string \<Rightarrow> string" where
  "strip_spaces s = rev (dropWhile ascii_space (rev (dropWhile ascii_space s)))"

fun normalize_newlines :: "string \<Rightarrow> string" where
  "normalize_newlines [] = []"
| "normalize_newlines [c] = [if c = CHR 0x0D then CHR 0x0A else c]"
| "normalize_newlines (c # d # s) =
     (if c = CHR 0x0D then
        (if d = CHR 0x0A then CHR 0x0A # normalize_newlines s
         else CHR 0x0A # normalize_newlines (d # s))
      else c # normalize_newlines (d # s))"

text \<open>The value a control holds after \<^verbatim>\<open>el.value = v\<close>.\<close>

fun sanitize :: "field_kind \<Rightarrow> string list \<Rightarrow> string \<Rightarrow> string" where
  "sanitize TextField opts v = strip_newlines v"
| "sanitize UrlField opts v = strip_spaces (strip_newlines v)"
| "sanitize HiddenField opts v = v"
| "sanitize TextArea opts v = normalize_newlines v"
| "sanitize SelectField opts v = (if v \<in> set opts then v else [])"

definition assign_value :: "string \<Rightarrow> string \<Rightarrow> browser \<Rightarrow> browser" where
  "assign_value i v = upd_elem i (\<lambda>e. e\<lparr>val := sanitize (field_kind_of i) (options e) v\<rparr>)"

definition get_value :: "browser \<Rightarrow> string \<Rightarrow> string" where
  "get_value b i = val (dom b i)"

definition is_checked :: "browser \<Rightarrow> string \<Rightarrow> bool" where
  "is_checked b i = checked (dom b i)"

text \<open>What \<^verbatim>\<open>form.reset()\<close> does to one control: hidden inputs keep their value, a select goes
  back to its first option, the check boxes of the portal are checked by default.\<close>

definition reset_field :: "string \<Rightarrow> browser \<Rightarrow> browser" where
  "reset_field i =
     upd_elem i (\<lambda>e.
       case field_kind_of i of
         HiddenField \<Rightarrow> e
       | SelectField \<Rightarrow> e\<lparr>val := (case options e of [] \<Rightarrow> [] | v # _ \<Rightarrow> v)\<rparr>
       | _ \<Rightarrow> e\<lparr>val := [], checked := True\<rparr>)"

definition reset_form :: "string list \<Rightarrow> browser \<Rightarrow> browser" where
  "reset_form controls b = foldl (\<lambda>b i. reset_field i b) b controls"

definition connection_fields :: "string list" where
  "connection_fields = [''connection-id'', ''conn-name'', ''conn-desc'', ''conn-prefix'', ''conn-url'',
                        ''conn-auth'', ''conn-secret'', ''conn-enabled'']"

definition endpoint_fields :: "string list" where
  "endpoint_fields = [''endpoint-id'', ''ep-conn-id'', ''ep-tool-name'', ''ep-tool-desc'', ''ep-path'',
                      ''ep-method'', ''ep-schema'', ''ep-template'']"

definition token_fields :: "string list" where
  "token_fields = [''token-client-name'', ''token-value'', ''token-role'', ''token-scopes'', ''token-enabled'']"

definition vault_fields :: "string list" where
  "vault_fields = [''vault-key'', ''vault-value'']"

subsection \<open>Modals\<close>

definition fill_connection :: "connection \<Rightarrow> browser \<Rightarrow> browser" where
  "fill_connection conn b =
     set_checked ''conn-enabled'' (conn_enabled conn)
     (assign_value ''conn-secret'' (conn_auth_secret_ref conn)
     (assign_value ''conn-auth'' (conn_auth_type conn)
     (assign_value ''conn-url'' (conn_base_url conn)
     (assign_value ''conn-prefix'' (js_or (conn_tool_prefix conn) [])
     (assign_value ''conn-desc'' (conn_description conn)
     (assign_value ''conn-name'' (conn_name conn)
     (assign_value ''connection-id'' (conn_id conn) b)))))))"

text \<open>The argument is empty for a new connection (\<^verbatim>\<open>id = null\<close>).\<close>

definition openConnectionModal :: "string \<Rightarrow> browser \<Rightarrow> browser" where
  "openConnectionModal i b =
     (let b1 = set_innerText ''connection-modal-title''
                 (if i \<noteq> [] then ''Edit API Connection'' else ''Configure API Connection'') b;
          b2 = reset_form connection_fields b1;
          b3 = (if i \<noteq> [] then
                  (case find_connection (st_connections (STATE b)) i of
                     Some conn \<Rightarrow> fill_connection conn b2 | None \<Rightarrow> b2)
                else assign_value ''conn-prefix'' [] (assign_value ''connection-id'' [] b2))
      in class_remove ''connection-modal'' ''hidden'' b3)"

text \<open>The options of the connection dropdown, as markup and as the values the browser reads from
  the \<^verbatim>\<open>value\<close> attributes.\<close>

definition conn_option :: "connection \<Rightarrow> string" where
  "conn_option c = ''<option value='' @ dq (conn_id c) @ ''>'' @ escapeHtml (conn_name c) @ ''</option>''"

definition option_value :: "connection \<Rightarrow> string" where
  "option_value c = html_decode (takeWhile (\<lambda>x. x \<noteq> CHR 0x22) (conn_id c))"

definition fill_dropdown :: "browser \<Rightarrow> browser" where
  "fill_dropdown b =
     upd_elem ''ep-conn-id''
       (\<lambda>e. e\<lparr>content := [HtmlNode (''<option value='' @ dq [] @ '' disabled selected>Select an API source</option>'' @
                            concat (map conn_option (st_connections (STATE b))))],
             options := [] # map option_value (st_connections (STATE b)),
             val := []\<rparr>) b"

definition find_endpoint :: "api_endpoint list \<Rightarrow> string \<Rightarrow> api_endpoint option" where
  "find_endpoint eps i = find (\<lambda>e. ep_id e = i) eps"

definition fill_endpoint :: "api_endpoint \<Rightarrow> browser \<Rightarrow> browser" where
  "fill_endpoint ep b =
     assign_value ''ep-template'' (ep_template ep)
     (assign_value ''ep-schema'' (ep_parameters_schema ep)
     (assign_value ''ep-method'' (ep_method ep)
     (assign_value ''ep-path'' (ep_path ep)
     (assign_value ''ep-tool-desc'' (ep_tool_description ep)
     (assign_value ''ep-tool-name'' (ep_tool_name ep)
     (assign_value ''ep-conn-id'' (ep_connection_id ep)
     (assign_value ''endpoint-id'' (ep_id ep) b)))))))"

definition openEndpointModal :: "string \<Rightarrow> browser \<Rightarrow> browser" where
  "openEndpointModal i b =
     (let b1 = set_innerText ''endpoint-modal-title''
                 (if i \<noteq> [] then ''Edit MCP Tool Endpoint'' else ''Configure MCP Tool Endpoint'') b;
          b2 = fill_dropdown (reset_form endpoint_fields b1);
          b3 = (if i \<noteq> [] then
                  (case find_endpoint (st_endpoints (STATE b)) i of
                     Some ep \<Rightarrow> fill_endpoint ep b2 | None \<Rightarrow> b2)
                else assign_value ''endpoint-id'' [] b2)
      in class_remove ''endpoint-modal'' ''hidden'' b3)"

definition openTokenModal :: "browser \<Rightarrow> browser" where
  "openTokenModal b = class_remove ''token-modal'' ''hidden'' (reset_form token_fields b)"

definition closeModal :: "string \<Rightarrow> browser \<Rightarrow> browser" where
  "closeModal i = class_add i ''hidden''"

definition showSchema :: "browser \<Rightarrow> browser" where
  "showSchema = class_remove ''schema-modal'' ''hidden''"

subsection \<open>Deleting\<close>

text \<open>Each takes the user's answer to the \<^verbatim>\<open>confirm\<close> dialog.\<close>

definition toast_error :: "string \<Rightarrow> app_proc" where
  "toast_error msg = Do (showToast msg ''error'') Done"

definition deleteConnection :: "string \<Rightarrow> bool \<Rightarrow> app_proc" where
  "deleteConnection i confirmed =
     (if \<not> confirmed then Done
      else try_fetch (delete_request (''/api/connections/'' @ i)) toast_error (\<lambda>res.
        if res_ok res then
          Do (showToast ''API Connection deleted successfully'' ''success'')
            (Call loadConnections (Call loadEndpoints Done))
        else toast_error ''Failed to delete connection''))"

definition deleteEndpoint :: "string \<Rightarrow> bool \<Rightarrow> app_proc" where
  "deleteEndpoint i confirmed =
     (if \<not> confirmed then Done
      else try_fetch (delete_request (''/api/endpoints/'' @ i)) toast_error (\<lambda>res.
        if res_ok res then
          Do (showToast ''MCP Tool deleted successfully'' ''success'') (Call loadEndpoints Done)
        else toast_error ''Failed to delete tool''))"

definition deleteVaultSecret :: "string \<Rightarrow> bool \<Rightarrow> app_proc" where
  "deleteVaultSecret key confirmed =
     (if \<not> confirmed then Done
      else try_fetch (delete_request (''/api/vault?key='' @ encodeURIComponent key)) toast_error (\<lambda>res.
        if res_ok res then
          Do (showToast ''Secret deleted from vault successfully'' ''success'') (Call loadVaultSecrets Done)
        else toast_error ''Failed to delete secret from vault''))"

definition deleteClientToken :: "string \<Rightarrow> bool \<Rightarrow> app_proc" where
  "deleteClientToken token confirmed =
     (if \<not> confirmed then Done
      else try_fetch (delete_request (''/api/tokens?token='' @ encodeURIComponent token)) toast_error (\<lambda>res.
        if res_ok res then
          Do (showToast ''Client Token deleted successfully'' ''success'') (Call loadClientTokens Done)
        else toast_error ''Failed to delete client token''))"

subsection \<open>Submitting\<close>

text \<open>\<^verbatim>\<open>const data = await res.json(); showToast(data.error || d, 'error')\<close>\<close>

definition report_error :: "response \<Rightarrow> string \<Rightarrow> app_proc" where
  "report_error res d =
     try_json res toast_error (\<lambda>data. toast_error (js_or (error_field data) d))"

definition connection_body :: "browser \<Rightarrow> (string \<times> jval) list" where
  "connection_body b =
     [(''id'', JStr (get_value b ''connection-id'')), (''name'', JStr (get_value b ''conn-name'')),
      (''description'', JStr (get_value b ''conn-desc'')), (''tool_prefix'', JStr (get_value b ''conn-prefix'')),
      (''base_url'', JStr (get_value b ''conn-url'')), (''auth_type'', JStr (get_value b ''conn-auth'')),
      (''auth_secret_ref'', JStr (get_value b ''conn-secret'')), (''enabled'', JBool (is_checked b ''conn-enabled''))]"

definition submit_connection :: app_proc where
  "submit_connection =
     try_fetch (\<lambda>b. post_request ''/api/connections'' (connection_body b) b) toast_error (\<lambda>res.
       if res_ok res then
         Do (showToast ''API Connection saved successfully'' ''success'')
         (Do (class_add ''connection-modal'' ''hidden'')
         (Call loadConnections (Call loadEndpoints (Call loadOpenAPIDocs Done))))
       else report_error res ''Failed to save connection'')"

definition endpoint_body :: "browser \<Rightarrow> (string \<times> jval) list" where
  "endpoint_body b =
     [(''id'', JStr (get_value b ''endpoint-id'')), (''connection_id'', JStr (get_value b ''ep-conn-id'')),
      (''tool_name'', JStr (get_value b ''ep-tool-name'')), (''tool_description'', JStr (get_value b ''ep-tool-desc'')),
      (''path'', JStr (get_value b ''ep-path'')), (''method'', JStr (get_value b ''ep-method'')),
      (''parameters_schema'', JStr (get_value b ''ep-schema'')), (''template'', JStr (get_value b ''ep-template''))]"

definition submit_endpoint :: app_proc where
  "submit_endpoint =
     try_fetch (\<lambda>b. post_request ''/api/endpoints'' (endpoint_body b) b) toast_error (\<lambda>res.
       if res_ok res then
         Do (showToast ''MCP Tool saved successfully'' ''success'')
         (Do (class_add ''endpoint-modal'' ''hidden'') (Call loadEndpoints Done))
       else report_error res ''Failed to save tool'')"

definition vault_body :: "browser \<Rightarrow> (string \<times> jval) list" where
  "vault_body b = [(''key'', JStr (get_value b ''vault-key'')), (''value'', JStr (get_value b ''vault-value''))]"

definition submit_vault :: app_proc where
  "submit_vault =
     Read (\<lambda>b. let key = get_value b ''vault-key'' in
     try_fetch (\<lambda>b. post_request ''/api/vault'' (vault_body b) b) toast_error (\<lambda>res.
       if res_ok res then
         Do (showToast (''Secret stored in vault as: '' @ key) ''success'')
         (Do (reset_form vault_fields) (Call loadVaultSecrets Done))
       else report_error res ''Failed to delegate secret to vault''))"

definition token_body :: "browser \<Rightarrow> (string \<times> jval) list" where
  "token_body b =
     [(''client_name'', JStr (get_value b ''token-client-name'')), (''token'', JStr (get_value b ''token-value'')),
      (''client_role'', JStr (get_value b ''token-role'')), (''scopes'', JStr (get_value b ''token-scopes'')),
      (''enabled'', JBool (is_checked b ''token-enabled''))]"

definition submit_token :: app_proc where
  "submit_token =
     try_fetch (\<lambda>b. post_request ''/api/tokens'' (token_body b) b) toast_error (\<lambda>res.
       if res_ok res then
         Do (showToast ''Client Token saved successfully'' ''success'')
         (Do (class_add ''token-modal'' ''hidden'') (Call loadClientTokens Done))
       else report_error res ''Failed to save token'')"

definition generate_token :: "8 word list \<Rightarrow> browser \<Rightarrow> browser" where
  "generate_token bytes = assign_value ''token-value'' (generate_token_value bytes)"

subsection \<open>Schema dialog, help search, theme\<close>

definition copy_schema :: app_proc where
  "copy_schema =
     Read (\<lambda>b. let code = get_innerText b ''openapi-code-block'' in
       Await (WriteClipboard code) (\<lambda>a. case a of
           AClip True \<Rightarrow>
             Do (\<lambda>b. showToast ''OpenAPI JSON copied to clipboard'' ''success'' (b\<lparr>clipboard := code\<rparr>)) Done
         | AClip False \<Rightarrow> toast_error ''Failed to copy text''
         | _ \<Rightarrow> Done))"

definition triggerDownload :: "browser \<Rightarrow> browser" where
  "triggerDownload b =
     (let code = get_innerText b ''openapi-code-block'' in
      if js_startsWith code ''Error:'' \<or> js_startsWith code ''Resolving'' \<or> js_startsWith code ''Loading''
      then showToast ''Schema not fully loaded yet'' ''error'' b
      else showToast ''OpenAPI schema download started'' ''success''
             (b\<lparr>downloads := downloads b @ [(''openapi.json'', code)]\<rparr>))"

definition doc_matches :: "string \<Rightarrow> doc_section \<Rightarrow> bool" where
  "doc_matches query sec =
     (js_includes (js_toLowerCase (doc_title sec)) query \<or>
      js_includes (js_toLowerCase (doc_text sec)) query \<or>
      js_includes (js_toLowerCase (doc_keywords sec)) query)"

definition search_docs :: "string \<Rightarrow> browser \<Rightarrow> browser" where
  "search_docs input b =
     (let query = js_trim (js_toLowerCase input)
      in b\<lparr>docs := map (\<lambda>sec. sec\<lparr>doc_hidden := \<not> doc_matches query sec\<rparr>) (docs b)\<rparr>)"

definition theme_key :: string where
  "theme_key = ''portal-theme''"

definition toggle_theme :: "browser \<Rightarrow> browser" where
  "toggle_theme b =
     (let light = \<not> html_light b
      in b\<lparr>html_light := light,
           localStorage := (localStorage b)(theme_key \<mapsto> (if light then ''light'' else ''dark''))\<rparr>)"

section \<open>Reference notions\<close>

text \<open>Text that a single-line control keeps as it is.\<close>

definition one_line :: "string \<Rightarrow> bool" where
  "one_line s = (CHR 0x0A \<notin> set s \<and> CHR 0x0D \<notin> set s)"

text \<open>Text that a URL control keeps as it is.\<close>

definition trimmed :: "string \<Rightarrow> bool" where
  "trimmed s = (s = [] \<or> \<not> ascii_space (hd s) \<and> \<not> ascii_space (last s))"

text \<open>A connection whose fields the controls of the dialog can hold.\<close>

definition editable_connection :: "string list \<Rightarrow> connection \<Rightarrow> bool" where
  "editable_connection auth_types conn \<longleftrightarrow>
     one_line (conn_name conn) \<and> one_line (conn_description conn) \<and> one_line (conn_tool_prefix conn) \<and>
     one_line (conn_base_url conn) \<and> trimmed (conn_base_url conn) \<and> one_line (conn_auth_secret_ref conn) \<and>
     conn_auth_type conn \<in> set auth_types"

text \<open>A connection as the gateway's API encodes it.\<close>

definition connection_json :: "connection \<Rightarrow> (string \<times> jval) list" where
  "connection_json conn =
     [(''id'', JStr (conn_id conn)), (''name'', JStr (conn_name conn)), (''description'', JStr (conn_description conn)),
      (''tool_prefix'', JStr (conn_tool_prefix conn)), (''base_url'', JStr (conn_base_url conn)),
      (''auth_type'', JStr (conn_auth_type conn)), (''auth_secret_ref'', JStr (conn_auth_secret_ref conn)),
      (''enabled'', JBool (conn_enabled conn))]"

text \<open>An endpoint whose fields the controls of the dialog can hold.\<close>

definition editable_endpoint :: "connection list \<Rightarrow> string list \<Rightarrow> api_endpoint \<Rightarrow> bool" where
  "editable_endpoint conns methods ep \<longleftrightarrow>
     ep_connection_id ep \<in> set (map option_value conns) \<and> ep_method ep \<in> set methods \<and>
     one_line (ep_tool_name ep) \<and> one_line (ep_tool_description ep) \<and> one_line (ep_path ep) \<and>
     CHR 0x0D \<notin> set (ep_parameters_schema ep) \<and> CHR 0x0D \<notin> set (ep_template ep)"

text \<open>An endpoint as the gateway's API encodes it.\<close>

definition endpoint_json :: "api_endpoint \<Rightarrow> (string \<times> jval) list" where
  "endpoint_json ep =
     [(''id'', JStr (ep_id ep)), (''connection_id'', JStr (ep_connection_id ep)), (''tool_name'', JStr (ep_tool_name ep)),
      (''tool_description'', JStr (ep_tool_description ep)), (''path'', JStr (ep_path ep)), (''method'', JStr (ep_method ep)),
      (''parameters_schema'', JStr (ep_parameters_schema ep)), (''template'', JStr (ep_template ep))]"

text \<open>A page with one connection and one endpoint for the examples.\<close>

definition sample_forms_page :: browser where
  "sample_forms_page =
     sample_page\<lparr>STATE := (STATE sample_page)\<lparr>st_connections := [sample_connection], st_endpoints := [sample_endpoint]\<rparr>,
       ids := [''openapi-code-block''],
       dom := (\<lambda>i. (dom sample_page i)\<lparr>options := [''bearer'', ''GET'']\<rparr>)\<rparr>"

section \<open>Lemmas\<close>

subsection \<open>What a control does to the values it holds\<close>

lemma strip_newlines_id: "CHR 0x0A \<notin> set s \<Longrightarrow> CHR 0x0D \<notin> set s \<Longrightarrow> strip_newlines s = s"
  by (auto simp: strip_newlines_def filter_id_conv)

lemma normalize_newlines_id: "CHR 0x0D \<notin> set s \<Longrightarrow> normalize_newlines s = s"
  by (induction s rule: normalize_newlines.induct) auto

lemma strip_spaces_id:
  assumes "trimmed s" shows "strip_spaces s = s"
proof -
  have "dropWhile ascii_space s = s" "dropWhile ascii_space (rev s) = rev s"
    using assms by (auto simp: dropWhile_eq_self_iff trimmed_def hd_rev)
  then show ?thesis by (simp add: strip_spaces_def)
qed

lemma sanitize_id:
  "one_line s \<Longrightarrow> sanitize TextField opts s = s"
  "one_line s \<Longrightarrow> trimmed s \<Longrightarrow> sanitize UrlField opts s = s"
  "CHR 0x0D \<notin> set s \<Longrightarrow> sanitize TextArea opts s = s"
  "s \<in> set opts \<Longrightarrow> sanitize SelectField opts s = s"
  "sanitize HiddenField opts s = s"
  by (simp_all add: one_line_def strip_newlines_id strip_spaces_id normalize_newlines_id)

lemma dom_reset_form:
  "dom (reset_form is b) j = (if j \<in> set is then dom (reset_field j b) j else dom b j)"
proof -
  have r: "dom (reset_field i b) j = (if j = i then dom (reset_field j b) j else dom b j)" for i b
    by (simp add: reset_field_def)
  have idem: "dom (reset_field j (reset_field j b)) j = dom (reset_field j b) j" for b
    by (auto simp: reset_field_def split: field_kind.splits list.splits)
  have local: "dom (reset_field j b) j = dom (reset_field j c) j" if "dom b j = dom c j" for b c
    using that by (simp add: reset_field_def split: field_kind.split)
  show ?thesis
    unfolding reset_form_def
  proof (induction "is" arbitrary: b)
    case (Cons i "is")
    show ?case
      using Cons.IH [of "reset_field i b"] r [of i b] idem [of b] local [of "reset_field i b" b]
      by (cases "j = i") simp_all
  qed simp
qed

lemma options_reset_form [simp]: "options (dom (reset_form is b) j) = options (dom b j)"
  by (simp add: dom_reset_form reset_field_def split: field_kind.splits)

lemma reset_form_frame [simp]: "STATE (reset_form is b) = STATE b"
  unfolding reset_form_def by (induction "is" arbitrary: b) (auto simp: reset_field_def)

lemma assign_value_simps:
  "val (dom (assign_value i v b) j) =
     (if j = i then sanitize (field_kind_of i) (options (dom b i)) v else val (dom b j))"
  "checked (dom (assign_value i v b) j) = checked (dom b j)"
  "options (dom (assign_value i v b) j) = options (dom b j)"
  "STATE (assign_value i v b) = STATE b"
  by (simp_all add: assign_value_def)

lemma js_or_same: "js_or s [] = s"
  by (simp add: js_or_def)

lemma fill_connection_body:
  "editable_connection (options (dom b ''conn-auth'')) conn \<Longrightarrow>
   connection_body (fill_connection conn b) = connection_json conn"
  by (simp add: connection_body_def connection_json_def fill_connection_def get_value_def is_checked_def
      assign_value_simps set_checked_def field_kind_of_def editable_connection_def sanitize_id js_or_same
      del: sanitize.simps(1,2,4,5)) 


lemma edit_connection_body:
  assumes "i \<noteq> []" "find_connection (st_connections (STATE b)) i = Some conn"
    and "editable_connection (options (dom b ''conn-auth'')) conn"
  shows "connection_body (openConnectionModal i b) = connection_json conn"
proof -
  define c where "c = reset_form connection_fields (set_innerText ''connection-modal-title'' ''Edit API Connection'' b)"
  have "options (dom c ''conn-auth'') = options (dom b ''conn-auth'')"
    by (simp add: c_def set_innerText_def)
  then have "connection_body (fill_connection conn c) = connection_json conn"
    using assms(3) by (intro fill_connection_body) simp
  then show ?thesis
    using assms(1,2) by (simp add: openConnectionModal_def Let_def c_def connection_body_def class_remove_def get_value_def is_checked_def)
qed

lemma find_connection_id: "find_connection conns i = Some conn \<Longrightarrow> conn_id conn = i"
  by (auto simp: find_connection_def dest: find_Some_mem)

lemma fill_endpoint_body:
  "ep_connection_id ep \<in> set (options (dom b ''ep-conn-id'')) \<Longrightarrow>
   editable_endpoint conns (options (dom b ''ep-method'')) ep \<Longrightarrow>
   endpoint_body (fill_endpoint ep b) = endpoint_json ep"
  by (simp add: endpoint_body_def endpoint_json_def fill_endpoint_def get_value_def
      assign_value_simps field_kind_of_def editable_endpoint_def sanitize_id
      del: sanitize.simps(1,2,4,5))

subsection \<open>Deleting, tokens, schema, theme\<close>

lemma encoded_query:
  "CHR ''='' \<notin> set k \<Longrightarrow> CHR ''&'' \<notin> set k \<Longrightarrow> CHR ''+'' \<notin> set k \<Longrightarrow> CHR ''%'' \<notin> set k \<Longrightarrow>
   searchParams_get (k @ CHR ''='' # encodeURIComponent v) k = Some v"
proof -
  assume k: "CHR ''='' \<notin> set k" "CHR ''&'' \<notin> set k" "CHR ''+'' \<notin> set k" "CHR ''%'' \<notin> set k"
  have "CHR ''&'' \<notin> set (encodeURIComponent v)" using encodeURIComponent_no_delim by blast
  with k show ?thesis
    by (simp add: searchParams_get_def parse_form_last form_decode_id form_decode_encode)
qed

lemma hex_byte_chars: "c \<in> set (hex_byte b) \<Longrightarrow> c \<in> set lower_hex"
proof -
  have in_hex: "hex_digit lower_hex n \<in> set lower_hex" if "n < 16" for n
    unfolding hex_digit_def using that by (intro nth_mem) simp
  have "unat b div 16 < 16" "unat b mod 16 < 16" by (simp_all add: less_mult_imp_div_less)
  with in_hex have "set (hex_byte b) \<subseteq> set lower_hex" by (simp only: hex_byte_digits) auto
  then show "c \<in> set (hex_byte b) \<Longrightarrow> c \<in> set lower_hex" by blast
qed

lemma generated_token_chars: "set (generate_token_value bs) \<subseteq> set (''mcp_client_'' @ lower_hex)"
  using hex_byte_chars by (fastforce simp: generate_token_value_def)

lemma generated_value: "get_value (generate_token bs b) ''token-value'' = generate_token_value bs"
proof -
  have "one_line (generate_token_value bs)"
    using generated_token_chars [of bs] by (auto simp: one_line_def)
  then show ?thesis
    by (simp add: generate_token_def get_value_def assign_value_simps field_kind_of_def sanitize_id
        del: sanitize.simps(1,2,4,5))
qed

lemma docs_texts:
  "has_session b \<and> has_id b ''openapi-code-block'' \<Longrightarrow>
   get_innerText (fst (run loadOpenAPIDocs b)) ''openapi-code-block'' = ''Resolving active routes documentation...''"
  "has_session b \<and> has_id b ''openapi-code-block'' \<Longrightarrow>
   get_innerText (drive loadOpenAPIDocs b [(g, AFetch (NetErr msg))]) ''openapi-code-block'' = ''Error: '' @ msg"
  "has_session b \<and> has_id b ''openapi-code-block'' \<Longrightarrow> res_ok res \<Longrightarrow> body res = Inr (JSpec spec) \<Longrightarrow>
   get_innerText (drive loadOpenAPIDocs b [(g, AFetch (Resp res)), (h, AJson (body res))]) ''openapi-code-block'' = spec"
  unfolding loadOpenAPIDocs_def
  by (simp_all add: if_token_def if_id_def has_session_def try_fetch_def fetch_def intercept_ok try_json_def Let_def
      get_innerText_def node_text_def link_swagger_def elem_ops openapi_error_def)
     (simp_all add: intercept_def node_text_def openapi_error_def elem_ops)

section \<open>Properties\<close>

text \<open>Opening the dialog for a known connection and submitting it unchanged sends that connection back field by field, if its fields fit the controls of the dialog.\<close>

theorem edit_connection_roundtrip:
  assumes "i \<noteq> []" "find_connection (st_connections (STATE b)) i = Some conn"
    and "editable_connection (options (dom b ''conn-auth'')) conn"
  shows "connection_body (openConnectionModal i b) = connection_json conn"
  by (rule edit_connection_body [OF assms])

theorem edit_connection_roundtrip_witness:
  "connection_body (openConnectionModal ''c1'' sample_forms_page) = connection_json sample_connection"
  by (rule edit_connection_roundtrip)
    (simp_all add: sample_forms_page_def sample_page_def sample_connection_def find_connection_def
      editable_connection_def one_line_def trimmed_def ascii_space_def)

text \<open>A connection whose authentication type the dialog does not offer (\<^verbatim>\<open>oauth2\<close>) is sent back with an empty
  type, though the user changed nothing.\<close>

theorem unlisted_auth_type_lost:
  assumes "i \<noteq> []" "find_connection (st_connections (STATE b)) i = Some conn"
    and "conn_auth_type conn \<notin> set (options (dom b ''conn-auth''))"
  shows "(''auth_type'', JStr []) \<in> set (connection_body (openConnectionModal i b))"
  using assms
  by (simp add: openConnectionModal_def Let_def connection_body_def class_remove_def get_value_def fill_connection_def
      assign_value_simps set_checked_def set_innerText_def field_kind_of_def)

theorem unlisted_auth_type_lost_witness:
  "(''auth_type'', JStr []) \<in> set (connection_body (openConnectionModal ''c1''
     (set_connections [sample_connection\<lparr>conn_auth_type := ''oauth2''\<rparr>] sample_forms_page)))"
  by (rule unlisted_auth_type_lost [where conn = "sample_connection\<lparr>conn_auth_type := ''oauth2''\<rparr>"])
    (simp_all add: set_connections_def sample_forms_page_def sample_page_def sample_connection_def find_connection_def)

text \<open>Opening the dialog for a known endpoint and submitting it unchanged sends that endpoint back field by field, if its connection is one of those listed and its fields fit the controls.\<close>

theorem edit_endpoint_roundtrip:
  assumes "i \<noteq> []" "find_endpoint (st_endpoints (STATE b)) i = Some ep"
    and "editable_endpoint (st_connections (STATE b)) (options (dom b ''ep-method'')) ep"
  shows "endpoint_body (openEndpointModal i b) = endpoint_json ep"
proof -
  define c where "c = fill_dropdown (reset_form endpoint_fields
      (set_innerText ''endpoint-modal-title'' ''Edit MCP Tool Endpoint'' b))"
  have "options (dom c ''ep-method'') = options (dom b ''ep-method'')"
    "options (dom c ''ep-conn-id'') = [] # map option_value (st_connections (STATE b))"
    by (simp_all add: c_def set_innerText_def fill_dropdown_def)
  then have "endpoint_body (fill_endpoint ep c) = endpoint_json ep"
    using assms(3) by (intro fill_endpoint_body) (auto simp: editable_endpoint_def)
  then show ?thesis
    using assms(1,2) by (simp add: openEndpointModal_def Let_def c_def endpoint_body_def class_remove_def get_value_def)
qed

theorem edit_endpoint_roundtrip_witness:
  "endpoint_body (openEndpointModal ''e1'' sample_forms_page) = endpoint_json sample_endpoint"
  by (rule edit_endpoint_roundtrip)
    (simp_all add: sample_forms_page_def sample_page_def sample_connection_def sample_endpoint_def find_endpoint_def
      editable_endpoint_def one_line_def option_value_def char_refs_def)

text \<open>The dialog for a new connection or endpoint never carries over the id of one edited before, nor the text of a connection.\<close>

theorem new_dialogs_are_blank:
  "get_value (openConnectionModal [] b) ''connection-id'' = [] \<and> get_value (openEndpointModal [] b) ''endpoint-id'' = [] \<and>
   map (get_value (openConnectionModal [] b)) [''conn-name'', ''conn-desc'', ''conn-prefix'', ''conn-url'', ''conn-secret''] =
     replicate 5 []"
  by (simp add: openConnectionModal_def openEndpointModal_def Let_def get_value_def assign_value_simps class_remove_def
      field_kind_of_def dom_reset_form connection_fields_def reset_field_def strip_newlines_def numeral_eq_Suc)

text \<open>Editing a connection that the page no longer knows clears the visible fields but keeps the hidden id of the connection edited before, so that saving overwrites that one.\<close>

theorem stale_id_after_unknown_edit:
  assumes "i \<noteq> []" "find_connection (st_connections (STATE b)) i = None"
  shows "get_value (openConnectionModal i b) ''connection-id'' = get_value b ''connection-id'' \<and>
    get_value (openConnectionModal i b) ''conn-name'' = []"
  using assms by (simp add: openConnectionModal_def Let_def get_value_def class_remove_def set_innerText_def
      field_kind_of_def dom_reset_form connection_fields_def reset_field_def)


theorem stale_id_after_unknown_edit_witness:
  "get_value (openConnectionModal ''c2'' (openConnectionModal ''c1'' sample_forms_page)) ''connection-id'' = ''c1''"
proof -
  have "get_value (openConnectionModal ''c1'' sample_forms_page) ''connection-id'' = ''c1''"
    "st_connections (STATE (openConnectionModal ''c1'' sample_forms_page)) = [sample_connection]"
    by (simp_all add: sample_forms_page_def sample_page_def sample_connection_def find_connection_def
        openConnectionModal_def Let_def fill_connection_def get_value_def assign_value_simps class_remove_def
        set_checked_def set_innerText_def field_kind_of_def)
  with stale_id_after_unknown_edit [of "''c2''" "openConnectionModal ''c1'' sample_forms_page"] show ?thesis
    by (simp add: find_connection_def sample_connection_def)
qed

text \<open>A confirmed deletion of a secret or a client token sends one DELETE request whose query parameter, decoded as the server decodes it, is exactly the key or the token.\<close>

theorem delete_requests_name_the_key:
  "(\<exists>r. sent (fst (run (deleteVaultSecret k True) b)) = sent b @ [r] \<and> rq_method r = ''DELETE'' \<and>
      take 11 (rq_url r) = ''/api/vault?'' \<and> searchParams_get (drop 11 (rq_url r)) ''key'' = Some k) \<and>
   (\<exists>r. sent (fst (run (deleteClientToken t True) b)) = sent b @ [r] \<and> rq_method r = ''DELETE'' \<and>
      take 12 (rq_url r) = ''/api/tokens?'' \<and> searchParams_get (drop 12 (rq_url r)) ''token'' = Some t)"
  using encoded_query [of "''key''" k] encoded_query [of "''token''" t]
  by (simp add: deleteVaultSecret_def deleteClientToken_def try_fetch_def fetch_def Let_def delete_request_def)

text \<open>Declining the confirmation changes nothing and sends nothing.\<close>

theorem no_delete_without_confirmation:
  "run (deleteConnection i False) b = (b, []) \<and> run (deleteEndpoint i False) b = (b, []) \<and>
   run (deleteVaultSecret i False) b = (b, []) \<and> run (deleteClientToken i False) b = (b, [])"
  by (simp add: deleteConnection_def deleteEndpoint_def deleteVaultSecret_def deleteClientToken_def)

text \<open>A generated client token has 51 characters, the 20 random bytes can be read back from it (so distinct bytes give distinct tokens), and its delete button passes it on unchanged.\<close>

theorem generated_token:
  assumes "length bs = 20"
  shows "length (get_value (generate_token bs b) ''token-value'') = 51 \<and>
    hex_decode (drop 11 (get_value (generate_token bs b) ''token-value'')) = bs \<and>
    onclick_arg (html_decode (token_onclick (get_value (generate_token bs b) ''token-value''))) =
      Some (get_value (generate_token bs b) ''token-value'')"
  unfolding generated_value onclick_arg_iff
  using assms generated_token_chars [of bs]
  by (auto simp: generate_token_value_def length_hex_bytes hex_decode_concat)

theorem generated_token_witness:
  "length (get_value (generate_token (replicate 20 255) sample_page) ''token-value'') = 51"
  using generated_token [of "replicate 20 255"] by simp

text \<open>The schema can be downloaded only once it is loaded: not while the request is under way, not after it failed, and then with exactly the text of the response.\<close>

theorem download_guard:
  assumes "has_session b" "has_id b ''openapi-code-block''" "res_ok res" "body res = Inr (JSpec spec)" "js_startsWith spec ''{''"
  shows "downloads (triggerDownload (fst (run loadOpenAPIDocs b))) = downloads (fst (run loadOpenAPIDocs b)) \<and>
    (let c = drive loadOpenAPIDocs b [(g, AFetch (NetErr msg))] in downloads (triggerDownload c) = downloads c) \<and>
    (let c = drive loadOpenAPIDocs b [(g, AFetch (Resp res)), (h, AJson (body res))]
     in downloads (triggerDownload c) = downloads c @ [(''openapi.json'', spec)])"
proof -
  obtain s where s: "spec = CHR ''{'' # s" using assms(5) by (cases spec) (auto simp: js_startsWith_def)
  note t = docs_texts [OF conjI [OF assms(1,2)]]
  show ?thesis
    using t(1) t(2) [of g msg] t(3) [OF assms(3,4), of g h]
    by (simp add: triggerDownload_def Let_def s js_startsWith_def showToast_def elem_ops)
qed

theorem download_guard_witness:
  "downloads (triggerDownload (fst (run loadOpenAPIDocs sample_forms_page))) =
     downloads (fst (run loadOpenAPIDocs sample_forms_page))"
  by (rule download_guard [where res = "sample_response (JSpec ''{}'')" and spec = "''{}''", THEN conjunct1])
    (simp_all add: has_session_def sample_forms_page_def sample_page_def has_id_def sample_response_def res_ok_def
      js_startsWith_def)

text \<open>The theme switch is its own inverse, stores the theme that is shown, and leaves every other stored item alone.\<close>

theorem theme_toggle_twice:
  "html_light (toggle_theme (toggle_theme b)) = html_light b \<and>
   localStorage (toggle_theme b) theme_key = Some (if html_light (toggle_theme b) then ''light'' else ''dark'') \<and>
   (\<forall>k. k \<noteq> theme_key \<longrightarrow> localStorage (toggle_theme b) k = localStorage b k)"
  by (simp add: toggle_theme_def Let_def)

end
