(* ===== verification/Portal_Router.thy ===== *)
theory Portal_Router
  imports Portal_Forms
begin

text \<open>
  Session and navigation of \<^verbatim>\<open>app.js\<close>: \<^verbatim>\<open>initAuth\<close> with the token that the SSO callback
  leaves in the location's fragment, \<^verbatim>\<open>bootstrapApp\<close>, the hash router, login and logout; and
  the page of \<^verbatim>\<open>index.html\<close> they work on.
\<close>

section \<open>Definitions\<close>

subsection \<open>The page\<close>

text \<open>The elements of class \<^verbatim>\<open>content-section\<close> and \<^verbatim>\<open>nav-item\<close>.\<close>

definition view_names :: "string list" where
  "view_names = [''dashboard'', ''connections'', ''endpoints'', ''tokens'', ''telemetry'', ''logs'',
                 ''settings'', ''help'']"

definition content_sections :: "string list" where
  "content_sections = map (\<lambda>v. ''view-'' @ v) view_names"

definition nav_items :: "string list" where
  "nav_items = map (\<lambda>v. ''nav-'' @ v) view_names"

definition page_ids :: "string list" where
  "page_ids = content_sections @ nav_items @
     [''login-container'', ''app-shell'', ''display-user'', ''page-title'', ''toast'',
      ''stat-connections'', ''stat-tools'', ''stat-requests'', ''stat-latency'',
      ''config-sse-url'', ''config-active-sessions'', ''config-active-queries'', ''config-api-health-body'',
      ''connections-grid'', ''endpoints-table-body'', ''tokens-table-body'', ''logs-table-body'',
      ''vault-table-body'', ''settings-port'', ''settings-db-path'', ''settings-vault-provider'',
      ''settings-vault-local-path'', ''settings-oidc-status'', ''settings-tls-status'', ''settings-mtls-status'',
      ''openapi-code-block'', ''btn-interactive-swagger'', ''latency-chart-wrapper'', ''frequency-chart-wrapper'',
      ''telemetry-scraped-count'', ''telemetry-success-rate'', ''telemetry-p95-latency'',
      ''connection-modal'', ''connection-modal-title'', ''endpoint-modal'', ''endpoint-modal-title'',
      ''token-modal'', ''schema-modal''] @
     connection_fields @ endpoint_fields @ token_fields @ vault_fields"

subsection \<open>Router\<close>

text \<open>\<^verbatim>\<open>querySelectorAll('.content-section').forEach(s => s.classList.add('hidden'))\<close> and the like.\<close>

definition hide_sections :: "browser \<Rightarrow> browser" where
  "hide_sections b = foldl (\<lambda>b i. class_add i ''hidden'' b) b content_sections"

definition deactivate_nav :: "browser \<Rightarrow> browser" where
  "deactivate_nav b = foldl (\<lambda>b i. class_remove i ''active'' b) b nav_items"

text \<open>\<^verbatim>\<open>location.hash = h\<close>: a change of the fragment queues a \<^verbatim>\<open>hashchange\<close> event.\<close>

definition set_hash :: "string \<Rightarrow> browser \<Rightarrow> browser" where
  "set_hash h b = (if h = loc_hash b then b else b\<lparr>loc_hash := h, hash_events := hash_events b + 1\<rparr>)"

text \<open>\<^verbatim>\<open>replace(/[^\w\s]/g, '')\<close>\<close>

definition word_char :: "char \<Rightarrow> bool" where
  "word_char c =
     (let n = of_char c :: nat in
      (48 \<le> n \<and> n \<le> 57) \<or> (65 \<le> n \<and> n \<le> 90) \<or> (97 \<le> n \<and> n \<le> 122) \<or> n = 95)"

definition title_of :: "string \<Rightarrow> string" where
  "title_of s = js_trim (filter (\<lambda>c. word_char c \<or> js_space c) s)"

definition show_view :: "string \<Rightarrow> browser \<Rightarrow> browser" where
  "show_view route b =
     (let b0 = deactivate_nav (hide_sections b);
          targetView = ''view-'' @ drop 1 route;
          targetNav = ''nav-'' @ drop 1 route;
          b1 = (if has_id b targetView then
                  set_innerText ''page-title''
                    (if has_id b targetNav then title_of (get_innerText b targetNav) else ''Dashboard'')
                    (class_remove targetView ''hidden'' b0)
                else b0)
      in if has_id b targetNav then class_add targetNav ''active'' b1 else b1)"

definition route_loaders :: "string \<Rightarrow> app_proc" where
  "route_loaders route =
     Call (if route = ''#dashboard'' then loadDashboardStats else Done) (
     Call (if route = ''#connections'' then loadConnections else Done) (
     Call (if route = ''#endpoints'' then loadEndpoints else Done) (
     Call (if route = ''#tokens'' then loadClientTokens else Done) (
     Call (if route = ''#telemetry'' then loadTelemetry else Done) (
     Call (if route = ''#logs'' then loadAuditLogs else Done) (
     if route = ''#settings''
     then Call loadSettingsConfig (Call loadVaultSecrets (Call loadOpenAPIDocs Done))
     else Done))))))"

definition current_route :: "browser \<Rightarrow> string" where
  "current_route b = js_or (loc_hash b) ''#dashboard''"

definition handleRoute :: app_proc where
  "handleRoute = Read (\<lambda>b.
     let route = current_route b in
     if route = ''#vault'' \<or> route = ''#openapi'' then Do (set_hash ''#settings'') Done
     else Do (show_view route) (route_loaders route))"

definition setupRouter :: app_proc where
  "setupRouter = Do (\<lambda>b. b\<lparr>hash_listeners := hash_listeners b + 1\<rparr>) handleRoute"

text \<open>Delivery of a \<^verbatim>\<open>hashchange\<close> event to every registered listener.\<close>

primrec run_listeners :: "nat \<Rightarrow> app_proc" where
  "run_listeners 0 = Done"
| "run_listeners (Suc n) = Call handleRoute (run_listeners n)"

definition on_hashchange :: app_proc where
  "on_hashchange = Do (\<lambda>b. b\<lparr>hash_events := hash_events b - 1\<rparr>) (Read (\<lambda>b. run_listeners (hash_listeners b)))"

subsection \<open>Session\<close>

definition show_sse_url :: "browser \<Rightarrow> browser" where
  "show_sse_url b =
     (let isHTTPS = (loc_protocol b = ''https:''); proto = (if isHTTPS then ''https'' else ''http'')
      in set_innerText ''config-sse-url''
           (proto @ ''://'' @ loc_host b @ ''/sse?token=secure-mcp-gateway-token-123456'') b)"

definition bootstrapApp :: app_proc where
  "bootstrapApp =
     Call setupRouter (
     Call loadDashboardStats (
     Call loadConnections (
     Call loadEndpoints (
     Call loadAuditLogs (
     Call loadVaultSecrets (
     Call loadSettingsConfig (
     Call loadOpenAPIDocs (
     Call loadClientTokens (
     Do show_sse_url Done)))))))))"

text \<open>\<^verbatim>\<open>localStorage.setItem\<close> of both keys and the assignment to \<^verbatim>\<open>STATE\<close>.\<close>

definition store_session :: "string \<Rightarrow> string \<Rightarrow> browser \<Rightarrow> browser" where
  "store_session token username b =
     b\<lparr>localStorage := (localStorage b)(token_key \<mapsto> token, username_key \<mapsto> username),
       STATE := (STATE b)\<lparr>st_token := token, st_username := username\<rparr>\<rparr>"

definition accept_sso_token :: "browser \<Rightarrow> browser" where
  "accept_sso_token b =
     (if js_startsWith (loc_hash b) ''#token='' then
        (let params = drop 1 (loc_hash b) in
         case searchParams_get params ''token'' of
           None \<Rightarrow> b
         | Some token \<Rightarrow>
             (if token = [] then b
              else
                (let username = (case searchParams_get params ''username'' of
                                   None \<Rightarrow> ''SSO User'' | Some u \<Rightarrow> js_or u ''SSO User'')
                 in set_hash ''#dashboard'' (store_session token username b))))
      else b)"

definition show_app :: "browser \<Rightarrow> browser" where
  "show_app b =
     set_innerText ''display-user'' (st_username (STATE b))
     (class_remove ''app-shell'' ''hidden'' (class_add ''login-container'' ''hidden'' b))"

definition show_login :: "browser \<Rightarrow> browser" where
  "show_login b = class_add ''app-shell'' ''hidden'' (class_remove ''login-container'' ''hidden'' b)"

definition initAuth :: app_proc where
  "initAuth =
     Do accept_sso_token (Read (\<lambda>b.
       if st_token (STATE b) \<noteq> [] then Do show_app bootstrapApp else Do show_login Done))"

definition login_request :: "browser \<Rightarrow> request" where
  "login_request b =
     \<lparr>rq_url = ''/api/auth/login'', rq_method = ''POST'',
      rq_headers = [(''Content-Type'', ''application/json'')],
      rq_body = Some [(''username'', JStr (get_value b ''username'')), (''password'', JStr (get_value b ''password''))]\<rparr>"

definition login_error :: "string \<Rightarrow> app_proc" where
  "login_error msg = toast_error ''Server authentication connection failed''"

definition submit_login :: app_proc where
  "submit_login =
     try_fetch login_request login_error (\<lambda>res.
     try_json res login_error (\<lambda>data.
       if res_ok res \<and> login_token data \<noteq> [] then
         Do (store_session (login_token data) (login_username data))
         (Call initAuth (Do (showToast ''Authenticated successfully'' ''success'') Done))
       else toast_error (js_or (error_field data) ''Invalid username or password'')))"

definition sso_redirect :: "browser \<Rightarrow> browser" where
  "sso_redirect b = b\<lparr>loc_href := ''/api/auth/sso/login''\<rparr>"

definition logout :: "browser \<Rightarrow> browser" where
  "logout b =
     b\<lparr>localStorage := (localStorage b)(token_key := None, username_key := None), reloading := True\<rparr>"

end
