(* ===== verification/Portal_App.thy ===== *)
theory Portal_App
  imports Portal_Router
begin

text \<open>
  The portal as a whole: the page as the browser loads it, the events that can happen on it,
  the handler \<^verbatim>\<open>app.js\<close> attaches to each, and the event loop over all of them. The
  invariant \<open>portal_ok\<close> is shown for every state the loop can reach, whatever the server
  answers and in whatever order answers and events arrive. One run of the loop is one lifetime
  of the page; a reload starts a new run from the local storage the last one left.
\<close>

section \<open>Definitions\<close>

subsection \<open>The page as loaded\<close>

definition nav_label :: "string \<Rightarrow> string" where
  "nav_label i =
     (case map_of [(''nav-dashboard'', ''Dashboard''), (''nav-connections'', ''API Connections''),
                   (''nav-endpoints'', ''MCP Tools''), (''nav-tokens'', ''Client Tokens''),
                   (''nav-telemetry'', ''Telemetry''), (''nav-logs'', ''Audit Logs''),
                   (''nav-settings'', ''Settings''), (''nav-help'', ''Help & Docs'')] i of
        Some s \<Rightarrow> s | None \<Rightarrow> [])"

definition page_classes :: "string \<Rightarrow> string list" where
  "page_classes i =
     (if i \<in> set content_sections then
        (if i = ''view-dashboard'' then [''content-section''] else [''content-section'', ''hidden''])
      else if i \<in> set nav_items then
        (if i = ''nav-dashboard'' then [''nav-item'', ''active''] else [''nav-item''])
      else if i = ''app-shell'' then [''hidden'']
      else if i = ''login-container'' then [''glass-panel'']
      else if i \<in> {''connection-modal'', ''endpoint-modal'', ''token-modal'', ''schema-modal''}
        then [''modal'', ''hidden'']
      else if i = ''toast'' then [''toast'', ''hidden'']
      else [])"

definition page_options :: "string \<Rightarrow> string list" where
  "page_options i =
     (if i = ''conn-auth'' then [''none'', ''bearer'', ''basic'', ''custom_headers'']
      else if i = ''ep-method'' then [''GET'', ''POST'', ''PUT'', ''DELETE'']
      else if i = ''token-role'' then [''developer'', ''admin'']
      else [])"

definition page_elem :: "string \<Rightarrow> elem" where
  "page_elem i =
     \<lparr>cls = page_classes i,
      content = (if i \<in> set nav_items then [TextNode (nav_label i)]
                 else if i = ''openapi-code-block'' then [TextNode ''Loading documentation...'']
                 else []),
      val = (case page_options i of [] \<Rightarrow> [] | v # _ \<Rightarrow> v),
      checked = (i \<in> {''conn-enabled'', ''token-enabled''}),
      href = (if i = ''btn-interactive-swagger'' then ''/swagger.html'' else []),
      options = page_options i\<rparr>"

record page_env =
  env_storage :: "string \<rightharpoonup> string"
  env_hash :: string
  env_host :: string
  env_protocol :: string
  env_date :: "string \<Rightarrow> string"
  env_width :: "string \<Rightarrow> nat"
  env_docs :: "doc_section list"

text \<open>The inline script of \<^verbatim>\<open>index.html\<close> restores the theme; \<^verbatim>\<open>app.js\<close> then initialises
  \<^verbatim>\<open>STATE\<close> from the local storage.\<close>

definition load_page :: "page_env \<Rightarrow> browser" where
  "load_page env =
     (let storage = env_storage env;
          item = (\<lambda>k. case storage k of None \<Rightarrow> [] | Some v \<Rightarrow> v)
      in \<lparr>STATE = \<lparr>st_token = item token_key, st_username = item username_key,
                   st_connections = [], st_endpoints = [], st_logs = [], st_tokens = []\<rparr>,
          localStorage = storage, ids = page_ids, dom = page_elem, loc_hash = env_hash env,
          loc_host = env_host env, loc_protocol = env_protocol env, loc_href = [], now = 0, timers = [],
          reloading = False, hash_listeners = 0, hash_events = 0, sent = [], clipboard = [], downloads = [],
          html_light = (item theme_key = ''light''),
          locale_date = env_date env, client_width = env_width env, docs = env_docs env, loaded = False\<rparr>)"

definition page_loaded :: "browser \<Rightarrow> bool" where
  "page_loaded b = (\<exists>env. b = load_page env)"

subsection \<open>Events\<close>

datatype event =
    Load
  | Tick nat
  | TimerDue nat
  | HashChange
  | Navigate string
  | UserInput string string
  | UserCheck string bool
  | SubmitLogin
  | ClickSSO
  | ClickLogout
  | NewConnection
  | EditConnection string
  | DeleteConnection string bool
  | SubmitConnection
  | NewEndpoint
  | EditEndpoint string
  | DeleteEndpoint string bool
  | SubmitEndpoint
  | SubmitVault
  | DeleteSecret string bool
  | NewToken
  | SubmitToken
  | DeleteToken string bool
  | GenerateToken "8 word list"
  | CloseModal string
  | ShowSchema
  | CopySchema
  | Download
  | SearchDocs string
  | ToggleTheme

definition app_visible :: "browser \<Rightarrow> bool" where
  "app_visible b = (\<not> is_hidden b ''app-shell'')"

definition login_visible :: "browser \<Rightarrow> bool" where
  "login_visible b = (\<not> is_hidden b ''login-container'')"

text \<open>An event on the application shell or one of its dialogs needs the shell to be shown.\<close>

definition in_app :: "browser \<Rightarrow> app_proc \<Rightarrow> app_proc option" where
  "in_app b p = (if app_visible b then Some p else None)"

definition act :: "(browser \<Rightarrow> browser) \<Rightarrow> app_proc" where
  "act f = Do f Done"

definition input_fields :: "string list" where
  "input_fields = connection_fields @ endpoint_fields @ token_fields @ vault_fields @ [''username'', ''password'']"

definition modal_ids :: "string list" where
  "modal_ids = [''connection-modal'', ''endpoint-modal'', ''token-modal'', ''schema-modal'']"

fun handler :: "browser \<Rightarrow> event \<Rightarrow> app_proc option" where
  "handler b Load = (if loaded b then None else Some (Do (\<lambda>b. b\<lparr>loaded := True\<rparr>) initAuth))"
| "handler b (Tick d) = Some (act (\<lambda>b. b\<lparr>now := now b + d\<rparr>))"
| "handler b (TimerDue i) =
     (if i < length (timers b) \<and> timers b ! i \<le> now b then Some (act (timer_due i)) else None)"
| "handler b HashChange = (if 0 < hash_events b then Some on_hashchange else None)"
| "handler b (Navigate h) = Some (act (set_hash h))"
| "handler b (UserInput i v) = (if i \<in> set input_fields then Some (act (assign_value i v)) else None)"
| "handler b (UserCheck i v) =
     (if i \<in> {''conn-enabled'', ''token-enabled''} then Some (act (set_checked i v)) else None)"
| "handler b SubmitLogin = (if login_visible b then Some submit_login else None)"
| "handler b ClickSSO = (if login_visible b then Some (act sso_redirect) else None)"
| "handler b ClickLogout = in_app b (act logout)"
| "handler b NewConnection = in_app b (act (openConnectionModal []))"
| "handler b (EditConnection i) = in_app b (act (openConnectionModal i))"
| "handler b (DeleteConnection i yes) = in_app b (deleteConnection i yes)"
| "handler b SubmitConnection = in_app b submit_connection"
| "handler b NewEndpoint = in_app b (act (openEndpointModal []))"
| "handler b (EditEndpoint i) = in_app b (act (openEndpointModal i))"
| "handler b (DeleteEndpoint i yes) = in_app b (deleteEndpoint i yes)"
| "handler b SubmitEndpoint = in_app b submit_endpoint"
| "handler b SubmitVault = in_app b submit_vault"
| "handler b (DeleteSecret k yes) = in_app b (deleteVaultSecret k yes)"
| "handler b NewToken = in_app b (act openTokenModal)"
| "handler b SubmitToken = in_app b submit_token"
| "handler b (DeleteToken t yes) = in_app b (deleteClientToken t yes)"
| "handler b (GenerateToken bytes) =
     (if length bytes = 20 then in_app b (act (generate_token bytes)) else None)"
| "handler b (CloseModal i) = (if i \<in> set modal_ids then in_app b (act (closeModal i)) else None)"
| "handler b ShowSchema = in_app b (act showSchema)"
| "handler b CopySchema = in_app b copy_schema"
| "handler b Download = in_app b (act triggerDownload)"
| "handler b (SearchDocs s) = in_app b (act (search_docs s))"
| "handler b ToggleTheme = in_app b (act toggle_theme)"

abbreviation portal_reach :: "app_machine \<Rightarrow> bool" where
  "portal_reach \<equiv> reach answers handler page_loaded"

subsection \<open>The invariant\<close>

text \<open>A request that carries a session token.\<close>

definition authorized :: "request \<Rightarrow> bool" where
  "authorized r =
     list_ex (\<lambda>(n, v). n = ''Authorization'' \<and> js_startsWith v ''Bearer '' \<and> 7 < length v) (rq_headers r)"

definition has_token :: "browser \<Rightarrow> bool" where
  "has_token b = (st_token (STATE b) \<noteq> [])"

definition token_kept :: "browser \<Rightarrow> browser \<Rightarrow> bool" where
  "token_kept b c = (has_token b \<longrightarrow> has_token c)"

definition visible_sections :: "browser \<Rightarrow> string list" where
  "visible_sections b = filter (\<lambda>i. \<not> is_hidden b i) content_sections"

definition active_items :: "browser \<Rightarrow> string list" where
  "active_items b = filter (\<lambda>i. ''active'' \<in> set (cls (dom b i))) nav_items"

definition portal_ok :: "browser \<Rightarrow> bool" where
  "portal_ok b \<longleftrightarrow>
     (reloading b \<or> st_token (STATE b) = stored b token_key) \<and>
     (app_visible b \<or> 0 < hash_listeners b \<longrightarrow> has_token b) \<and>
     list_all (\<lambda>r. rq_url r = ''/api/auth/login'' \<or> authorized r) (sent b) \<and>
     length (visible_sections b) \<le> 1 \<and>
     length (active_items b) \<le> 1"

section \<open>Lemmas\<close>

subsection \<open>Updates that leave the session alone\<close>

definition protected_ids :: "string list" where
  "protected_ids = ''app-shell'' # content_sections @ nav_items"

definition same_session :: "browser \<Rightarrow> browser \<Rightarrow> bool" where
  "same_session b c \<longleftrightarrow>
     st_token (STATE c) = st_token (STATE b) \<and>
     localStorage c token_key = localStorage b token_key \<and>
     reloading c = reloading b \<and> hash_listeners c = hash_listeners b \<and> sent c = sent b \<and>
     (\<forall>i \<in> set protected_ids. dom c i = dom b i)"

definition quiet :: "(browser \<Rightarrow> browser) \<Rightarrow> bool" where
  "quiet f \<longleftrightarrow> (\<forall>b. same_session b (f b))"

named_theorems quiet_intros \<open>updates that leave the session alone\<close>

lemma quiet_comp: "quiet f \<Longrightarrow> quiet g \<Longrightarrow> quiet (\<lambda>b. f (g b))"
  by (simp add: quiet_def same_session_def)

lemma same_session_refl [simp]: "same_session b b"
  by (simp add: same_session_def)

lemma same_session_trans: "same_session a b \<Longrightarrow> same_session b c \<Longrightarrow> same_session a c"
  by (simp add: same_session_def)

lemma same_session_step: "quiet f \<Longrightarrow> same_session a b \<Longrightarrow> same_session a (f b)"
  by (simp add: quiet_def same_session_def)

lemma quietD: "quiet f \<Longrightarrow> same_session b (f b)"
  by (simp add: quiet_def)

lemma same_session_ok: "same_session b c \<Longrightarrow> portal_ok b \<Longrightarrow> portal_ok c"
proof -
  assume s: "same_session b c" and ok: "portal_ok b"
  have "visible_sections c = visible_sections b" "active_items c = active_items b"
    using s by (auto simp: visible_sections_def active_items_def same_session_def is_hidden_def
        protected_ids_def intro!: filter_cong)
  moreover have "app_visible c = app_visible b"
    using s by (simp add: app_visible_def is_hidden_def same_session_def protected_ids_def)
  ultimately show ?thesis
    using s ok by (simp add: portal_ok_def same_session_def has_token_def stored_def)
qed

lemma same_session_token: "same_session b c \<Longrightarrow> has_token c = has_token b"
  by (simp add: same_session_def has_token_def)

lemma quiet_upd_elem: "i \<notin> set protected_ids \<Longrightarrow> quiet (upd_elem i f)"
  by (auto simp: quiet_def same_session_def)

lemma protected_ids_eq:
  "protected_ids = [''app-shell'', ''view-dashboard'', ''view-connections'', ''view-endpoints'',
     ''view-tokens'', ''view-telemetry'', ''view-logs'', ''view-settings'', ''view-help'',
     ''nav-dashboard'', ''nav-connections'', ''nav-endpoints'', ''nav-tokens'', ''nav-telemetry'',
     ''nav-logs'', ''nav-settings'', ''nav-help'']"
  by (simp add: protected_ids_def content_sections_def nav_items_def view_names_def)

lemma quiet_simple [quiet_intros]:
  "quiet (\<lambda>b. b\<lparr>now := n b\<rparr>)"
  "quiet (\<lambda>b. b\<lparr>timers := ts b\<rparr>)"
  "quiet (\<lambda>b. b\<lparr>docs := ds b\<rparr>)"
  "quiet (\<lambda>b. b\<lparr>downloads := dl b\<rparr>)"
  "quiet (\<lambda>b. b\<lparr>loaded := l b\<rparr>)"
  "quiet (\<lambda>b. b\<lparr>hash_events := k b\<rparr>)"
  "quiet sso_redirect" "quiet (set_hash h)" "quiet (search_docs q)" "quiet toggle_theme"
  "quiet (set_connections cs)" "quiet (set_endpoints es)" "quiet (set_logs ls)" "quiet (set_tokens ts')"
  by (simp_all add: quiet_def same_session_def sso_redirect_def set_hash_def search_docs_def
      toggle_theme_def set_connections_def set_endpoints_def set_logs_def set_tokens_def Let_def
      token_key_def theme_key_def)

lemma quiet_elem_ops:
  assumes "i \<notin> set protected_ids"
  shows "quiet (set_innerText i t)" "quiet (set_innerHTML i t)" "quiet (append_children i ns)"
    "quiet (class_add i c)" "quiet (class_remove i c)" "quiet (set_className i cs)"
    "quiet (set_href i t)" "quiet (set_checked i v)" "quiet (assign_value i t)" "quiet (reset_field i)"
  using assms by (simp_all add: elem_ops assign_value_def reset_field_def quiet_upd_elem)

lemma quiet_foldl:
  "(\<And>i. i \<in> set is \<Longrightarrow> quiet (g i)) \<Longrightarrow> quiet (\<lambda>b. foldl (\<lambda>b i. g i b) b is)"
proof (induction "is" rule: rev_induct)
  case (snoc i xs)
  then show ?case using quiet_comp [of "g i" "\<lambda>b. foldl (\<lambda>b i. g i b) b xs"] by simp
qed (simp add: quiet_def)

lemma quiet_reset_form:
  "set fs \<inter> set protected_ids = {} \<Longrightarrow> quiet (reset_form fs)"
  using quiet_foldl [of fs reset_field]
  by (fastforce simp: reset_form_def [abs_def] intro: quiet_elem_ops(10))

lemma quiet_reset_forms [quiet_intros]:
  "quiet (reset_form connection_fields)" "quiet (reset_form endpoint_fields)"
  "quiet (reset_form token_fields)" "quiet (reset_form vault_fields)"
  by (auto intro!: quiet_reset_form
      simp: protected_ids_eq connection_fields_def endpoint_fields_def token_fields_def vault_fields_def)

lemma quiet_showToast [quiet_intros]: "quiet (showToast m t)"
  by (simp add: quiet_def same_session_def protected_ids_eq)

text \<open>
  The same facts as rules for chains of updates, with a test of the id that is decided by its
  first two characters.
\<close>

definition unprotected :: "string \<Rightarrow> bool" where
  "unprotected i \<longleftrightarrow> take 2 i \<notin> {''ap'', ''vi'', ''na''}"

lemma unprotected_not_mem: "unprotected i \<Longrightarrow> i \<notin> set protected_ids"
  by (auto simp: unprotected_def protected_ids_eq)

lemma same_session_elem_ops:
  assumes "unprotected i" "same_session a b"
  shows "same_session a (set_innerText i t b)" "same_session a (set_innerHTML i t b)"
    "same_session a (append_children i ns b)" "same_session a (class_add i c b)"
    "same_session a (class_remove i c b)" "same_session a (set_href i t b)"
    "same_session a (set_checked i v b)" "same_session a (assign_value i t b)"
    "same_session a (upd_elem i f b)"
  using assms unprotected_not_mem
  by (auto intro: same_session_step [where b = b] quiet_elem_ops quiet_upd_elem)

lemma same_session_showToast: "same_session a b \<Longrightarrow> same_session a (showToast m t b)"
  by (rule same_session_step [OF quiet_showToast])

lemmas quiet_chain =
  same_session_refl same_session_elem_ops same_session_showToast
  same_session_step [OF quiet_reset_forms(1)] same_session_step [OF quiet_reset_forms(2)]
  same_session_step [OF quiet_reset_forms(3)] same_session_step [OF quiet_reset_forms(4)]

lemma quiet_views [quiet_intros]:
  "quiet show_counts" "quiet (show_op_stats op)" "quiet render_connections" "quiet render_endpoints"
  "quiet render_logs" "quiet (render_secrets ks)" "quiet (show_settings d)" "quiet link_swagger"
  "quiet render_tokens" "quiet (show_metrics m)" "quiet (show_telemetry ls)"
  unfolding quiet_def show_counts_def show_op_stats_def render_health_def render_connections_def
    render_endpoints_def audit_namespaces_def render_logs_def render_secrets_def show_settings_def
    link_swagger_def render_tokens_def show_metrics_def show_telemetry_def draw_frequency_chart_def
    draw_latency_chart_def Let_def
  by (auto simp: unprotected_def intro!: quiet_chain split: option.splits)

lemma quiet_forms [quiet_intros]:
  "quiet (openConnectionModal i)" "quiet (openEndpointModal i)" "quiet openTokenModal"
  "quiet (generate_token bs)" "quiet showSchema" "quiet show_sse_url"
  unfolding quiet_def openConnectionModal_def openEndpointModal_def openTokenModal_def
    fill_connection_def fill_endpoint_def fill_dropdown_def generate_token_def showSchema_def
    show_sse_url_def Let_def
  by (auto simp: unprotected_def intro!: quiet_chain split: option.splits)

lemma quiet_others [quiet_intros]:
  "quiet triggerDownload" "quiet (timer_due n)"
  "quiet (\<lambda>b. showToast m t (b\<lparr>clipboard := c\<rparr>))"
  by (auto simp: quiet_def triggerDownload_def timer_due_def class_add_def Let_def same_session_def
      protected_ids_eq)

lemma quiet_controls [quiet_intros]:
  "i \<in> set input_fields \<Longrightarrow> quiet (assign_value i v)"
  "i \<in> {''conn-enabled'', ''token-enabled''} \<Longrightarrow> quiet (set_checked i c)"
  "i \<in> set modal_ids \<Longrightarrow> quiet (closeModal i)"
  unfolding closeModal_def
  by (auto intro!: quiet_elem_ops unprotected_not_mem
      simp: unprotected_def input_fields_def connection_fields_def endpoint_fields_def token_fields_def
        vault_fields_def modal_ids_def)

subsection \<open>Updates that keep the invariant of a logged-in page\<close>

definition calm :: "(browser \<Rightarrow> browser) \<Rightarrow> bool" where
  "calm f \<longleftrightarrow> (\<forall>b. portal_ok b \<longrightarrow> has_token b \<longrightarrow> portal_ok (f b) \<and> has_token (f b))"

lemma quiet_calm: "quiet f \<Longrightarrow> calm f"
  unfolding calm_def using quietD same_session_ok same_session_token by blast

text \<open>Adding or removing a class on a list of elements.\<close>

lemma dom_foldl_class_add:
  "dom (foldl (\<lambda>b i. class_add i c b) b is) j =
     (if j \<in> set is then (dom b j)\<lparr>cls := add_class c (cls (dom b j))\<rparr> else dom b j)"
  by (induction "is" arbitrary: b) (auto simp: class_add_def add_class_def)

lemma dom_foldl_class_remove:
  "dom (foldl (\<lambda>b i. class_remove i c b) b is) j =
     (if j \<in> set is then (dom b j)\<lparr>cls := remove_class c (cls (dom b j))\<rparr> else dom b j)"
  by (induction "is" arbitrary: b) (auto simp: class_remove_def remove_class_def)

lemma frame_foldl_class:
  "STATE (foldl (\<lambda>b i. class_add i c b) b is) = STATE b"
  "STATE (foldl (\<lambda>b i. class_remove i c b) b is) = STATE b"
  "localStorage (foldl (\<lambda>b i. class_add i c b) b is) = localStorage b"
  "localStorage (foldl (\<lambda>b i. class_remove i c b) b is) = localStorage b"
  "reloading (foldl (\<lambda>b i. class_add i c b) b is) = reloading b"
  "reloading (foldl (\<lambda>b i. class_remove i c b) b is) = reloading b"
  "hash_listeners (foldl (\<lambda>b i. class_add i c b) b is) = hash_listeners b"
  "hash_listeners (foldl (\<lambda>b i. class_remove i c b) b is) = hash_listeners b"
  "hash_events (foldl (\<lambda>b i. class_add i c b) b is) = hash_events b"
  "hash_events (foldl (\<lambda>b i. class_remove i c b) b is) = hash_events b"
  "sent (foldl (\<lambda>b i. class_add i c b) b is) = sent b"
  "sent (foldl (\<lambda>b i. class_remove i c b) b is) = sent b"
  "ids (foldl (\<lambda>b i. class_add i c b) b is) = ids b"
  "ids (foldl (\<lambda>b i. class_remove i c b) b is) = ids b"
  "loc_hash (foldl (\<lambda>b i. class_add i c b) b is) = loc_hash b"
  "loc_hash (foldl (\<lambda>b i. class_remove i c b) b is) = loc_hash b"
  by (induction "is" arbitrary: b; simp add: class_add_def class_remove_def)+

lemma show_view_frame [simp]:
  "STATE (show_view r b) = STATE b" "localStorage (show_view r b) = localStorage b"
  "reloading (show_view r b) = reloading b" "hash_listeners (show_view r b) = hash_listeners b"
  "sent (show_view r b) = sent b" "hash_events (show_view r b) = hash_events b"
  "ids (show_view r b) = ids b" "loc_hash (show_view r b) = loc_hash b"
  by (simp_all add: show_view_def Let_def hide_sections_def deactivate_nav_def set_innerText_def
      class_add_def class_remove_def frame_foldl_class [unfolded class_add_def class_remove_def])

lemma section_names:
  "i \<in> set content_sections \<Longrightarrow> \<exists>v. i = ''view-'' @ v"
  "i \<in> set nav_items \<Longrightarrow> \<exists>v. i = ''nav-'' @ v"
  by (auto simp: content_sections_def nav_items_def)

lemma dom_cleared_view:
  "dom (deactivate_nav (hide_sections b)) j =
     (if j \<in> set nav_items then (dom b j)\<lparr>cls := remove_class ''active'' (cls (dom b j))\<rparr>
      else if j \<in> set content_sections then (dom b j)\<lparr>cls := add_class ''hidden'' (cls (dom b j))\<rparr>
      else dom b j)"
  using section_names [of j] by (auto simp: deactivate_nav_def hide_sections_def dom_foldl_class_add dom_foldl_class_remove)

lemma dom_show_view:
  "dom (show_view r b) j =
     (let e = dom (deactivate_nav (hide_sections b)) j in
      if j = ''view-'' @ drop 1 r \<and> has_id b j then e\<lparr>cls := remove_class ''hidden'' (cls e)\<rparr>
      else if j = ''nav-'' @ drop 1 r \<and> has_id b j then e\<lparr>cls := add_class ''active'' (cls e)\<rparr>
      else if j = ''page-title'' \<and> has_id b (''view-'' @ drop 1 r)
      then e\<lparr>content := [TextNode (if has_id b (''nav-'' @ drop 1 r)
                                   then title_of (get_innerText b (''nav-'' @ drop 1 r)) else ''Dashboard'')]\<rparr>
      else e)"
  by (auto simp: show_view_def Let_def set_innerText_def class_add_def class_remove_def)

lemma show_view_section:
  assumes "i \<in> set content_sections"
  shows "is_hidden (show_view r b) i \<longleftrightarrow> \<not> (has_id b (''view-'' @ drop 1 r) \<and> i = ''view-'' @ drop 1 r)"
proof -
  obtain v where "i = ''view-'' @ v" using assms section_names by blast
  moreover from this have "i \<notin> set nav_items" using section_names(2) [of i] by auto
  ultimately show ?thesis
    using assms by (auto simp: is_hidden_def dom_show_view dom_cleared_view Let_def)
qed

lemma show_view_nav:
  assumes "i \<in> set nav_items"
  shows "''active'' \<in> set (cls (dom (show_view r b) i)) \<longleftrightarrow>
         has_id b (''nav-'' @ drop 1 r) \<and> i = ''nav-'' @ drop 1 r"
proof -
  obtain v where "i = ''nav-'' @ v" using assms section_names by blast
  then show ?thesis
    using assms by (auto simp: dom_show_view dom_cleared_view Let_def)
qed

lemma show_view_shell [simp]: "dom (show_view r b) ''app-shell'' = dom b ''app-shell''"
  using section_names [of "''app-shell''"] by (auto simp: dom_show_view dom_cleared_view Let_def)

lemma distinct_sections: "distinct content_sections" "distinct nav_items"
  by (simp_all add: content_sections_def nav_items_def view_names_def)

lemma filter_single_length: "distinct xs \<Longrightarrow> length (filter (\<lambda>i. P \<and> i = x) xs) \<le> 1"
  by (induction xs) (auto simp: filter_empty_conv)

lemma show_view_single:
  "length (visible_sections (show_view r b)) \<le> 1" "length (active_items (show_view r b)) \<le> 1"
proof -
  have "visible_sections (show_view r b) =
      filter (\<lambda>i. has_id b (''view-'' @ drop 1 r) \<and> i = ''view-'' @ drop 1 r) content_sections"
    unfolding visible_sections_def by (rule filter_cong) (auto simp: show_view_section)
  moreover have "active_items (show_view r b) =
      filter (\<lambda>i. has_id b (''nav-'' @ drop 1 r) \<and> i = ''nav-'' @ drop 1 r) nav_items"
    unfolding active_items_def by (rule filter_cong) (auto simp: show_view_nav)
  ultimately show "length (visible_sections (show_view r b)) \<le> 1" "length (active_items (show_view r b)) \<le> 1"
    by (simp_all only: filter_single_length distinct_sections)
qed

lemma calm_show_view: "calm (show_view r)"
  using show_view_single by (simp add: calm_def portal_ok_def has_token_def stored_def)

lemma view_frame [simp]:
  "visible_sections (b\<lparr>STATE := x\<rparr>) = visible_sections b"
  "visible_sections (b\<lparr>localStorage := ls\<rparr>) = visible_sections b"
  "visible_sections (b\<lparr>reloading := r\<rparr>) = visible_sections b"
  "visible_sections (b\<lparr>hash_listeners := n\<rparr>) = visible_sections b"
  "visible_sections (b\<lparr>sent := rs\<rparr>) = visible_sections b"
  "active_items (b\<lparr>STATE := x\<rparr>) = active_items b"
  "active_items (b\<lparr>localStorage := ls\<rparr>) = active_items b"
  "active_items (b\<lparr>reloading := r\<rparr>) = active_items b"
  "active_items (b\<lparr>hash_listeners := n\<rparr>) = active_items b"
  "active_items (b\<lparr>sent := rs\<rparr>) = active_items b"
  "app_visible (b\<lparr>STATE := x\<rparr>) = app_visible b"
  "app_visible (b\<lparr>localStorage := ls\<rparr>) = app_visible b"
  "app_visible (b\<lparr>reloading := r\<rparr>) = app_visible b"
  "app_visible (b\<lparr>hash_listeners := n\<rparr>) = app_visible b"
  "app_visible (b\<lparr>sent := rs\<rparr>) = app_visible b"
  by (simp_all add: visible_sections_def active_items_def app_visible_def is_hidden_def)

lemma calm_session_end: "calm session_expired" "calm logout"
  by (simp_all add: calm_def portal_ok_def has_token_def session_expired_def logout_def)

lemma calm_listener: "calm (\<lambda>b. b\<lparr>hash_listeners := n b\<rparr>)"
  by (simp add: calm_def portal_ok_def has_token_def stored_def)

lemma calm_id: "calm (\<lambda>b. b)"
  by (simp add: calm_def)

lemma calm_comp: "calm f \<Longrightarrow> calm g \<Longrightarrow> calm (\<lambda>b. f (g b))"
  by (simp add: calm_def)

lemma store_session_ok:
  "token \<noteq> [] \<Longrightarrow> portal_ok b \<Longrightarrow> portal_ok (store_session token username b) \<and> has_token (store_session token username b)"
  by (simp add: portal_ok_def has_token_def stored_def store_session_def token_key_def username_key_def)

lemma shell_not_section: "''app-shell'' \<notin> set content_sections" "''app-shell'' \<notin> set nav_items"
  "''login-container'' \<notin> set content_sections" "''login-container'' \<notin> set nav_items"
  "''display-user'' \<notin> set content_sections" "''display-user'' \<notin> set nav_items"
  using section_names by fastforce+

lemma shell_views:
  "visible_sections (show_app b) = visible_sections b" "active_items (show_app b) = active_items b"
  "visible_sections (show_login b) = visible_sections b" "active_items (show_login b) = active_items b"
  using shell_not_section
  by (auto simp: visible_sections_def active_items_def show_app_def show_login_def elem_ops is_hidden_def
      intro!: filter_cong)

lemma show_app_frame:
  "STATE (show_app b) = STATE b" "localStorage (show_app b) = localStorage b" "sent (show_app b) = sent b"
  "reloading (show_app b) = reloading b" "hash_listeners (show_app b) = hash_listeners b"
  by (simp_all add: show_app_def elem_ops)

lemma calm_show_app: "calm show_app"
  unfolding calm_def
  by (auto simp: portal_ok_def shell_views stored_def has_token_def show_app_frame)

lemma show_login_ok: "portal_ok b \<Longrightarrow> portal_ok (show_login b)"
  by (auto simp: portal_ok_def shell_views stored_def app_visible_def is_hidden_def has_token_def)
     (auto simp: show_login_def elem_ops)

lemma show_login_token [simp]: "has_token (show_login b) = has_token b"
  by (simp add: has_token_def show_login_def elem_ops)

lemma set_hash_session: "portal_ok (set_hash h b) = portal_ok b" "has_token (set_hash h b) = has_token b"
  by (simp_all add: set_hash_def portal_ok_def has_token_def stored_def visible_sections_def active_items_def
      app_visible_def is_hidden_def)

lemma accept_ok: "portal_ok b \<Longrightarrow> portal_ok (accept_sso_token b)"
  "portal_ok b \<Longrightarrow> has_token b \<Longrightarrow> has_token (accept_sso_token b)"
  unfolding accept_sso_token_def Let_def
  by (auto simp: set_hash_session store_session_ok split: option.splits)

lemma calm_accept: "calm accept_sso_token"
  by (simp add: calm_def accept_ok)

lemma calm_sent:
  assumes "has_token b \<Longrightarrow> authorized r" "portal_ok b" "has_token b"
  shows "portal_ok (b\<lparr>sent := sent b @ [r]\<rparr>) \<and> has_token (b\<lparr>sent := sent b @ [r]\<rparr>)"
  using assms by (simp add: portal_ok_def has_token_def stored_def)

end
