(* ===== verification/Portal_Loop.thy ===== *)
theory Portal_Loop
  imports Portal_App
begin

text \<open>
  The invariant \<open>portal_ok\<close> of the event loop: every event handler of the portal keeps it,
  whatever other handlers do and whatever the server answers at each suspension point.
\<close>

subsection \<open>Functions that keep the invariant\<close>

text \<open>
  \<open>mild\<close>: under any circumstances; \<open>tame\<close>: when started with a session token. The token
  is never dropped from \<^verbatim>\<open>STATE\<close> while the page lives, so a function suspended with a token
  is resumed with one.
\<close>

abbreviation portal_keeps :: "app_proc \<Rightarrow> browser \<Rightarrow> browser \<Rightarrow> bool" where
  "portal_keeps \<equiv> keeps answers portal_ok token_kept"

definition mild :: "app_proc \<Rightarrow> bool" where
  "mild p \<longleftrightarrow> (\<forall>a b. portal_ok b \<longrightarrow> token_kept a b \<longrightarrow> portal_keeps p a b)"

definition tame :: "app_proc \<Rightarrow> bool" where
  "tame p \<longleftrightarrow> (\<forall>a b. portal_ok b \<longrightarrow> has_token b \<longrightarrow> portal_keeps p a b)"

interpretation kept: rely token_kept
  by unfold_locales (auto simp: token_kept_def)

named_theorems tame_intros \<open>functions that keep the invariant of a logged-in page\<close>

lemma mild_tame: "mild p \<Longrightarrow> tame p"
  by (simp add: mild_def tame_def token_kept_def)

lemma tameD: "tame p \<Longrightarrow> portal_ok b \<Longrightarrow> has_token b \<Longrightarrow> portal_keeps p a b"
  by (simp add: tame_def)

lemma mild_Done: "mild Done"
  by (simp add: mild_def)

lemma mild_Do: "quiet f \<Longrightarrow> mild p \<Longrightarrow> mild (Do f p)"
  unfolding mild_def
proof (intro allI impI)
  fix a b assume f: "quiet f" and p: "\<forall>a b. portal_ok b \<longrightarrow> token_kept a b \<longrightarrow> portal_keeps p a b"
    and b: "portal_ok b" "token_kept a b"
  from f have s: "same_session b (f b)" by (rule quietD)
  with b have "portal_ok (f b)" "token_kept a (f b)"
    by (auto intro: same_session_ok simp: token_kept_def same_session_token [OF s])
  with p show "portal_keeps (Do f p) a b" by simp
qed

lemma mild_Await: "(\<And>r. answers q r \<Longrightarrow> mild (k r)) \<Longrightarrow> mild (Await q k)"
  by (auto simp: mild_def kept.rely_refl)

lemma tame_Done [tame_intros]: "tame Done"
  by (simp add: mild_tame mild_Done)

lemma tame_Do: "calm f \<Longrightarrow> tame p \<Longrightarrow> tame (Do f p)"
  by (simp add: tame_def calm_def)

lemma tame_Do_quiet [tame_intros]: "quiet f \<Longrightarrow> tame p \<Longrightarrow> tame (Do f p)"
  by (simp add: tame_Do quiet_calm)

lemma tame_Read [tame_intros]: "(\<And>b. tame (f b)) \<Longrightarrow> tame (Read f)"
  by (simp add: tame_def)

lemma tame_Call [tame_intros]:
  assumes "tame p" "tame k" shows "tame (Call p k)"
  unfolding tame_def
proof (intro allI impI)
  fix a b assume b: "portal_ok b" "has_token b"
  obtain s ws where r: "run p b = (s, ws)" by force
  from kept.run_keeps [OF tameD [OF assms(1) b, of b] r] b
  have "portal_ok s" "has_token s" by (auto simp: token_kept_def)
  with assms b r show "portal_keeps (Call p k) a b"
    by (simp add: tameD)
qed

lemma tame_Await [tame_intros]: "(\<And>r. answers q r \<Longrightarrow> tame (k r)) \<Longrightarrow> tame (Await q k)"
  by (auto simp: tame_def token_kept_def)

lemma tame_if [tame_intros]: "(c \<Longrightarrow> tame p) \<Longrightarrow> (\<not> c \<Longrightarrow> tame q) \<Longrightarrow> tame (if c then p else q)"
  by simp

lemma tame_fetch:
  assumes "\<And>b. has_token b \<Longrightarrow> authorized (rq b)" "\<And>r. tame (k r)"
  shows "tame (fetch rq k)"
proof -
  have "tame (intercept url k a)" for a url
    using assms(2)
    by (auto simp: intercept_def split: answer.split fetch_result.split intro: tame_Do calm_session_end tame_Done)
  then have await: "tame (Await (Fetch r) (intercept url k))" for r url
    by (intro tame_Await)
  show ?thesis
    unfolding tame_def fetch_def Let_def keeps.simps(2,3)
    using calm_sent [OF assms(1)] by (blast intro: tameD [OF await])
qed

lemma authorized_requests:
  "has_token b \<Longrightarrow> authorized (get_request url b)"
  "has_token b \<Longrightarrow> authorized (delete_request url b)"
  "has_token b \<Longrightarrow> authorized (post_request url flds b)"
  by (simp_all add: authorized_def has_token_def get_request_def delete_request_def post_request_def
      getHeaders_def js_startsWith_def)

lemma tame_try_fetch:
  assumes "\<And>b. has_token b \<Longrightarrow> authorized (rq b)" "\<And>m. tame (c m)" "\<And>res. tame (k res)"
  shows "tame (try_fetch rq c k)"
  unfolding try_fetch_def
  by (rule tame_fetch) (use assms in \<open>auto split: fetch_result.split\<close>)

lemma tame_requests [tame_intros]:
  assumes "\<And>m. tame (c m)" "\<And>res. tame (k res)"
  shows "tame (try_fetch (get_request url) c k)" "tame (try_fetch (delete_request url) c k)"
    "tame (try_fetch (\<lambda>b. post_request url (flds b) b) c k)"
  using assms by (simp_all add: tame_try_fetch authorized_requests)

lemma tame_try_json [tame_intros]:
  "(\<And>m. tame (c m)) \<Longrightarrow> (\<And>p. tame (k p)) \<Longrightarrow> tame (try_json res c k)"
  unfolding try_json_def by (rule tame_Await) (auto split: answer.split sum.split intro: tame_Done)

lemma tame_try_text [tame_intros]:
  "(\<And>m. tame (c m)) \<Longrightarrow> (\<And>p. tame (k p)) \<Longrightarrow> tame (try_text res c k)"
  unfolding try_text_def by (rule tame_Await) (auto split: answer.split sum.split intro: tame_Done)

lemma tame_guards [tame_intros]:
  "tame p \<Longrightarrow> tame (if_token p)" "tame p \<Longrightarrow> tame (if_id i p)"
  by (simp_all add: if_token_def if_id_def tame_Read tame_Done)

lemma quiet_set:
  "unprotected i \<Longrightarrow> quiet (set_innerText i t)" "unprotected i \<Longrightarrow> quiet (set_innerHTML i t)"
  "unprotected i \<Longrightarrow> quiet (class_add i c)"
  by (simp_all add: quiet_elem_ops unprotected_not_mem)

lemma unprotected_ids [simp]:
  "unprotected ''connections-grid''" "unprotected ''endpoints-table-body''" "unprotected ''logs-table-body''"
  "unprotected ''vault-table-body''" "unprotected ''tokens-table-body''" "unprotected ''openapi-code-block''"
  "unprotected ''connection-modal''" "unprotected ''endpoint-modal''" "unprotected ''token-modal''"
  by (simp_all add: unprotected_def)

lemma tame_error [tame_intros]:
  "tame (connections_error m)" "tame (endpoints_error m)" "tame (logs_error m)" "tame (vault_error m)"
  "tame (settings_error m)" "tame (openapi_error m)" "tame (tokens_error m)" "tame (telemetry_error m)"
  "tame (toast_error m)" "tame (login_error m)"
  by (simp_all add: connections_error_def endpoints_error_def logs_error_def vault_error_def settings_error_def
      openapi_error_def tokens_error_def telemetry_error_def toast_error_def login_error_def
      tame_intros quiet_set quiet_intros)

lemma tame_json_cases [tame_intros]:
  "(\<And>x. tame (k x)) \<Longrightarrow> tame (case p of JOpStats x \<Rightarrow> k x | _ \<Rightarrow> Done)"
  "(\<And>x. tame (k' x)) \<Longrightarrow> tame (case p of JSettings x \<Rightarrow> k' x | _ \<Rightarrow> Done)"
  "(\<And>x. tame (k'' x)) \<Longrightarrow> tame (case p of JSpec x \<Rightarrow> k'' x | _ \<Rightarrow> Done)"
  by (cases p; simp add: tame_Done)+

lemma tame_loaders [tame_intros]:
  "tame (load_op_stats res)" "tame loadDashboardStats" "tame loadConnections" "tame load_endpoint_rows"
  "tame loadEndpoints" "tame loadAuditLogs" "tame loadVaultSecrets" "tame loadSettingsConfig"
  "tame loadOpenAPIDocs" "tame loadClientTokens" "tame load_log_charts" "tame loadTelemetry"
  unfolding load_op_stats_def loadDashboardStats_def loadConnections_def load_endpoint_rows_def
    loadEndpoints_def loadAuditLogs_def loadVaultSecrets_def loadSettingsConfig_def loadOpenAPIDocs_def
    loadClientTokens_def load_log_charts_def loadTelemetry_def
  by (intro tame_intros quiet_intros quiet_set unprotected_ids)+

lemma tame_forms [tame_intros]:
  "tame (deleteConnection i c)" "tame (deleteEndpoint i c)" "tame (deleteVaultSecret k c)"
  "tame (deleteClientToken t c)" "tame (report_error res d)" "tame submit_connection" "tame submit_endpoint"
  "tame submit_vault" "tame submit_token"
  unfolding deleteConnection_def deleteEndpoint_def deleteVaultSecret_def deleteClientToken_def
    report_error_def submit_connection_def submit_endpoint_def submit_vault_def submit_token_def Let_def
  by (intro tame_intros quiet_intros quiet_set unprotected_ids)+

lemma tame_copy_schema [tame_intros]: "tame copy_schema"
proof -
  have "tame (case a of AClip True \<Rightarrow>
             Do (\<lambda>b. showToast ''OpenAPI JSON copied to clipboard'' ''success'' (b\<lparr>clipboard := code\<rparr>)) Done
         | AClip False \<Rightarrow> toast_error ''Failed to copy text'' | _ \<Rightarrow> Done)" for a code
    by (auto split: answer.split bool.split intro!: tame_intros quiet_intros)
  then show ?thesis
    unfolding copy_schema_def Let_def by (intro tame_Read tame_Await)
qed

lemma tame_route [tame_intros]: "tame handleRoute"
  unfolding handleRoute_def route_loaders_def Let_def
  by (intro tame_intros quiet_intros tame_Do [OF calm_show_view])

lemma tame_listeners [tame_intros]: "tame (run_listeners n)"
  by (induction n) (auto intro: tame_intros)

lemma tame_session [tame_intros]: "tame bootstrapApp" "tame initAuth"
proof -
  show boot: "tame bootstrapApp"
    unfolding bootstrapApp_def setupRouter_def
    by (intro tame_intros quiet_intros tame_Do [OF calm_listener])
  have "calm show_login" by (simp add: calm_def show_login_ok)
  then show "tame initAuth"
    unfolding initAuth_def by (intro tame_intros boot tame_Do calm_accept calm_show_app)
qed

text \<open>The functions that start without a session.\<close>

lemma keeps_initAuth: "portal_ok b \<Longrightarrow> token_kept a b \<Longrightarrow> portal_keeps initAuth a b"
proof (cases "has_token (accept_sso_token b)")
  case True
  assume "portal_ok b"
  then have "portal_ok (show_app (accept_sso_token b)) \<and> has_token (show_app (accept_sso_token b))"
    using True calm_show_app accept_ok by (simp add: calm_def)
  then show ?thesis
    using True tameD [OF tame_session(1)] by (simp add: initAuth_def has_token_def)
next
  case False
  assume "portal_ok b" "token_kept a b"
  then show ?thesis
    using False accept_ok show_login_ok by (auto simp: initAuth_def token_kept_def has_token_def)
qed

lemma mild_toast_error: "mild (toast_error m)"
  by (simp add: toast_error_def mild_Do mild_Done quiet_intros)

lemma mild_try_json: "(\<And>m. mild (c m)) \<Longrightarrow> (\<And>p. mild (k p)) \<Longrightarrow> mild (try_json res c k)"
  unfolding try_json_def by (rule mild_Await) (auto split: answer.split sum.split intro: mild_Done)

lemma mild_login_fetch:
  assumes "\<And>r. mild (k r)" shows "mild (fetch login_request k)"
proof -
  have "mild (intercept (rq_url (login_request b)) k a)" for a b
    using assms
    by (auto simp: intercept_def login_request_def js_startsWith_def split: answer.split fetch_result.split
        intro: mild_Done)
  then have await: "mild (Await q (intercept (rq_url (login_request b)) k))" for q b
    by (intro mild_Await)
  have "portal_ok (b\<lparr>sent := sent b @ [login_request b]\<rparr>) \<and> token_kept a (b\<lparr>sent := sent b @ [login_request b]\<rparr>)"
    if "portal_ok b" "token_kept a b" for a b
    using that by (simp add: portal_ok_def has_token_def stored_def token_kept_def login_request_def)
  with await show ?thesis
    unfolding mild_def fetch_def Let_def keeps.simps(2,3) by blast
qed

lemma mild_accepted_login:
  assumes "token \<noteq> []"
  shows "mild (Do (store_session token user) (Call initAuth (Do (showToast m t) Done)))"
  unfolding mild_def keeps.simps(2)
  using store_session_ok [OF assms] tame_Call [OF tame_session(2) tame_Do_quiet [OF quiet_showToast tame_Done]]
  by (blast intro: tameD)

lemma mild_submit_login: "mild submit_login"
  unfolding submit_login_def try_fetch_def
proof (rule mild_login_fetch, goal_cases)
  case (1 r)
  then show ?case
    by (auto split: fetch_result.split intro!: mild_try_json mild_toast_error mild_accepted_login
        simp: login_error_def)
qed

lemma mild_act: "quiet f \<Longrightarrow> mild (act f)"
  by (simp add: act_def mild_Do mild_Done)

lemma tame_act: "calm f \<Longrightarrow> tame (act f)"
  by (simp add: act_def tame_Do tame_Done)

lemma keeps_hashchange:
  assumes "portal_ok b" shows "portal_keeps on_hashchange b b"
proof -
  let ?b = "b\<lparr>hash_events := hash_events b - 1\<rparr>"
  have s: "same_session b ?b" by (rule quietD) (rule quiet_simple)
  then have ok: "portal_ok ?b" using assms by (rule same_session_ok)
  show ?thesis
  proof (cases "hash_listeners b")
    case 0
    with ok s show ?thesis by (simp add: on_hashchange_def token_kept_def same_session_token)
  next
    case (Suc n)
    then have "has_token ?b" using assms by (simp add: portal_ok_def has_token_def)
    with ok tameD [OF tame_listeners] show ?thesis by (simp add: on_hashchange_def)
  qed
qed

lemma keeps_in_app:
  assumes "portal_ok b" "in_app b p = Some q" "tame p" shows "portal_keeps q b b"
  using assms by (auto simp: in_app_def portal_ok_def split: if_splits intro: tameD)

lemma load_page_ok: "portal_ok (load_page env)"
  by (simp add: portal_ok_def load_page_def Let_def stored_def has_token_def visible_sections_def active_items_def
      app_visible_def is_hidden_def page_elem_def page_classes_def content_sections_def nav_items_def view_names_def)

text \<open>Every handler keeps the invariant.\<close>

definition guarded :: "browser \<Rightarrow> app_proc \<Rightarrow> bool" where
  "guarded b p \<longleftrightarrow> (if app_visible b then tame p else mild p)"

lemma guarded_mild: "mild p \<Longrightarrow> guarded b p"
  by (simp add: guarded_def mild_tame)

lemma guarded_in_app: "in_app b p = Some q \<Longrightarrow> tame p \<Longrightarrow> guarded b q"
  by (auto simp: guarded_def in_app_def split: if_splits)

lemma guarded_keeps: "guarded b p \<Longrightarrow> portal_ok b \<Longrightarrow> portal_keeps p b b"
  by (auto simp: guarded_def mild_def portal_ok_def kept.rely_refl intro: tameD split: if_splits)

lemma handler_guarded:
  "handler b e = Some p \<Longrightarrow> e \<noteq> Load \<Longrightarrow> e \<noteq> HashChange \<Longrightarrow> guarded b p"
  by (cases e)
    (auto split: if_splits elim!: guarded_in_app intro!: tame_intros tame_act calm_session_end quiet_calm
      quiet_intros mild_act mild_submit_login intro: guarded_mild)

lemma handler_keeps:
  assumes ok: "portal_ok b" and h: "handler b e = Some p"
  shows "portal_keeps p b b"
proof (cases "e = Load \<or> e = HashChange")
  case False
  with h ok show ?thesis by (blast intro: guarded_keeps handler_guarded)
next
  case True
  let ?b = "b\<lparr>loaded := True\<rparr>"
  have "same_session b ?b" by (rule quietD) (rule quiet_simple)
  then have "portal_ok ?b" "token_kept b ?b"
    using ok by (auto intro: same_session_ok simp: token_kept_def same_session_token)
  from keeps_initAuth [OF this] keeps_hashchange [OF ok] True h show ?thesis
    by (auto split: if_splits)
qed

interpretation portal: loop_invariant token_kept answers handler page_loaded portal_ok
proof unfold_locales
  fix b assume "page_loaded b"
  then show "portal_ok b" by (auto simp: page_loaded_def load_page_ok)
next
  fix b e p assume "portal_ok b" "handler b e = Some p"
  then show "portal_keeps p b b" by (rule handler_keeps)
qed

subsection \<open>What a function does before it is suspended\<close>

text \<open>
  A relation that every update outside the session satisfies also relates the states before and after
  the synchronous part of every loader.
\<close>

locale stable =
  fixes Q :: "browser \<Rightarrow> browser \<Rightarrow> bool"
  assumes Q_same: "same_session b c \<Longrightarrow> Q b c"
    and Q_trans: "Q a b \<Longrightarrow> Q b c \<Longrightarrow> Q a c"
    and Q_sent: "Q b (b\<lparr>sent := rs\<rparr>)"
begin

definition moves :: "app_proc \<Rightarrow> bool" where
  "moves p \<longleftrightarrow> (\<forall>b. Q b (fst (run p b)))"

lemma moves_Done: "moves Done"
  by (simp add: moves_def Q_same)

lemma moves_Do: "(\<And>b. Q b (f b)) \<Longrightarrow> moves p \<Longrightarrow> moves (Do f p)"
  unfolding moves_def by (metis Q_trans run.simps(2))

lemma moves_quiet: "quiet f \<Longrightarrow> moves p \<Longrightarrow> moves (Do f p)"
  by (rule moves_Do) (auto intro: Q_same quietD)

lemma moves_Read: "(\<And>b. moves (f b)) \<Longrightarrow> moves (Read f)"
  by (simp add: moves_def)

lemma moves_Await: "moves (Await q k)"
  by (simp add: moves_def Q_same)

lemma moves_Call: "moves p \<Longrightarrow> moves k \<Longrightarrow> moves (Call p k)"
  unfolding moves_def by (auto simp: split_beta intro: Q_trans)

lemma moves_if: "(c \<Longrightarrow> moves p) \<Longrightarrow> (\<not> c \<Longrightarrow> moves q) \<Longrightarrow> moves (if c then p else q)"
  by simp

lemma moves_fetch: "moves (try_fetch rq c k)"
  unfolding try_fetch_def fetch_def Let_def
  by (intro moves_Read moves_Do moves_Await) (rule Q_sent)

lemma moves_guards: "moves p \<Longrightarrow> moves (if_token p)" "moves p \<Longrightarrow> moves (if_id i p)"
  by (simp_all add: if_token_def if_id_def moves_Read moves_Done)

lemmas moves_intros =
  moves_Done moves_quiet moves_Read moves_Await moves_Call moves_if moves_fetch moves_guards

lemma moves_loaders:
  "moves loadDashboardStats" "moves loadConnections" "moves load_endpoint_rows" "moves loadEndpoints"
  "moves loadAuditLogs" "moves loadVaultSecrets" "moves loadSettingsConfig" "moves loadOpenAPIDocs"
  "moves loadClientTokens" "moves loadTelemetry"
  unfolding loadDashboardStats_def loadConnections_def load_endpoint_rows_def
    loadEndpoints_def loadAuditLogs_def loadVaultSecrets_def loadSettingsConfig_def loadOpenAPIDocs_def
    loadClientTokens_def loadTelemetry_def
  by (intro moves_intros quiet_intros quiet_set unprotected_ids)+

lemma moves_route: "moves (route_loaders r)"
  unfolding route_loaders_def by (intro moves_intros moves_loaders)

end

definition same_view :: "browser \<Rightarrow> browser \<Rightarrow> bool" where
  "same_view b c \<longleftrightarrow> (\<forall>i \<in> set protected_ids. dom c i = dom b i)"

definition same_login :: "browser \<Rightarrow> browser \<Rightarrow> bool" where
  "same_login b c \<longleftrightarrow>
     st_token (STATE c) = st_token (STATE b) \<and> localStorage c token_key = localStorage b token_key \<and>
     dom c ''app-shell'' = dom b ''app-shell''"

interpretation view: stable same_view
  by unfold_locales (auto simp: same_view_def same_session_def)

interpretation login: stable same_login
  by unfold_locales (auto simp: same_login_def same_session_def protected_ids_def)

lemma same_view_sections:
  "same_view b c \<Longrightarrow> visible_sections c = visible_sections b"
  "same_view b c \<Longrightarrow> active_items c = active_items b"
  by (auto simp: same_view_def visible_sections_def active_items_def is_hidden_def protected_ids_def
      intro!: filter_cong)

lemma filter_eq_single: "distinct xs \<Longrightarrow> filter (\<lambda>i. i = x) xs = (if x \<in> set xs then [x] else [])"
  by (induction xs) (auto simp: filter_empty_conv)

lemma show_view_shown:
  assumes "ids b = page_ids"
  shows "visible_sections (show_view r b) = filter (\<lambda>i. i = ''view-'' @ drop 1 r) content_sections"
    "active_items (show_view r b) = filter (\<lambda>i. i = ''nav-'' @ drop 1 r) nav_items"
  unfolding visible_sections_def active_items_def using assms
  by (auto simp: show_view_section show_view_nav has_id_def page_ids_def intro!: filter_cong simp del: append_Cons append_Nil)

lemma handleRoute_shown:
  assumes "ids b = page_ids" "current_route b \<notin> {''#vault'', ''#openapi''}"
  shows "visible_sections (fst (run handleRoute b)) = filter (\<lambda>i. i = ''view-'' @ drop 1 (current_route b)) content_sections"
    "active_items (fst (run handleRoute b)) = filter (\<lambda>i. i = ''nav-'' @ drop 1 (current_route b)) nav_items"
proof -
  have "same_view (show_view (current_route b) b) (fst (run handleRoute b))"
    using assms(2) view.moves_route by (simp add: handleRoute_def Let_def view.moves_def)
  then show "visible_sections (fst (run handleRoute b)) = filter (\<lambda>i. i = ''view-'' @ drop 1 (current_route b)) content_sections"
    "active_items (fst (run handleRoute b)) = filter (\<lambda>i. i = ''nav-'' @ drop 1 (current_route b)) nav_items"
    using show_view_shown [OF assms(1), of "current_route b"] by (simp_all only: same_view_sections)
qed

lemma login_steps:
  "login.moves handleRoute" "login.moves bootstrapApp"
proof -
  show route: "login.moves handleRoute"
    unfolding handleRoute_def Let_def
    by (intro login.moves_intros quiet_intros login.moves_Do [of "show_view _"] login.moves_route)
      (simp add: same_login_def)
  have "login.moves setupRouter"
    unfolding setupRouter_def by (intro route login.moves_Do) (simp add: same_login_def)
  then show "login.moves bootstrapApp"
    unfolding bootstrapApp_def by (intro login.moves_intros login.moves_loaders quiet_intros)
qed

lemma run_initAuth:
  "st_token (STATE (accept_sso_token b)) \<noteq> [] \<Longrightarrow>
   same_login (show_app (accept_sso_token b)) (fst (run initAuth b))"
  "st_token (STATE (accept_sso_token b)) = [] \<Longrightarrow> run initAuth b = (show_login (accept_sso_token b), [])"
  using login_steps(2) by (simp_all add: initAuth_def login.moves_def)

lemma show_app_visible: "app_visible (show_app b)"
  by (simp add: app_visible_def is_hidden_def show_app_def elem_ops)

lemma same_login_visible: "same_login b c \<Longrightarrow> app_visible c = app_visible b"
  by (simp add: same_login_def app_visible_def is_hidden_def)

lemma same_login_trans: "same_login a b \<Longrightarrow> same_login b c \<Longrightarrow> same_login a c"
  by (simp add: same_login_def)

lemma set_hash_frame [simp]: "STATE (set_hash h b) = STATE b" "localStorage (set_hash h b) = localStorage b"
  by (simp_all add: set_hash_def)

lemma initAuth_with_token:
  assumes "st_token (STATE (accept_sso_token b)) \<noteq> []"
  shows "app_visible (fst (run initAuth b)) \<and>
    st_token (STATE (fst (run initAuth b))) = st_token (STATE (accept_sso_token b)) \<and>
    localStorage (fst (run initAuth b)) token_key = localStorage (accept_sso_token b) token_key"
  using run_initAuth(1) [OF assms] show_app_visible same_login_visible
  by (fastforce simp: same_login_def show_app_frame)

text \<open>The login form, answered with a token.\<close>

lemma drive_login:
  assumes "res_ok res" "body res = Inr (JLogin t u)" "t \<noteq> []"
    and "\<not> js_startsWith (loc_hash (h (g (fst (run submit_login b))))) ''#token=''"
  shows "app_visible (drive submit_login b [(g, AFetch (Resp res)), (h, AJson (body res))]) \<and>
    st_token (STATE (drive submit_login b [(g, AFetch (Resp res)), (h, AJson (body res))])) = t \<and>
    stored (drive submit_login b [(g, AFetch (Resp res)), (h, AJson (body res))]) token_key = t"
proof -
  define d where "d = store_session t u (h (g (fst (run submit_login b))))"
  have "drive submit_login b [(g, AFetch (Resp res)), (h, AJson (body res))] =
      showToast ''Authenticated successfully'' ''success'' (fst (run initAuth d))"
    using assms(1-3)
    by (simp add: submit_login_def try_fetch_def fetch_def intercept_ok try_json_def Let_def login_token_def
        login_username_def d_def split_beta)
  moreover have "accept_sso_token d = d"
    using assms(4) by (simp add: accept_sso_token_def d_def store_session_def)
  moreover have "st_token (STATE d) = t" "localStorage d token_key = Some t"
    by (simp_all add: d_def store_session_def token_key_def username_key_def)
  ultimately show ?thesis
    using initAuth_with_token [of d] assms(3) by (simp add: stored_def app_visible_def is_hidden_def)
qed

text \<open>A page loaded with a stored session, and the same page after \<^verbatim>\<open>window.onload\<close>, for the examples.\<close>

definition sample_env :: page_env where
  "sample_env =
     \<lparr>env_storage = [token_key \<mapsto> ''t1'', username_key \<mapsto> ''admin''], env_hash = [], env_host = ''localhost:8080'',
      env_protocol = ''http:'', env_date = (\<lambda>s. s), env_width = (\<lambda>_. 600), env_docs = []\<rparr>"

definition sample_booted :: app_machine where
  "sample_booted =
     (let (b, ws) = run initAuth ((load_page sample_env)\<lparr>loaded := True\<rparr>) in \<lparr>mem = b, waiting = ws\<rparr>)"

lemma sample_reach: "portal_reach sample_booted"
proof (rule reach.step)
  show "portal_reach \<lparr>mem = load_page sample_env, waiting = []\<rparr>"
    by (rule reach.start) (auto simp: page_loaded_def)
  have "\<not> loaded (load_page sample_env)" by (simp add: load_page_def Let_def)
  then show "turn answers handler \<lparr>mem = load_page sample_env, waiting = []\<rparr> (Event Load) = Some sample_booted"
    by (simp add: sample_booted_def split_beta)
qed

section \<open>Properties\<close>

text \<open>C2: In every state the portal can reach, whatever the server answers and in whatever order events and
  answers arrive: the token the page uses is the stored one (unless the page is being reloaded), and the
  application is shown only with a token.\<close>

theorem session_invariant:
  assumes "portal_reach m"
  shows "(reloading (mem m) \<or> st_token (STATE (mem m)) = stored (mem m) token_key) \<and>
    (app_visible (mem m) \<longrightarrow> st_token (STATE (mem m)) \<noteq> [])"
  using portal.reach_inv [OF assms] by (auto simp: portal_ok_def has_token_def)

theorem session_invariant_witness:
  "reloading (mem sample_booted) \<or> st_token (STATE (mem sample_booted)) = stored (mem sample_booted) token_key"
  using session_invariant [OF sample_reach] by blast

text \<open>C1: In every reachable state, every request the page ever sent is the login request or carries a bearer
  token that is not empty.\<close>

theorem requests_authorized:
  assumes "portal_reach m"
  shows "\<forall>r \<in> set (sent (mem m)). rq_url r = ''/api/auth/login'' \<or> authorized r"
  using portal.reach_inv [OF assms] by (simp add: portal_ok_def list_all_iff)

theorem requests_authorized_witness:
  "list_all (\<lambda>r. rq_url r = ''/api/auth/login'' \<or> authorized r) (sent (mem sample_booted))"
  using requests_authorized [OF sample_reach] by (simp add: list_all_iff)

text \<open>C33: In every reachable state at most one section of the application is shown and at most one entry of
  the menu is marked.\<close>

theorem single_view:
  assumes "portal_reach m"
  shows "length (visible_sections (mem m)) \<le> 1 \<and> length (active_items (mem m)) \<le> 1"
  using portal.reach_inv [OF assms] by (simp add: portal_ok_def)

theorem single_view_witness:
  "length (visible_sections (mem sample_booted)) \<le> 1"
  using single_view [OF sample_reach] by blast

text \<open>The router shows exactly the section of the route and marks its menu entry; for a route without a
  section it hides everything.\<close>

theorem router_shows_route:
  assumes "ids b = page_ids" "current_route b \<notin> {''#vault'', ''#openapi''}"
  shows "visible_sections (fst (run handleRoute b)) =
      (if ''view-'' @ drop 1 (current_route b) \<in> set content_sections then [''view-'' @ drop 1 (current_route b)] else []) \<and>
    active_items (fst (run handleRoute b)) =
      (if ''nav-'' @ drop 1 (current_route b) \<in> set nav_items then [''nav-'' @ drop 1 (current_route b)] else [])"
  unfolding handleRoute_shown [OF assms]
  by (simp only: filter_eq_single distinct_sections)

theorem router_shows_route_witness:
  "visible_sections (fst (run handleRoute (load_page sample_env))) = [''view-dashboard'']"
  using router_shows_route [of "load_page sample_env"]
  by (simp add: load_page_def sample_env_def Let_def current_route_def content_sections_def view_names_def)

text \<open>The routes of earlier versions, \<^verbatim>\<open>#vault\<close> and \<^verbatim>\<open>#openapi\<close>, end up on the settings page: the fragment is
  replaced, and the event this causes shows that section.\<close>

theorem legacy_routes:
  assumes "ids b = page_ids" "loc_hash b \<in> {''#vault'', ''#openapi''}"
  shows "let c = fst (run handleRoute b)
    in loc_hash c = ''#settings'' \<and> hash_events c = hash_events b + 1 \<and>
       visible_sections (fst (run handleRoute c)) = [''view-settings'']"
proof -
  define c where "c = fst (run handleRoute b)"
  have c: "c = set_hash ''#settings'' b"
    using assms(2) by (auto simp: c_def handleRoute_def current_route_def)
  then have h: "loc_hash c = ''#settings''" "hash_events c = hash_events b + 1" "ids c = page_ids"
    using assms by (auto simp: set_hash_def)
  then have "visible_sections (fst (run handleRoute c)) = filter (\<lambda>i. i = ''view-'' @ drop 1 (current_route c)) content_sections"
    by (intro handleRoute_shown) (simp_all add: current_route_def)
  then show ?thesis
    using h by (simp add: c_def [symmetric] current_route_def content_sections_def view_names_def)
qed

theorem legacy_routes_witness:
  "loc_hash (fst (run handleRoute (load_page (sample_env\<lparr>env_hash := ''#vault''\<rparr>)))) = ''#settings''"
  using legacy_routes [of "load_page (sample_env\<lparr>env_hash := ''#vault''\<rparr>)"]
  by (simp add: load_page_def Let_def)

end
