(* ===== verification/Portal_Progress.thy ===== *)
theory Portal_Progress
  imports Portal_Async
begin

text \<open>
  Progress of the event loop. A suspended function that is resumed goes on with a part of what it
  had left to do, so that answers alone cannot keep the loop busy for ever: the functions that are
  suspended decrease in the multiset order over the part-of relation of \<open>proc\<close>. And a promise
  the code makes to its user: a state shown only while an answer is awaited (a placeholder) is left
  once every answer has arrived, if every function that shows it is suspended with code that takes
  it away.
\<close>

section \<open>Definitions\<close>

text \<open>The rest of a function after one of its steps.\<close>

inductive_set part :: "(('s, 'q, 'r) proc \<times> ('s, 'q, 'r) proc) set" where
  part_Do: "(p, Do f p) \<in> part"
| part_Read: "(f s, Read f) \<in> part"
| part_Call1: "(p, Call p k) \<in> part"
| part_Call2: "(k, Call p k) \<in> part"
| part_Await: "(k r, Await q k) \<in> part"

fun awaiting :: "('s, 'q, 'r) suspended \<Rightarrow> ('s, 'q, 'r) proc" where
  "awaiting (q, k) = Await q k"

definition backlog :: "('s, 'q, 'r) machine \<Rightarrow> ('s, 'q, 'r) proc multiset" where
  "backlog m = mset (map awaiting (waiting m))"

text \<open>
  The environment answers: a schedule picks a suspended function and an answer for it. An answer
  that the function cannot get changes nothing.
\<close>

definition serve ::
  "('q \<Rightarrow> 'r \<Rightarrow> bool) \<Rightarrow> ('s \<Rightarrow> 'e \<Rightarrow> ('s, 'q, 'r) proc option) \<Rightarrow>
   (('s, 'q, 'r) machine \<Rightarrow> nat \<times> 'r) \<Rightarrow> ('s, 'q, 'r) machine \<Rightarrow> ('s, 'q, 'r) machine" where
  "serve answers handler sched m =
     (case turn answers handler m (Resume (fst (sched m)) (snd (sched m))) of None \<Rightarrow> m | Some m' \<Rightarrow> m')"

text \<open>
  \<open>owed answers L p s\<close>: run from \<open>s\<close>, \<open>p\<close> leaves a function suspended that takes \<open>L\<close> away
  when it is resumed, or leaves such a function suspended in turn. \<open>later\<close>: no segment of \<open>p\<close>
  after the first brings \<open>L\<close> about without such a function.
\<close>

primrec owed ::
  "('q \<Rightarrow> 'r \<Rightarrow> bool) \<Rightarrow> ('s \<Rightarrow> bool) \<Rightarrow> ('s, 'q, 'r) proc \<Rightarrow> 's \<Rightarrow> bool" where
  "owed answers L Done s = False"
| "owed answers L (Do f p) s = owed answers L p (f s)"
| "owed answers L (Read f) s = owed answers L (f s) s"
| "owed answers L (Call p k) s = (owed answers L p s \<or> owed answers L k (fst (run p s)))"
| "owed answers L (Await q k) s =
     (\<forall>r t. answers q r \<longrightarrow> L (fst (run (k r) t)) \<longrightarrow> owed answers L (k r) t)"

primrec later :: "('q \<Rightarrow> 'r \<Rightarrow> bool) \<Rightarrow> ('s \<Rightarrow> bool) \<Rightarrow> ('s, 'q, 'r) proc \<Rightarrow> bool" where
  "later answers L Done = True"
| "later answers L (Do f p) = later answers L p"
| "later answers L (Read f) = (\<forall>s. later answers L (f s))"
| "later answers L (Call p k) = (later answers L p \<and> later answers L k)"
| "later answers L (Await q k) =
     (\<forall>r. answers q r \<longrightarrow> later answers L (k r) \<and>
        (\<forall>s. L (fst (run (k r) s)) \<longrightarrow> L s \<or> owed answers L (k r) s))"

definition honest :: "('q \<Rightarrow> 'r \<Rightarrow> bool) \<Rightarrow> ('s \<Rightarrow> bool) \<Rightarrow> ('s, 'q, 'r) proc \<Rightarrow> bool" where
  "honest answers L p \<longleftrightarrow>
     later answers L p \<and> (\<forall>s. L (fst (run p s)) \<longrightarrow> L s \<or> owed answers L p s)"

definition clears :: "('q \<Rightarrow> 'r \<Rightarrow> bool) \<Rightarrow> ('s \<Rightarrow> bool) \<Rightarrow> ('s, 'q, 'r) proc \<Rightarrow> bool" where
  "clears answers L p \<longleftrightarrow> (\<forall>s. L (fst (run p s)) \<longrightarrow> owed answers L p s)"

definition promised :: "('q \<Rightarrow> 'r \<Rightarrow> bool) \<Rightarrow> ('s \<Rightarrow> bool) \<Rightarrow> ('s, 'q, 'r) machine \<Rightarrow> bool" where
  "promised answers L m \<longleftrightarrow>
     list_all (\<lambda>w. later answers L (awaiting w)) (waiting m) \<and>
     (L (mem m) \<longrightarrow> list_ex (\<lambda>w. owed answers L (awaiting w) (mem m)) (waiting m))"

section \<open>Answers run out\<close>

inductive_cases partE: "(p, q) \<in> part"

lemma wf_part: "wf part"
proof (rule wfUNIVI)
  fix P :: "('s, 'q, 'r) proc \<Rightarrow> bool" and p
  assume step: "\<forall>p. (\<forall>q. (q, p) \<in> part \<longrightarrow> P q) \<longrightarrow> P p"
  show "P p"
    by (induction p) (rule step [rule_format], auto elim: partE)+
qed

lemma run_suspended: "w \<in> set (snd (run p s)) \<Longrightarrow> (awaiting w, p) \<in> part\<^sup>*"
proof (induction p arbitrary: s)
  case (Call p k)
  then show ?case
    by (auto simp: split_beta intro: rtrancl_into_rtrancl part_Call1 part_Call2)
next
  case (Read f)
  from Read.IH [of "f s" s] Read.prems show ?case by (auto intro: rtrancl_into_rtrancl part_Read)
next
  case (Do f p)
  from Do.IH [of "f s"] Do.prems show ?case by (auto intro: rtrancl_into_rtrancl part_Do)
qed auto

text \<open>What an answer does to the list of suspended functions.\<close>

lemma turn_ResumeE:
  assumes "turn answers handler m (Resume i r) = Some m'"
  obtains ws1 q k ws2 where "waiting m = ws1 @ (q, k) # ws2" "answers q r"
    "mem m' = fst (run (k r) (mem m))" "waiting m' = ws1 @ ws2 @ snd (run (k r) (mem m))"
proof -
  from assms have i: "i < length (waiting m)" and a: "answers (fst (waiting m ! i)) r"
    by (auto split: if_splits)
  obtain q k where w: "waiting m ! i = (q, k)" by force
  show ?thesis
  proof (rule that)
    show "waiting m = take i (waiting m) @ (q, k) # drop (Suc i) (waiting m)"
      using id_take_nth_drop [OF i] w by simp
  qed (use assms i a w in \<open>auto simp: split_beta\<close>)
qed

lemma resume_backlog:
  assumes "turn answers handler m (Resume i r) = Some m'"
  shows "(backlog m', backlog m) \<in> mult (part\<^sup>+)"
proof -
  obtain ws1 q k ws2 where m: "waiting m = ws1 @ (q, k) # ws2"
    and m': "waiting m' = ws1 @ ws2 @ snd (run (k r) (mem m))"
    using assms by (elim turn_ResumeE)
  have "(awaiting w, Await q k) \<in> part\<^sup>+" if "w \<in> set (snd (run (k r) (mem m)))" for w
    using run_suspended [OF that] part_Await [of k r q] by (rule rtrancl_into_trancl1)
  then have "(mset (map awaiting (ws1 @ ws2)) + mset (map awaiting (snd (run (k r) (mem m)))),
      mset (map awaiting (ws1 @ ws2)) + {#Await q k#}) \<in> mult (part\<^sup>+)"
    by (intro one_step_implies_mult) auto
  then show ?thesis
    by (simp add: backlog_def m m' union_assoc)
qed

lemma wf_resume: "wf {(m', m). \<exists>i r. turn answers handler m (Resume i r) = Some m'}"
proof (rule wf_subset)
  show "wf (inv_image (mult (part\<^sup>+)) backlog)"
    by (intro wf_inv_image wf_mult wf_trancl wf_part)
  show "{(m', m). \<exists>i r. turn answers handler m (Resume i r) = Some m'} \<subseteq> inv_image (mult (part\<^sup>+)) backlog"
    using resume_backlog by (fastforce simp del: turn.simps)
qed

text \<open>Every suspension point has an answer; a schedule then comes to an end with nothing suspended.\<close>

locale responsive =
  fixes answers :: "'q \<Rightarrow> 'r \<Rightarrow> bool"
    and handler :: "'s \<Rightarrow> 'e \<Rightarrow> ('s, 'q, 'r) proc option"
  assumes answerable: "\<exists>r. answers q r"
begin

lemma progress:
  assumes "i < length (waiting m)"
  shows "\<exists>r m'. turn answers handler m (Resume i r) = Some m'"
  using assms answerable [of "fst (waiting m ! i)"] by (auto simp: split_beta)

lemma served:
  assumes "\<And>m. waiting m \<noteq> [] \<Longrightarrow> turn answers handler m (Resume (fst (sched m)) (snd (sched m))) \<noteq> None"
  shows "\<exists>n. waiting ((serve answers handler sched ^^ n) m) = []"
proof (induction m rule: wf_induct_rule [OF wf_resume [of answers handler]])
  case (1 m)
  show ?case
  proof (cases "waiting m = []")
    case True
    then show ?thesis by (intro exI [of _ 0]) simp
  next
    case False
    with assms obtain m' where m': "turn answers handler m (Resume (fst (sched m)) (snd (sched m))) = Some m'" by blast
    with 1 obtain n where "waiting ((serve answers handler sched ^^ n) m') = []" by blast
    moreover have "serve answers handler sched m = m'" using m' by (simp add: serve_def)
    ultimately show ?thesis
      by (intro exI [of _ "Suc n"]) (simp add: funpow_Suc_right del: funpow.simps)
  qed
qed

end

lemma serve_reach: "reach answers handler init m \<Longrightarrow> reach answers handler init (serve answers handler sched m)"
  by (auto simp: serve_def split: option.split simp del: turn.simps intro: reach.step)

lemma served_reach: "reach answers handler init m \<Longrightarrow> reach answers handler init ((serve answers handler sched ^^ n) m)"
  by (induction n) (simp_all add: serve_reach)

section \<open>Promises are kept\<close>

lemma owed_suspended: "owed answers L p s \<Longrightarrow> list_ex (\<lambda>w. owed answers L (awaiting w) t) (snd (run p s))"
  by (induction p arbitrary: s) (auto simp: split_beta)

lemma later_suspended: "later answers L p \<Longrightarrow> list_all (\<lambda>w. later answers L (awaiting w)) (snd (run p s))"
  by (induction p arbitrary: s) (auto simp: split_beta)

lemma owed_awaiting: "owed answers L (awaiting w) s = owed answers L (awaiting w) t"
  by (cases w) simp

lemma honestD: "honest answers L p \<Longrightarrow> L (fst (run p s)) \<Longrightarrow> L s \<or> owed answers L p s"
  by (simp add: honest_def)

lemma promised_run:
  assumes "list_all (\<lambda>w. later answers L (awaiting w)) ws" "later answers L p"
    and "L (fst (run p s)) \<Longrightarrow> list_ex (\<lambda>w. owed answers L (awaiting w) s) ws \<or> owed answers L p s"
  shows "promised answers L \<lparr>mem = fst (run p s), waiting = ws @ snd (run p s)\<rparr>"
  using assms owed_suspended [of answers L p s "fst (run p s)"] later_suspended [of answers L p s]
    owed_awaiting [of answers L _ s "fst (run p s)"]
  by (auto simp: promised_def list_ex_iff)

text \<open>The rules for functions that keep the promise.\<close>

lemma honest_Done: "honest answers L Done"
  by (simp add: honest_def)

lemma honest_Do: "(\<And>s. L (f s) \<Longrightarrow> L s) \<Longrightarrow> honest answers L p \<Longrightarrow> honest answers L (Do f p)"
  by (auto simp: honest_def)

lemma honest_Do_owed: "(\<And>s. owed answers L p s) \<Longrightarrow> honest answers L p \<Longrightarrow> honest answers L (Do f p)"
  by (auto simp: honest_def)

lemma honest_Read: "(\<And>s. honest answers L (f s)) \<Longrightarrow> honest answers L (Read f)"
  by (auto simp: honest_def)

lemma honest_Call: "honest answers L p \<Longrightarrow> honest answers L k \<Longrightarrow> honest answers L (Call p k)"
  by (auto simp: honest_def split_beta)

lemma honest_Await: "(\<And>r. answers q r \<Longrightarrow> honest answers L (k r)) \<Longrightarrow> honest answers L (Await q k)"
  by (auto simp: honest_def)

lemma clears_Do: "clears answers L p \<Longrightarrow> clears answers L (Do f p)"
  by (simp add: clears_def)

lemma clears_final: "(\<And>s. \<not> L (f s)) \<Longrightarrow> clears answers L (Do f Done)"
  by (simp add: clears_def)

lemma owed_clears: "(\<And>s. owed answers L p s) \<Longrightarrow> clears answers L p"
  by (simp add: clears_def)

lemma owed_Await: "(\<And>r. answers q r \<Longrightarrow> clears answers L (k r)) \<Longrightarrow> owed answers L (Await q k) s"
  by (simp add: clears_def)

text \<open>The event loop over handlers that keep it.\<close>

locale placeholder =
  fixes answers :: "'q \<Rightarrow> 'r \<Rightarrow> bool"
    and handler :: "'s \<Rightarrow> 'e \<Rightarrow> ('s, 'q, 'r) proc option"
    and init :: "'s \<Rightarrow> bool"
    and L :: "'s \<Rightarrow> bool"
  assumes init_absent: "init s \<Longrightarrow> \<not> L s"
    and handler_honest: "handler s e = Some p \<Longrightarrow> honest answers L p"
begin

lemma turn_promised:
  assumes ok: "promised answers L m" and turn: "turn answers handler m a = Some m'"
  shows "promised answers L m'"
proof (cases a)
  case (Resume i r)
  obtain ws1 q k ws2 where m: "waiting m = ws1 @ (q, k) # ws2" and r: "answers q r"
    and m': "mem m' = fst (run (k r) (mem m))" "waiting m' = (ws1 @ ws2) @ snd (run (k r) (mem m))"
    using turn unfolding Resume by (elim turn_ResumeE) simp
  have "promised answers L \<lparr>mem = fst (run (k r) (mem m)), waiting = (ws1 @ ws2) @ snd (run (k r) (mem m))\<rparr>"
    using ok r by (intro promised_run) (auto simp: promised_def m)
  then show ?thesis by (simp add: promised_def m')
next
  case (Event e)
  with turn obtain p where p: "handler (mem m) e = Some p"
    by (auto split: option.splits)
  then have "honest answers L p" by (rule handler_honest)
  then have "promised answers L \<lparr>mem = fst (run p (mem m)), waiting = waiting m @ snd (run p (mem m))\<rparr>"
    using ok by (intro promised_run) (auto simp: promised_def honest_def)
  with Event turn p show ?thesis by (auto simp: split_beta)
qed

lemma reach_promised: "reach answers handler init m \<Longrightarrow> promised answers L m"
proof (induction rule: reach.induct)
  case (start s)
  then show ?case by (simp add: promised_def init_absent)
next
  case (step m a m')
  then show ?case by (blast intro: turn_promised)
qed

lemma idle_absent: "reach answers handler init m \<Longrightarrow> waiting m = [] \<Longrightarrow> \<not> L (mem m)"
  using reach_promised [of m] by (auto simp: promised_def)

end

end
