(* ===== verification/Portal_Settle.thy ===== *)
theory Portal_Settle
  imports Portal_Loop Portal_Progress
begin

text \<open>
  The portal comes to rest. Answers alone never keep it busy for ever, every suspension point can
  be answered, and once the last answer has arrived no table is left with its loading text: each
  loader that shows one is suspended with code that replaces it, on every path, whether the request
  fails, the server refuses it, the body cannot be decoded or the rows arrive.
\<close>

section \<open>Definitions\<close>

text \<open>The tables that show a text while they are loaded.\<close>

definition loading_texts :: "(string \<times> string) list" where
  "loading_texts =
     [(''connections-grid'', connections_loading_html), (''endpoints-table-body'', endpoints_loading_html),
      (''logs-table-body'', logs_loading_html), (''vault-table-body'', vault_loading_html),
      (''tokens-table-body'', tokens_loading_html)]"

definition stuck :: "string \<times> string \<Rightarrow> browser \<Rightarrow> bool" where
  "stuck v b = (content (dom b (fst v)) = [HtmlNode (snd v)])"

abbreviation fair :: "string \<times> string \<Rightarrow> app_proc \<Rightarrow> bool" where
  "fair v \<equiv> honest answers (stuck v)"

abbreviation owes :: "string \<times> string \<Rightarrow> app_proc \<Rightarrow> bool" where
  "owes v p \<equiv> (\<forall>b. owed answers (stuck v) p b)"

abbreviation shows_rows :: "string \<times> string \<Rightarrow> app_proc \<Rightarrow> bool" where
  "shows_rows v \<equiv> clears answers (stuck v)"

text \<open>\<open>polite v f\<close>: the update \<open>f\<close> does not bring the loading text about.\<close>

definition polite :: "string \<times> string \<Rightarrow> (browser \<Rightarrow> browser) \<Rightarrow> bool" where
  "polite v f \<longleftrightarrow> (\<forall>b. stuck v (f b) \<longrightarrow> stuck v b)"

section \<open>Lemmas\<close>

subsection \<open>Updates that show no loading text\<close>

named_theorems polite_intros \<open>updates that show no loading text\<close>

text \<open>Chains of updates: an update on top of a state that shows a loading text only if \<open>a\<close> does.\<close>

definition eases :: "string \<times> string \<Rightarrow> browser \<Rightarrow> browser \<Rightarrow> bool" where
  "eases v a b \<longleftrightarrow> (stuck v b \<longrightarrow> stuck v a)"

lemma eases_refl: "eases v b b"
  by (simp add: eases_def)

lemma eases_elem_ops:
  assumes "eases v a b"
  shows "eases v a (set_innerText i t b)" "eases v a (class_add i c b)" "eases v a (class_remove i c b)"
    "eases v a (set_className i cs b)" "eases v a (set_href i t b)" "eases v a (set_checked i ch b)"
    "eases v a (assign_value i t b)" "eases v a (reset_field i b)" "eases v a (showToast m ty b)"
    "eases v a (set_hash h b)" "eases v a (store_session tok usr b)"
  using assms
  by (auto simp: eases_def stuck_def elem_ops assign_value_def reset_field_def set_hash_def store_session_def
      split: if_splits field_kind.splits)

lemma eases_html: "eases v a b \<Longrightarrow> (i, h) \<noteq> v \<Longrightarrow> eases v a (set_innerHTML i h b)"
  by (cases v) (auto simp: eases_def stuck_def set_innerHTML_def split: if_splits)

lemma eases_append: "eases v a b \<Longrightarrow> eases v a (append_children i (map (\<lambda>x. ElemNode t c (g x)) xs) b)"
  by (auto simp: eases_def stuck_def append_children_def append_eq_Cons_conv split: if_splits)

lemma eases_chart:
  "eases v a b \<Longrightarrow> eases v a (upd_elem i (\<lambda>e. e\<lparr>content := [LatencyNode ch]\<rparr>) b)"
  "eases v a b \<Longrightarrow> eases v a (upd_elem i (\<lambda>e. e\<lparr>content := [FrequencyNode fc]\<rparr>) b)"
  by (auto simp: eases_def stuck_def split: if_splits)

lemma eases_foldl:
  "(\<And>b i. eases v a b \<Longrightarrow> eases v a (g i b)) \<Longrightarrow> eases v a b \<Longrightarrow> eases v a (foldl (\<lambda>b i. g i b) b is)"
  by (induction "is" arbitrary: b) auto

lemma eases_reset_form: "eases v a b \<Longrightarrow> eases v a (reset_form fs b)"
  unfolding reset_form_def by (rule eases_foldl) (auto intro: eases_elem_ops)

lemma eases_dropdown: "fst v \<noteq> ''ep-conn-id'' \<Longrightarrow> eases v a b \<Longrightarrow> eases v a (fill_dropdown b)"
  by (auto simp: eases_def stuck_def fill_dropdown_def)

lemmas eases_chain = eases_refl eases_elem_ops eases_html eases_append eases_chart eases_reset_form eases_dropdown

lemma polite_eases: "polite v f \<longleftrightarrow> (\<forall>b. eases v b (f b))"
  by (simp add: polite_def eases_def)

lemma polite_simple [polite_intros]:
  "polite v (\<lambda>b. b\<lparr>now := n b\<rparr>)" "polite v (\<lambda>b. b\<lparr>loaded := l b\<rparr>)" "polite v (\<lambda>b. b\<lparr>hash_events := k b\<rparr>)"
  "polite v (\<lambda>b. b\<lparr>hash_listeners := k b\<rparr>)" "polite v (\<lambda>b. b\<lparr>sent := rs b\<rparr>)"
  "polite v sso_redirect" "polite v (search_docs q)" "polite v toggle_theme" "polite v session_expired" "polite v logout"
  "polite v (set_connections cs)" "polite v (set_endpoints es)" "polite v (set_logs ls)" "polite v (set_tokens ts)"
  by (simp_all add: polite_def stuck_def sso_redirect_def search_docs_def toggle_theme_def session_expired_def
      logout_def set_connections_def set_endpoints_def set_logs_def set_tokens_def Let_def)

lemma polite_elem_ops [polite_intros]:
  "polite v (set_innerText i t)" "polite v (class_add i c)" "polite v (set_checked i ch)" "polite v (assign_value i t)"
  "polite v (showToast m ty)" "polite v (set_hash h)" "polite v (store_session tok usr)" "polite v (reset_form fs)"
  "polite v (timer_due n)" "polite v (\<lambda>b. showToast m ty (b\<lparr>clipboard := c'\<rparr>))" "polite v triggerDownload"
  by (auto simp: polite_eases intro: eases_chain)
    (auto simp: timer_due_def triggerDownload_def Let_def eases_def stuck_def class_add_def)

text \<open>The texts of the five tables are told from everything else that is put into their place.\<close>

definition table_text :: "string \<times> string \<Rightarrow> bool" where
  "table_text v \<longleftrightarrow> v \<in> set loading_texts"

lemmas html_texts =
  connections_loading_html_def endpoints_loading_html_def logs_loading_html_def vault_loading_html_def
  tokens_loading_html_def connections_error_html_def endpoints_error_html_def logs_error_html_def
  vault_error_html_def tokens_error_html_def no_connections_html_def no_endpoints_html_def no_logs_html_def
  no_secrets_html_def no_tokens_html_def dq_def

lemma table_ids:
  "table_text v \<Longrightarrow> fst v \<in> {''connections-grid'', ''endpoints-table-body'', ''logs-table-body'',
     ''vault-table-body'', ''tokens-table-body''}"
  by (auto simp: table_text_def loading_texts_def)

lemma other_texts:
  "table_text v \<Longrightarrow> (''connections-grid'', connections_error_html m) \<noteq> v"
  "table_text v \<Longrightarrow> (''endpoints-table-body'', endpoints_error_html m) \<noteq> v"
  "table_text v \<Longrightarrow> (''logs-table-body'', logs_error_html m) \<noteq> v"
  "table_text v \<Longrightarrow> (''vault-table-body'', vault_error_html m) \<noteq> v"
  "table_text v \<Longrightarrow> (''tokens-table-body'', tokens_error_html m) \<noteq> v"
  "table_text v \<Longrightarrow> (''connections-grid'', no_connections_html) \<noteq> v"
  "table_text v \<Longrightarrow> (''endpoints-table-body'', no_endpoints_html) \<noteq> v"
  "table_text v \<Longrightarrow> (''logs-table-body'', no_logs_html) \<noteq> v"
  "table_text v \<Longrightarrow> (''vault-table-body'', no_secrets_html) \<noteq> v"
  "table_text v \<Longrightarrow> (''tokens-table-body'', no_tokens_html) \<noteq> v"
  "table_text v \<Longrightarrow> (i, []) \<noteq> v"
  by (auto simp: table_text_def loading_texts_def html_texts nl_def)

lemma other_ids:
  "table_text v \<Longrightarrow> i \<notin> {''connections-grid'', ''endpoints-table-body'', ''logs-table-body'',
     ''vault-table-body'', ''tokens-table-body''} \<Longrightarrow> (i, h) \<noteq> v"
  using table_ids [of v] by auto

lemma table_facts:
  assumes "table_text v"
  shows "(''config-api-health-body'', h) \<noteq> v" "(''settings-mtls-status'', h) \<noteq> v" "(''settings-tls-status'', h) \<noteq> v"
    "(''settings-oidc-status'', h) \<noteq> v" "(''latency-chart-wrapper'', h) \<noteq> v" "(''frequency-chart-wrapper'', h) \<noteq> v"
    "fst v \<noteq> ''ep-conn-id''"
  using table_ids [OF assms] by auto

lemma eases_health: "table_text v \<Longrightarrow> eases v a b \<Longrightarrow> eases v a (render_health hs b)"
  unfolding render_health_def Let_def
  by (cases hs) (auto intro!: eases_chain table_facts)

lemma eases_charts:
  assumes "table_text v" "eases v a b"
  shows "eases v a (draw_latency_chart ls b)" "eases v a (draw_frequency_chart ls b)"
  unfolding draw_latency_chart_def draw_frequency_chart_def Let_def
  using assms by (auto intro!: eases_chain table_facts split: option.split)

lemma polite_renderers [polite_intros]:
  assumes "table_text v"
  shows "polite v render_connections" "polite v render_endpoints" "polite v render_logs"
    "polite v (render_secrets ks)" "polite v render_tokens"
  unfolding polite_eases render_connections_def render_endpoints_def audit_namespaces_def render_logs_def
    render_secrets_def render_tokens_def Let_def
  by (auto intro!: eases_chain other_texts [OF assms])

lemma polite_views [polite_intros]:
  assumes "table_text v"
  shows "polite v show_counts" "polite v (show_op_stats op)" "polite v (show_settings d)" "polite v link_swagger"
    "polite v (show_metrics m)" "polite v (show_telemetry ls)"
  unfolding polite_eases show_counts_def show_op_stats_def show_settings_def link_swagger_def show_metrics_def
    show_telemetry_def Let_def
  by (auto intro!: eases_chain table_facts [OF assms] eases_health [OF assms] eases_charts [OF assms])

lemma polite_forms [polite_intros]:
  assumes "table_text v"
  shows "polite v (openConnectionModal i)" "polite v (openEndpointModal i)" "polite v openTokenModal"
    "polite v (generate_token bs)" "polite v showSchema" "polite v show_sse_url" "polite v (closeModal i)"
  unfolding polite_eases openConnectionModal_def openEndpointModal_def openTokenModal_def
    fill_connection_def fill_endpoint_def generate_token_def showSchema_def closeModal_def
    show_sse_url_def Let_def
  by (auto intro!: eases_chain table_facts [OF assms] split: option.splits)

lemma polite_session [polite_intros]:
  "polite v (show_view r)" "polite v accept_sso_token" "polite v show_app" "polite v show_login"
  unfolding polite_eases show_view_def hide_sections_def deactivate_nav_def accept_sso_token_def show_app_def
    show_login_def Let_def
  by (auto intro!: eases_chain eases_foldl split: option.splits)

text \<open>The last update of a loader leaves its own table without the loading text.\<close>

lemma rendered:
  "\<not> stuck (''connections-grid'', connections_loading_html) (render_connections b)"
  "\<not> stuck (''endpoints-table-body'', endpoints_loading_html) (render_endpoints b)"
  "\<not> stuck (''logs-table-body'', logs_loading_html) (render_logs b)"
  "\<not> stuck (''vault-table-body'', vault_loading_html) (render_secrets ks b)"
  "\<not> stuck (''tokens-table-body'', tokens_loading_html) (render_tokens b)"
  unfolding stuck_def render_connections_def render_endpoints_def audit_namespaces_def render_logs_def
    render_secrets_def render_tokens_def Let_def
  by (auto simp: content_append content_innerHTML html_texts nl_def map_eq_Cons_conv)

subsection \<open>Functions that take the loading text away\<close>

named_theorems clear_intros \<open>functions that end with the loading text gone\<close>

lemma clear_set [clear_intros]:
  "shows_rows v p \<Longrightarrow> shows_rows v (Do (set_connections cs) p)" "shows_rows v p \<Longrightarrow> shows_rows v (Do (set_endpoints es) p)"
  "shows_rows v p \<Longrightarrow> shows_rows v (Do (set_logs ls) p)" "shows_rows v p \<Longrightarrow> shows_rows v (Do (set_tokens ts) p)"
  by (simp_all add: clears_Do)

lemma clear_if [clear_intros]:
  "(c \<Longrightarrow> shows_rows v p) \<Longrightarrow> (\<not> c \<Longrightarrow> shows_rows v q) \<Longrightarrow> shows_rows v (if c then p else q)"
  by simp

lemma clear_owed: "owes v p \<Longrightarrow> shows_rows v p"
  by (simp add: clears_def)

lemma owes_fetch:
  assumes "\<And>m. shows_rows v (c m)" "\<And>res. shows_rows v (k res)"
  shows "owes v (try_fetch rq c k)"
proof -
  have "shows_rows v (intercept url (\<lambda>r. case r of NetErr m \<Rightarrow> c m | Resp res \<Rightarrow> k res) a)"
    if "answers (Fetch q) a" for url q a
    using that assms by (cases "(Fetch q, a)" rule: answers.cases) (simp_all add: intercept_def clears_Do)
  then show ?thesis
    unfolding try_fetch_def fetch_def Let_def owed.simps(2,3) by (intro allI owed_Await)
qed

lemma owes_json:
  assumes "\<And>m. shows_rows v (c m)" "\<And>p. shows_rows v (k p)"
  shows "owes v (try_json res c k)"
  unfolding try_json_def
  by (intro allI owed_Await) (use assms in \<open>auto elim!: answers_JsonE split: sum.split\<close>)

lemmas clear_requests [clear_intros] = owes_fetch [THEN clear_owed] owes_json [THEN clear_owed]

lemma clear_errors [clear_intros]:
  "(''connections-grid'', connections_loading_html) = v \<Longrightarrow> shows_rows v (connections_error m)"
  "(''endpoints-table-body'', endpoints_loading_html) = v \<Longrightarrow> shows_rows v (endpoints_error m)"
  "(''logs-table-body'', logs_loading_html) = v \<Longrightarrow> shows_rows v (logs_error m)"
  "(''vault-table-body'', vault_loading_html) = v \<Longrightarrow> shows_rows v (vault_error m)"
  "(''tokens-table-body'', tokens_loading_html) = v \<Longrightarrow> shows_rows v (tokens_error m)"
  unfolding connections_error_def endpoints_error_def logs_error_def vault_error_def tokens_error_def
  by (auto intro!: clears_final simp: stuck_def content_innerHTML html_texts)

lemma clear_rendered [clear_intros]:
  "(''connections-grid'', connections_loading_html) = v \<Longrightarrow> shows_rows v (Do render_connections Done)"
  "(''endpoints-table-body'', endpoints_loading_html) = v \<Longrightarrow> shows_rows v (Do render_endpoints Done)"
  "(''logs-table-body'', logs_loading_html) = v \<Longrightarrow> shows_rows v (Do render_logs Done)"
  "(''vault-table-body'', vault_loading_html) = v \<Longrightarrow> shows_rows v (Do (render_secrets ks) Done)"
  "(''tokens-table-body'', tokens_loading_html) = v \<Longrightarrow> shows_rows v (Do render_tokens Done)"
  using rendered by (auto intro!: clears_final)

subsection \<open>Functions that show a loading text only with a promise\<close>

named_theorems fair_intros \<open>functions that show a loading text only while they wait\<close>

lemma fair_Done [fair_intros]: "fair v Done"
  by (rule honest_Done)

lemma fair_Do [fair_intros]: "polite v f \<Longrightarrow> fair v p \<Longrightarrow> fair v (Do f p)"
  by (rule honest_Do) (auto simp: polite_def)

lemma polite_html: "(i, h) \<noteq> v \<Longrightarrow> polite v (set_innerHTML i h)"
  by (simp add: polite_eases eases_html eases_refl)

lemma fair_loading:
  assumes "(i, h) = v \<Longrightarrow> owes v p" "fair v p" shows "fair v (Do (set_innerHTML i h) p)"
proof (cases "(i, h) = v")
  case True
  with assms show ?thesis by (blast intro: honest_Do_owed)
next
  case False
  then show ?thesis using assms(2) by (intro fair_Do polite_html)
qed

lemma fair_Read [fair_intros]: "(\<And>b. fair v (f b)) \<Longrightarrow> fair v (Read f)"
  by (rule honest_Read)

lemma fair_Call [fair_intros]: "fair v p \<Longrightarrow> fair v k \<Longrightarrow> fair v (Call p k)"
  by (rule honest_Call)

lemma fair_if [fair_intros]: "(c \<Longrightarrow> fair v p) \<Longrightarrow> (\<not> c \<Longrightarrow> fair v q) \<Longrightarrow> fair v (if c then p else q)"
  by simp

lemma fair_guards [fair_intros]: "fair v p \<Longrightarrow> fair v (if_token p)" "fair v p \<Longrightarrow> fair v (if_id i p)"
  by (simp_all add: if_token_def if_id_def fair_Read fair_Done)

lemma fair_fetch [fair_intros]:
  assumes "\<And>m. fair v (c m)" "\<And>res. fair v (k res)"
  shows "fair v (try_fetch rq c k)"
proof -
  have "fair v (intercept url (\<lambda>r. case r of NetErr m \<Rightarrow> c m | Resp res \<Rightarrow> k res) a)" for url a
    using assms by (auto simp: intercept_def intro: fair_Do fair_Done polite_simple split: answer.split fetch_result.split)
  then show ?thesis
    unfolding try_fetch_def fetch_def Let_def by (intro fair_Read fair_Do polite_simple honest_Await)
qed

lemma fair_json [fair_intros]:
  "(\<And>m. fair v (c m)) \<Longrightarrow> (\<And>p. fair v (k p)) \<Longrightarrow> fair v (try_json res c k)"
  unfolding try_json_def by (rule honest_Await) (auto split: answer.split sum.split intro: fair_Done)

lemma fair_text [fair_intros]:
  "(\<And>m. fair v (c m)) \<Longrightarrow> (\<And>p. fair v (k p)) \<Longrightarrow> fair v (try_text res c k)"
  unfolding try_text_def by (rule honest_Await) (auto split: answer.split sum.split intro: fair_Done)

lemma fair_error [fair_intros]:
  assumes "table_text v"
  shows "fair v (connections_error m)" "fair v (endpoints_error m)" "fair v (logs_error m)" "fair v (vault_error m)"
    "fair v (settings_error m)" "fair v (openapi_error m)" "fair v (tokens_error m)" "fair v (telemetry_error m)"
    "fair v (toast_error m)" "fair v (login_error m)"
  unfolding connections_error_def endpoints_error_def logs_error_def vault_error_def settings_error_def
    openapi_error_def tokens_error_def telemetry_error_def toast_error_def login_error_def
  by (intro fair_Do fair_Done polite_html polite_elem_ops other_texts assms)+

lemma fair_json_cases [fair_intros]:
  "(\<And>x. fair v (k x)) \<Longrightarrow> fair v (case p of JOpStats x \<Rightarrow> k x | _ \<Rightarrow> Done)"
  "(\<And>x. fair v (k' x)) \<Longrightarrow> fair v (case p of JSettings x \<Rightarrow> k' x | _ \<Rightarrow> Done)"
  "(\<And>x. fair v (k'' x)) \<Longrightarrow> fair v (case p of JSpec x \<Rightarrow> k'' x | _ \<Rightarrow> Done)"
  by (cases p; simp add: fair_Done)+

lemma owes_endpoint_rows:
  assumes "(''endpoints-table-body'', endpoints_loading_html) = v" shows "owes v load_endpoint_rows"
  unfolding load_endpoint_rows_def by (intro owes_fetch clear_intros assms)

lemma owes_Read: "(\<And>b. owes v (f b)) \<Longrightarrow> owes v (Read f)"
  by simp

lemma owes_if: "(c \<Longrightarrow> owes v p) \<Longrightarrow> (\<not> c \<Longrightarrow> owes v q) \<Longrightarrow> owes v (if c then p else q)"
  by simp

lemma fair_endpoint_rows [fair_intros]: "table_text v \<Longrightarrow> fair v load_endpoint_rows"
  unfolding load_endpoint_rows_def by (intro fair_intros polite_intros; assumption)

lemma fair_plain_loaders [fair_intros]:
  assumes "table_text v"
  shows "fair v (load_op_stats res)" "fair v loadSettingsConfig" "fair v loadOpenAPIDocs" "fair v load_log_charts"
  unfolding load_op_stats_def loadSettingsConfig_def loadOpenAPIDocs_def load_log_charts_def
  by (intro fair_intros polite_intros assms)+

lemma fair_loadDashboardStats [fair_intros]: "table_text v \<Longrightarrow> fair v loadDashboardStats"
  unfolding loadDashboardStats_def by (intro fair_intros polite_intros; assumption)

lemma fair_loadTelemetry [fair_intros]: "table_text v \<Longrightarrow> fair v loadTelemetry"
  unfolding loadTelemetry_def by (intro fair_intros polite_intros; assumption)

lemma fair_list_loaders [fair_intros]:
  assumes "table_text v"
  shows "fair v loadConnections" "fair v loadEndpoints" "fair v loadAuditLogs" "fair v loadVaultSecrets"
    "fair v loadClientTokens"
  unfolding loadConnections_def loadEndpoints_def loadAuditLogs_def loadVaultSecrets_def loadClientTokens_def
  by (rule fair_guards fair_loading | assumption | intro owes_Read owes_if owes_endpoint_rows owes_fetch
      clear_intros clear_owed [OF owes_endpoint_rows] | intro fair_intros polite_intros assms)+

lemma fair_forms [fair_intros]:
  assumes "table_text v"
  shows "fair v (deleteConnection i c)" "fair v (deleteEndpoint i c)" "fair v (deleteVaultSecret k c)"
    "fair v (deleteClientToken t c)" "fair v (report_error res d)" "fair v submit_connection" "fair v submit_endpoint"
    "fair v submit_vault" "fair v submit_token"
  unfolding deleteConnection_def deleteEndpoint_def deleteVaultSecret_def deleteClientToken_def
    report_error_def submit_connection_def submit_endpoint_def submit_vault_def submit_token_def Let_def
  by (intro fair_intros polite_intros assms)+

lemma fair_copy_schema [fair_intros]:
  assumes "table_text v" shows "fair v copy_schema"
proof -
  have "fair v (case a of AClip True \<Rightarrow>
             Do (\<lambda>b. showToast ''OpenAPI JSON copied to clipboard'' ''success'' (b\<lparr>clipboard := code\<rparr>)) Done
         | AClip False \<Rightarrow> toast_error ''Failed to copy text'' | _ \<Rightarrow> Done)" for a code
    using assms by (auto split: answer.split bool.split intro!: fair_intros polite_elem_ops)
  then show ?thesis
    unfolding copy_schema_def Let_def by (intro fair_Read honest_Await)
qed

lemma fair_route [fair_intros]:
  assumes "table_text v" shows "fair v handleRoute" "fair v (run_listeners n)"
proof -
  show route: "fair v handleRoute"
    unfolding handleRoute_def route_loaders_def Let_def by (intro fair_intros polite_intros assms)
  then show "fair v (run_listeners n)"
    by (induction n) (auto intro: fair_intros)
qed

lemma fair_session [fair_intros]:
  assumes "table_text v" shows "fair v initAuth" "fair v submit_login" "fair v on_hashchange"
proof -
  have "fair v bootstrapApp"
    unfolding bootstrapApp_def setupRouter_def by (intro fair_intros polite_intros assms)
  then show init: "fair v initAuth"
    unfolding initAuth_def by (intro fair_intros polite_intros)
  show "fair v submit_login"
    unfolding submit_login_def by (intro init fair_intros polite_intros assms)
  show "fair v on_hashchange"
    unfolding on_hashchange_def by (intro fair_intros polite_intros assms)
qed

lemma in_app_Some: "in_app b p = Some q \<Longrightarrow> q = p"
  by (simp add: in_app_def split: if_splits)

lemma handler_fair:
  assumes "table_text v" "handler b e = Some p" shows "fair v p"
  using assms(2)
  by (cases e) (auto split: if_splits dest!: in_app_Some simp: act_def intro!: fair_intros polite_intros assms(1))

lemma page_loaded_absent: "table_text v \<Longrightarrow> page_loaded b \<Longrightarrow> \<not> stuck v b"
  by (auto simp: table_text_def loading_texts_def page_loaded_def load_page_def Let_def stuck_def page_elem_def
      nav_items_def view_names_def)

lemma portal_placeholder: "table_text v \<Longrightarrow> placeholder answers handler page_loaded (stuck v)"
  by unfold_locales (auto intro: handler_fair dest: page_loaded_absent)

interpretation connections_table: placeholder answers handler page_loaded
  "stuck (''connections-grid'', connections_loading_html)"
  by (rule portal_placeholder) (simp add: table_text_def loading_texts_def)

interpretation endpoints_table: placeholder answers handler page_loaded
  "stuck (''endpoints-table-body'', endpoints_loading_html)"
  by (rule portal_placeholder) (simp add: table_text_def loading_texts_def)

interpretation logs_table: placeholder answers handler page_loaded "stuck (''logs-table-body'', logs_loading_html)"
  by (rule portal_placeholder) (simp add: table_text_def loading_texts_def)

interpretation vault_table: placeholder answers handler page_loaded "stuck (''vault-table-body'', vault_loading_html)"
  by (rule portal_placeholder) (simp add: table_text_def loading_texts_def)

interpretation tokens_table: placeholder answers handler page_loaded "stuck (''tokens-table-body'', tokens_loading_html)"
  by (rule portal_placeholder) (simp add: table_text_def loading_texts_def)

text \<open>A server that cannot be reached: every request fails, the oldest first.\<close>

primrec failure :: "prompt \<Rightarrow> answer" where
  "failure (Fetch rq) = AFetch (NetErr ''Failed to fetch'')"
| "failure (Json res) = AJson (body res)"
| "failure (Text res) = AText (Inl ''Failed to fetch'')"
| "failure (WriteClipboard t) = AClip False"

definition offline :: "app_machine \<Rightarrow> nat \<times> answer" where
  "offline m = (0, failure (fst (hd (waiting m))))"

lemma answers_failure: "answers q (failure q)"
  by (cases q) simp_all

interpretation progress: responsive answers handler
  by unfold_locales (auto intro: answers_failure)

lemma offline_answers: "waiting m \<noteq> [] \<Longrightarrow> turn answers handler m (Resume (fst (offline m)) (snd (offline m))) \<noteq> None"
  using answers_failure by (simp add: offline_def hd_conv_nth split_beta)

lemma idle_tables:
  assumes "portal_reach m" "waiting m = []"
  shows "list_all (\<lambda>(i, h). content (dom (mem m) i) \<noteq> [HtmlNode h]) loading_texts"
  using connections_table.idle_absent [OF assms] endpoints_table.idle_absent [OF assms]
    logs_table.idle_absent [OF assms] vault_table.idle_absent [OF assms] tokens_table.idle_absent [OF assms]
  by (simp add: loading_texts_def stuck_def)

section \<open>Properties\<close>

text \<open>C9: Whenever the server goes on answering, in any order, with failures, refusals, bodies that cannot be decoded or
  payloads of the kind that the route has (\<open>answers\<close>), the portal comes to rest: after finitely many answers no
  function of it waits any more, and then none of the five tables still shows its loading text.\<close>

theorem portal_settles:
  assumes "portal_reach m"
    and "\<And>m. waiting m \<noteq> [] \<Longrightarrow> turn answers handler m (Resume (fst (sched m)) (snd (sched m))) \<noteq> None"
  shows "\<exists>n. waiting ((serve answers handler sched ^^ n) m) = [] \<and>
    list_all (\<lambda>(i, h). content (dom (mem ((serve answers handler sched ^^ n) m)) i) \<noteq> [HtmlNode h]) loading_texts"
  using progress.served [of sched m, OF assms(2)] idle_tables [OF served_reach [OF assms(1)]] by blast

theorem portal_settles_witness:
  "\<exists>n. waiting ((serve answers handler offline ^^ n) sample_booted) = []"
  using portal_settles [OF sample_reach offline_answers] by blast

end
