(* ===== verification/Gateway_Prelude.thy ===== *)
theory Gateway_Prelude
  imports Portal_Prelude
begin

text \<open>
  Shared vocabulary of the gateway's own code (the Go packages): the functions of the package
  \<^verbatim>\<open>strings\<close> it uses, errors as values, tables with a key, and the simulation argument that an
  optimised component gives the answers of its plain specification.
\<close>

section \<open>Package strings\<close>

definition go_HasPrefix :: "string \<Rightarrow> string \<Rightarrow> bool" where
  "go_HasPrefix s p = prefix p s"

definition go_HasSuffix :: "string \<Rightarrow> string \<Rightarrow> bool" where
  "go_HasSuffix s p = suffix p s"

text \<open>\<^verbatim>\<open>strings.TrimSpace\<close> and \<^verbatim>\<open>strings.EqualFold\<close>, on ASCII text.\<close>

definition go_TrimSpace :: "string \<Rightarrow> string" where
  "go_TrimSpace s = js_trim s"

definition go_EqualFold :: "string \<Rightarrow> string \<Rightarrow> bool" where
  "go_EqualFold s t = (js_toLowerCase s = js_toLowerCase t)"

definition go_Split :: "string \<Rightarrow> char \<Rightarrow> string list" where
  "go_Split s d = js_split d s"

text \<open>\<^verbatim>\<open>strings.SplitN(s, d, 2)\<close>\<close>

definition go_SplitN2 :: "string \<Rightarrow> char \<Rightarrow> string list" where
  "go_SplitN2 s d =
     (if d \<in> set s then [takeWhile (\<lambda>c. c \<noteq> d) s, drop 1 (dropWhile (\<lambda>c. c \<noteq> d) s)] else [s])"

section \<open>Tables with a key\<close>

text \<open>Insert a row, or replace the row that has its key in place.\<close>

fun upsert :: "('r \<Rightarrow> 'k) \<Rightarrow> 'r \<Rightarrow> 'r list \<Rightarrow> 'r list" where
  "upsert key r [] = [r]"
| "upsert key r (x # xs) = (if key x = key r then r # xs else x # upsert key r xs)"

text \<open>
  The contract of a table: a save makes the row it stores for a value the row of its key, a removal
  leaves no row of the key, and both leave every other key alone.
\<close>

locale keyed_table =
  fixes rows :: "'s \<Rightarrow> 'r list"
    and key :: "'r \<Rightarrow> 'k"
    and row :: "'x \<Rightarrow> 's \<Rightarrow> 'r"
    and save :: "'x \<Rightarrow> 's \<Rightarrow> 's option"
    and remove :: "'k \<Rightarrow> 's \<Rightarrow> 's"
    and wf :: "'s \<Rightarrow> bool"
  assumes rows_save: "save x s = Some s' \<Longrightarrow> rows s' = upsert key (row x s) (rows s)"
    and rows_remove: "rows (remove k s) = filter (\<lambda>r. key r \<noteq> k) (rows s)"
    and wf_distinct: "wf s \<Longrightarrow> distinct (map key (rows s))"
begin

definition lookup :: "'s \<Rightarrow> 'k \<Rightarrow> 'r option" where
  "lookup s k = find (\<lambda>r. key r = k) (rows s)"

lemma lookup_save: "save x s = Some s' \<Longrightarrow> lookup s' k = (if key (row x s) = k then Some (row x s) else lookup s k)"
proof -
  have "find (\<lambda>y. key y = k) (upsert key r xs) = (if key r = k then Some r else find (\<lambda>y. key y = k) xs)" for r xs
    by (induction xs) auto
  then show "save x s = Some s' \<Longrightarrow> ?thesis" by (simp add: lookup_def rows_save)
qed

lemma lookup_remove: "lookup (remove k s) k' = (if k' = k then None else lookup s k')"
proof -
  have "find P (filter Q xs) = find (\<lambda>y. P y \<and> Q y) xs" for P Q and xs :: "'r list"
    by (induction xs) auto
  then show ?thesis
    by (auto simp: lookup_def rows_remove find_None_iff intro!: find_cong)
qed

lemma set_save:
  assumes "wf s" "save x s = Some s'"
  shows "set (rows s') = insert (row x s) {r \<in> set (rows s). key r \<noteq> key (row x s)}"
proof -
  have "set (upsert key y xs) = insert y {r \<in> set xs. key r \<noteq> key y}" if "distinct (map key xs)" for y xs
    using that by (induction xs) (auto simp: image_iff)
  with assms show ?thesis by (simp add: rows_save wf_distinct)
qed

lemma lookup_mem: "wf s \<Longrightarrow> lookup s k = Some r \<longleftrightarrow> r \<in> set (rows s) \<and> key r = k"
proof -
  have "find (\<lambda>y. key y = k) xs = Some r \<longleftrightarrow> r \<in> set xs \<and> key r = k" if "distinct (map key xs)" for xs
    using that by (induction xs) (auto simp: image_iff)
  then show "wf s \<Longrightarrow> ?thesis" by (simp add: lookup_def wf_distinct)
qed

end

lemma map_upsert_key: "map key (upsert key r xs) = (if key r \<in> set (map key xs) then map key xs else map key xs @ [key r])"
  by (induction xs) auto

lemma distinct_upsert: "distinct (map key xs) \<Longrightarrow> distinct (map key (upsert key r xs))"
  by (auto simp: map_upsert_key)

lemma set_upsert_sub: "set (upsert key r xs) \<subseteq> insert r (set xs)"
  by (induction xs) auto

section \<open>Simulation\<close>

text \<open>
  Two implementations of the same operations, run on the same sequence of calls. \<open>O\<close> relates the
  results of the optimised one to those of its specification.
\<close>

primrec outputs :: "('op \<Rightarrow> 's \<Rightarrow> 'o \<times> 's) \<Rightarrow> 's \<Rightarrow> 'op list \<Rightarrow> 'o list" where
  "outputs step s [] = []"
| "outputs step s (op # ops) = fst (step op s) # outputs step (snd (step op s)) ops"

locale simulation =
  fixes R :: "'c \<Rightarrow> 'a \<Rightarrow> bool"
    and Out :: "'o \<Rightarrow> 'o \<Rightarrow> bool"
    and cstep :: "'op \<Rightarrow> 'c \<Rightarrow> 'o \<times> 'c"
    and astep :: "'op \<Rightarrow> 'a \<Rightarrow> 'o \<times> 'a"
  assumes step_out: "R c a \<Longrightarrow> Out (fst (cstep op c)) (fst (astep op a))"
    and step_rel: "R c a \<Longrightarrow> R (snd (cstep op c)) (snd (astep op a))"
begin

lemma outputs_rel: "R c a \<Longrightarrow> list_all2 Out (outputs cstep c ops) (outputs astep a ops)"
  by (induction ops arbitrary: c a) (auto simp: step_out step_rel)

end

section \<open>Lemmas\<close>

lemma dropWhile_trimmed: "s = [] \<or> \<not> js_space (hd s) \<Longrightarrow> dropWhile js_space s = s"
  by (cases s) auto

lemma go_TrimSpace_id:
  assumes "s = [] \<or> \<not> js_space (hd s) \<and> \<not> js_space (last s)"
  shows "go_TrimSpace s = s"
proof -
  have "dropWhile js_space s = s" "dropWhile js_space (rev s) = rev s"
    using assms by (auto simp: hd_rev intro!: dropWhile_trimmed)
  then show ?thesis by (simp add: go_TrimSpace_def js_trim_def)
qed

lemma go_SplitN2_append: "d \<notin> set s \<Longrightarrow> go_SplitN2 (s @ d # t) d = [s, t]"
  by (simp add: go_SplitN2_def takeWhile_append dropWhile_append)

end
