(* ===== verification/Gateway_Cache.thy ===== *)
theory Gateway_Cache
  imports Gateway_Prelude
begin

text \<open>
  The cache of \<^verbatim>\<open>pkg/cache/cache.go\<close>: a map whose entries expire, with a janitor that removes
  expired entries in the background. Every method holds the lock for its whole access to the map, so
  that a run of the process is a sequence of method calls; the clock is part of the state and moves
  between them. A nil pointer is \<^const>\<open>None\<close>. Instants and durations are nanoseconds.
\<close>

section \<open>Definitions\<close>

record 'v entry =
  entry_value :: 'v
  entry_expires :: int

record 'v ttl_cache =
  cache_ttl :: int
  cache_m :: "string \<rightharpoonup> 'v entry"

definition cache_New :: "int \<Rightarrow> 'v ttl_cache" where
  "cache_New ttl = \<lparr>cache_ttl = ttl, cache_m = Map.empty\<rparr>"

definition cache_Enabled :: "'v ttl_cache option \<Rightarrow> bool" where
  "cache_Enabled c = (case c of None \<Rightarrow> False | Some d \<Rightarrow> 0 < cache_ttl d)"

definition cache_Get :: "int \<Rightarrow> 'v ttl_cache option \<Rightarrow> string \<Rightarrow> 'v option" where
  "cache_Get now c key =
     (case c of
        None \<Rightarrow> None
      | Some d \<Rightarrow>
          if \<not> cache_Enabled c then None
          else (case cache_m d key of
                  None \<Rightarrow> None
                | Some e \<Rightarrow> (if entry_expires e < now then None else Some (entry_value e))))"

definition cache_Set :: "int \<Rightarrow> string \<Rightarrow> 'v \<Rightarrow> 'v ttl_cache option \<Rightarrow> 'v ttl_cache option" where
  "cache_Set now key value c =
     (if \<not> cache_Enabled c then c
      else map_option (\<lambda>d. d\<lparr>cache_m := (cache_m d)(key \<mapsto>
             \<lparr>entry_value = value, entry_expires = now + cache_ttl d\<rparr>)\<rparr>) c)"

definition evictExpired :: "int \<Rightarrow> 'v ttl_cache option \<Rightarrow> 'v ttl_cache option" where
  "evictExpired now c =
     map_option (\<lambda>d. d\<lparr>cache_m := (\<lambda>k. case cache_m d k of
         None \<Rightarrow> None
       | Some e \<Rightarrow> (if entry_expires e < now then None else Some e))\<rparr>) c"

definition cache_Delete :: "string \<Rightarrow> 'v ttl_cache option \<Rightarrow> 'v ttl_cache option" where
  "cache_Delete key c = map_option (\<lambda>d. d\<lparr>cache_m := (cache_m d)(key := None)\<rparr>) c"

definition cache_Purge :: "'v ttl_cache option \<Rightarrow> 'v ttl_cache option" where
  "cache_Purge c = map_option (\<lambda>d. d\<lparr>cache_m := Map.empty\<rparr>) c"

text \<open>A process that uses one cache: calls, the passing of time, and the janitor's sweeps.\<close>

datatype 'v cache_call = Get string | Set string 'v | Delete string | Purge | Sweep | Pass nat

record 'v cache_process =
  clock :: int
  the_cache :: "'v ttl_cache option"

fun cache_step :: "'v cache_call \<Rightarrow> 'v cache_process \<Rightarrow> 'v option \<times> 'v cache_process" where
  "cache_step (Get k) p = (cache_Get (clock p) (the_cache p) k, p)"
| "cache_step (Set k v) p = (None, p\<lparr>the_cache := cache_Set (clock p) k v (the_cache p)\<rparr>)"
| "cache_step (Delete k) p = (None, p\<lparr>the_cache := cache_Delete k (the_cache p)\<rparr>)"
| "cache_step Purge p = (None, p\<lparr>the_cache := cache_Purge (the_cache p)\<rparr>)"
| "cache_step Sweep p = (None, p\<lparr>the_cache := evictExpired (clock p) (the_cache p)\<rparr>)"
| "cache_step (Pass d) p = (None, p\<lparr>clock := clock p + int d\<rparr>)"

section \<open>The specification: a map without a janitor\<close>

text \<open>
  What a caller may rely on: the last value set under a key, for as long as its time has not run
  out. The janitor does nothing, and an entry is a pair of a value and the last instant at which it
  may be returned.
\<close>

record 'v cache_spec =
  spec_clock :: int
  spec_ttl :: int
  spec_map :: "string \<rightharpoonup> 'v \<times> int"

fun spec_step :: "'v cache_call \<Rightarrow> 'v cache_spec \<Rightarrow> 'v option \<times> 'v cache_spec" where
  "spec_step (Get k) s =
     ((case spec_map s k of Some (v, t) \<Rightarrow> if spec_clock s \<le> t then Some v else None | None \<Rightarrow> None), s)"
| "spec_step (Set k v) s =
     (None, if 0 < spec_ttl s then s\<lparr>spec_map := (spec_map s)(k \<mapsto> (v, spec_clock s + spec_ttl s))\<rparr> else s)"
| "spec_step (Delete k) s = (None, s\<lparr>spec_map := (spec_map s)(k := None)\<rparr>)"
| "spec_step Purge s = (None, s\<lparr>spec_map := Map.empty\<rparr>)"
| "spec_step Sweep s = (None, s)"
| "spec_step (Pass d) s = (None, s\<lparr>spec_clock := spec_clock s + int d\<rparr>)"

definition new_process :: "int \<Rightarrow> int \<Rightarrow> 'v cache_process" where
  "new_process now ttl = \<lparr>clock = now, the_cache = Some (cache_New ttl)\<rparr>"

definition new_spec :: "int \<Rightarrow> int \<Rightarrow> 'v cache_spec" where
  "new_spec now ttl = \<lparr>spec_clock = now, spec_ttl = ttl, spec_map = Map.empty\<rparr>"

section \<open>Lemmas\<close>

definition unexpired :: "int \<Rightarrow> ('v \<times> int) option \<Rightarrow> ('v \<times> int) option" where
  "unexpired t x = (case x of Some (v, e) \<Rightarrow> if t \<le> e then Some (v, e) else None | None \<Rightarrow> None)"

definition entry_pair :: "'v entry \<Rightarrow> 'v \<times> int" where
  "entry_pair e = (entry_value e, entry_expires e)"

text \<open>The two agree on the entries whose time has not run out.\<close>

definition cache_rel :: "'v cache_process \<Rightarrow> 'v cache_spec \<Rightarrow> bool" where
  "cache_rel p s \<longleftrightarrow>
     clock p = spec_clock s \<and>
     (\<exists>d. the_cache p = Some d \<and> cache_ttl d = spec_ttl s \<and>
        (0 < spec_ttl s \<or> spec_map s = Map.empty) \<and>
        (\<forall>k. unexpired (clock p) (map_option entry_pair (cache_m d k)) = unexpired (clock p) (spec_map s k)))"

lemma unexpired_simps [simp]:
  "unexpired t None = None"
  "unexpired t (Some (v, e)) = (if t \<le> e then Some (v, e) else None)"
  by (simp_all add: unexpired_def)

lemma unexpired_later: "unexpired t x = unexpired t y \<Longrightarrow> t \<le> u \<Longrightarrow> unexpired u x = unexpired u y"
  by (cases x; cases y) (auto split: if_splits)

lemma cache_Get_unexpired:
  "cache_Get t (Some d) k =
     (if 0 < cache_ttl d then map_option fst (unexpired t (map_option entry_pair (cache_m d k))) else None)"
  by (auto simp: cache_Get_def cache_Enabled_def entry_pair_def split: option.split)

lemma spec_Get_unexpired:
  "fst (spec_step (Get k) s) = map_option fst (unexpired (spec_clock s) (spec_map s k))"
  by (auto split: option.split)

lemma cache_step_out: "cache_rel p s \<Longrightarrow> fst (cache_step op p) = fst (spec_step op s)"
proof (cases op)
  case (Get k)
  assume "cache_rel p s"
  then show ?thesis
    unfolding Get spec_Get_unexpired by (auto simp: cache_rel_def cache_Get_unexpired)
qed auto

lemma cache_step_rel:
  assumes "cache_rel p s" shows "cache_rel (snd (cache_step op p)) (snd (spec_step op s))"
proof (cases op)
  case (Pass d)
  from assms obtain c where "clock p = spec_clock s" "the_cache p = Some c" "cache_ttl c = spec_ttl s"
    "0 < spec_ttl s \<or> spec_map s = Map.empty"
    and same: "\<And>k. unexpired (clock p) (map_option entry_pair (cache_m c k)) = unexpired (clock p) (spec_map s k)"
    unfolding cache_rel_def by blast
  moreover have "unexpired (clock p + int d) (map_option entry_pair (cache_m c k)) = unexpired (clock p + int d) (spec_map s k)" for k
    using same by (rule unexpired_later) simp
  ultimately show ?thesis
    by (simp add: Pass cache_rel_def del: unexpired_simps)
next
  case Sweep
  have "unexpired t (map_option entry_pair (case x of None \<Rightarrow> None | Some e \<Rightarrow> if entry_expires e < t then None else Some e)) =
      unexpired t (map_option entry_pair x)" for t :: int and x :: "'a entry option"
    by (auto simp: entry_pair_def split: option.split)
  with Sweep assms show ?thesis
    by (auto simp: cache_rel_def evictExpired_def)
qed (use assms in \<open>auto simp: cache_rel_def cache_Set_def cache_Delete_def cache_Purge_def cache_Enabled_def entry_pair_def\<close>)

interpretation janitor: simulation cache_rel "(=)" cache_step spec_step
  by unfold_locales (simp_all add: cache_step_out cache_step_rel)

lemma new_rel: "cache_rel (new_process now ttl) (new_spec now ttl)"
  by (simp add: cache_rel_def new_process_def new_spec_def cache_New_def)

lemma cache_Get_Set_same: "0 < cache_ttl d \<Longrightarrow> now \<le> t + cache_ttl d \<Longrightarrow> cache_Get now (cache_Set t k v (Some d)) k = Some v"
  by (simp add: cache_Get_def cache_Set_def cache_Enabled_def)

lemma cache_Get_Purge: "cache_Get now (cache_Purge c) k = None"
  by (cases c) (simp_all add: cache_Get_def cache_Purge_def)

lemma cache_Get_Set_SomeE:
  assumes "cache_Get now (cache_Set t k v c) k' = Some w"
  obtains "k' = k" "w = v" | "cache_Get now c k' = Some w"
  using assms
  by (cases c) (auto simp: cache_Get_def cache_Set_def cache_Enabled_def split: if_splits)

section \<open>Properties\<close>

text \<open>C29: A cache with its janitor gives, on every sequence of calls and sweeps and however time passes, exactly
  the answers of a map that keeps the last value set under each key until its time has run out: sweeps are
  invisible, and a cache with a TTL of zero or less never returns anything.\<close>

theorem cache_refines_spec:
  "outputs cache_step (new_process now ttl) calls = outputs spec_step (new_spec now ttl) calls"
  using janitor.outputs_rel [OF new_rel] by (simp add: list.rel_eq)

end
