(* ===== verification/Gateway_Integrity.thy ===== *)
theory Gateway_Integrity
  imports Gateway_Prelude Portal_Uri "HOL-Library.Char_ord" "HOL-Library.List_Lexorder"
begin

text \<open>
  The content hash of a tool definition, \<^verbatim>\<open>pkg/toolintegrity/integrity.go\<close>: a definition is printed as
  canonical JSON, in which the parameter schema is a string that holds the schema printed with sorted
  keys, and the text is hashed. Of \<^verbatim>\<open>encoding/json\<close> the printing is defined here (on valid UTF-8); the parser
  and SHA-256 with its hexadecimal digest are parameters. A number is represented by the text that
  \<^verbatim>\<open>json.Marshal\<close> prints for it, a Go map by an association list.
\<close>

section \<open>Definitions\<close>

record tool_def =
  td_name :: string
  td_description :: string
  td_method :: string
  td_path :: string
  td_schema :: string

datatype json =
    JNull
  | JBoolean bool
  | JNumber string
  | JString string
  | JArray "json list"
  | JObject "(string \<times> json) list"

record integrity_lib =
  il_unmarshal :: "string \<Rightarrow> json option"
  il_sha256 :: "string \<Rightarrow> string"

subsection \<open>Printing\<close>

definition quote :: char where
  "quote = CHR 0x22"

definition backslash :: char where
  "backslash = CHR 0x5C"

definition u_escape :: "string \<Rightarrow> string" where
  "u_escape h = [backslash, CHR ''u''] @ h"

text \<open>\<^verbatim>\<open>json.Marshal\<close> of a string, with the escapes for HTML that it applies by default.\<close>

definition escape_byte :: "char \<Rightarrow> string" where
  "escape_byte c =
     (if c = quote \<or> c = backslash then [backslash, c]
      else if c = CHR 0x08 then [backslash, CHR ''b'']
      else if c = CHR 0x0C then [backslash, CHR ''f'']
      else if c = CHR 0x0A then [backslash, CHR ''n'']
      else if c = CHR 0x0D then [backslash, CHR ''r'']
      else if c = CHR 0x09 then [backslash, CHR ''t'']
      else if (of_char c :: nat) < 32 \<or> c = CHR ''<'' \<or> c = CHR ''>'' \<or> c = CHR ''&''
      then u_escape (''00'' @ [hex_digit lower_hex (of_char c div 16), hex_digit lower_hex (of_char c mod 16)])
      else [c])"

fun escape_string :: "string \<Rightarrow> string" where
  "escape_string [] = []"
| "escape_string (c # s) =
     (if c = CHR 0xE2 \<and> prefix [CHR 0x80, CHR 0xA8] s then u_escape ''2028'' @ escape_string (drop 2 s)
      else if c = CHR 0xE2 \<and> prefix [CHR 0x80, CHR 0xA9] s then u_escape ''2029'' @ escape_string (drop 2 s)
      else escape_byte c @ escape_string s)"

definition json_quote :: "string \<Rightarrow> string" where
  "json_quote s = quote # escape_string s @ [quote]"

primrec writeCanonical :: "json \<Rightarrow> string" where
  "writeCanonical JNull = ''null''"
| "writeCanonical (JBoolean b) = (if b then ''true'' else ''false'')"
| "writeCanonical (JNumber n) = n"
| "writeCanonical (JString s) = json_quote s"
| "writeCanonical (JArray vs) = CHR ''['' # js_join '','' (map writeCanonical vs) @ '']''"
| "writeCanonical (JObject kvs) =
     (let m = map (map_prod id writeCanonical) kvs in
      CHR ''{'' # js_join '','' (map (\<lambda>k. json_quote k @ CHR '':'' # the (map_of m k)) (sort (map fst m))) @ ''}'')"

subsection \<open>Hashing\<close>

definition canonicalizeSchema :: "integrity_lib \<Rightarrow> string \<Rightarrow> string" where
  "canonicalizeSchema lib schema =
     (case il_unmarshal lib schema of None \<Rightarrow> schema | Some v \<Rightarrow> writeCanonical v)"

definition canonical_form :: "integrity_lib \<Rightarrow> tool_def \<Rightarrow> string" where
  "canonical_form lib d =
     CHR ''{'' # js_join '','' (map (\<lambda>(k, v). json_quote k @ CHR '':'' # json_quote v)
       [(''name'', td_name d), (''description'', td_description d), (''method'', td_method d), (''path'', td_path d),
        (''parameters_schema'', canonicalizeSchema lib (td_schema d))]) @ ''}''"

definition tool_hash :: "integrity_lib \<Rightarrow> tool_def \<Rightarrow> string" where
  "tool_hash lib d = il_sha256 lib (canonical_form lib d)"

definition tool_changed :: "integrity_lib \<Rightarrow> string \<Rightarrow> tool_def \<Rightarrow> bool" where
  "tool_changed lib priorHash d = (if priorHash = [] then False else tool_hash lib d \<noteq> priorHash)"

section \<open>Reference notions\<close>

text \<open>The value that a JSON text denotes: the keys of an object have no order, so that they are put in a fixed one.\<close>

primrec json_value :: "json \<Rightarrow> json" where
  "json_value JNull = JNull"
| "json_value (JBoolean b) = JBoolean b"
| "json_value (JNumber n) = JNumber n"
| "json_value (JString s) = JString s"
| "json_value (JArray vs) = JArray (map json_value vs)"
| "json_value (JObject kvs) =
     (let m = map (map_prod id json_value) kvs in JObject (map (\<lambda>k. (k, the (map_of m k))) (sort (map fst m))))"

text \<open>Two definitions that a client cannot tell apart: schemas that are JSON are compared as values, others as texts.\<close>

definition same_schema :: "integrity_lib \<Rightarrow> string \<Rightarrow> string \<Rightarrow> bool" where
  "same_schema lib s t =
     (case (il_unmarshal lib s, il_unmarshal lib t) of
        (Some v, Some w) \<Rightarrow> json_value v = json_value w
      | (None, None) \<Rightarrow> s = t
      | _ \<Rightarrow> False)"

definition same_def :: "integrity_lib \<Rightarrow> tool_def \<Rightarrow> tool_def \<Rightarrow> bool" where
  "same_def lib d e \<longleftrightarrow>
     td_name d = td_name e \<and> td_description d = td_description e \<and> td_method d = td_method e \<and>
     td_path d = td_path e \<and> same_schema lib (td_schema d) (td_schema e)"

text \<open>Numbers are texts of the characters that a JSON number is made of.\<close>

definition number_char :: "char \<Rightarrow> bool" where
  "number_char c \<longleftrightarrow> c \<in> set ''0123456789+-.eE''"

primrec numbers_ok :: "json \<Rightarrow> bool" where
  "numbers_ok JNull = True"
| "numbers_ok (JBoolean b) = True"
| "numbers_ok (JNumber n) = (n \<noteq> [] \<and> list_all number_char n)"
| "numbers_ok (JString s) = True"
| "numbers_ok (JArray vs) = list_all id (map numbers_ok vs)"
| "numbers_ok (JObject kvs) = list_all snd (map (map_prod id numbers_ok) kvs)"

text \<open>The documented behaviour of \<^verbatim>\<open>encoding/json\<close>: numbers are printed with those characters, and what was printed can be
  read.\<close>

definition json_lib_ok :: "integrity_lib \<Rightarrow> bool" where
  "json_lib_ok lib \<longleftrightarrow>
     (\<forall>s v. il_unmarshal lib s = Some v \<longrightarrow> numbers_ok v \<and> il_unmarshal lib (writeCanonical v) \<noteq> None)"

text \<open>A value printed with the keys in the order they have.\<close>

primrec print_json :: "json \<Rightarrow> string" where
  "print_json JNull = ''null''"
| "print_json (JBoolean b) = (if b then ''true'' else ''false'')"
| "print_json (JNumber n) = n"
| "print_json (JString s) = json_quote s"
| "print_json (JArray vs) = CHR ''['' # js_join '','' (map print_json vs) @ '']''"
| "print_json (JObject kvs) =
     CHR ''{'' # js_join '','' (map (\<lambda>(k, p). json_quote k @ CHR '':'' # p) (map (map_prod id print_json) kvs)) @ ''}''"

text \<open>Reading a string back, after its opening quote.\<close>

definition unescape_char :: "char \<Rightarrow> char" where
  "unescape_char c =
     (if c = CHR ''b'' then CHR 0x08 else if c = CHR ''f'' then CHR 0x0C else if c = CHR ''n'' then CHR 0x0A
      else if c = CHR ''r'' then CHR 0x0D else if c = CHR ''t'' then CHR 0x09 else c)"

definition unescape_hex :: "string \<Rightarrow> string" where
  "unescape_hex h =
     (if h = ''2028'' then [CHR 0xE2, CHR 0x80, CHR 0xA8] else if h = ''2029'' then [CHR 0xE2, CHR 0x80, CHR 0xA9]
      else [char_of (16 * the (hex_value (h ! 2)) + the (hex_value (h ! 3)))])"

fun read_string :: "string \<Rightarrow> string \<times> string" where
  "read_string [] = ([], [])"
| "read_string (c # s) =
     (if c = quote then ([], s)
      else if c = backslash then
        (case s of
           [] \<Rightarrow> ([], [])
         | d # t \<Rightarrow> (if d = CHR ''u'' then apfst ((@) (unescape_hex (take 4 t))) (read_string (drop 4 t))
                   else apfst ((#) (unescape_char d)) (read_string t)))
      else apfst ((#) c) (read_string s))"

section \<open>Lemmas\<close>

subsection \<open>Strings\<close>

lemma unescape_hex_byte:
  "unescape_hex (''00'' @ [hex_digit lower_hex (of_char c div 16), hex_digit lower_hex (of_char c mod 16)]) = [c]"
proof -
  have "16 * (of_char c div 16) + of_char c mod 16 = (of_char c :: nat)" by simp
  then have "char_of (16 * (of_char c div 16) + of_char c mod 16 :: nat) = c" by (simp only: char_of_char)
  then show ?thesis by (simp add: unescape_hex_def numeral_2_eq_2 numeral_3_eq_3)
qed

lemma read_escape_byte: "read_string (escape_byte c @ r) = apfst ((#) c) (read_string r)"
  using unescape_hex_byte [of c]
  by (auto simp: escape_byte_def u_escape_def unescape_char_def quote_def backslash_def)

lemma read_escape_string: "read_string (escape_string s @ quote # r) = (s, r)"
proof (induction s rule: escape_string.induct)
  case (2 c s)
  show ?case
  proof (cases "c = CHR 0xE2 \<and> (prefix [CHR 0x80, CHR 0xA8] s \<or> prefix [CHR 0x80, CHR 0xA9] s)")
    case True
    then show ?thesis
      using 2(1,2) by (auto simp: prefix_def u_escape_def unescape_hex_def quote_def backslash_def)
  next
    case False
    then show ?thesis
      using 2(3) by (auto simp: read_escape_byte)
  qed
qed simp

lemma json_quote_eq [simp]: "json_quote a @ s = json_quote b @ t \<longleftrightarrow> a = b \<and> s = t"
proof
  assume "json_quote a @ s = json_quote b @ t"
  then have "escape_string a @ quote # s = escape_string b @ quote # t" by (simp add: json_quote_def)
  then have "(a, s) = (b, t)" using read_escape_string by metis
  then show "a = b \<and> s = t" by simp
qed simp

lemma json_quote_inj [simp]: "json_quote a = json_quote b \<longleftrightarrow> a = b"
  using json_quote_eq [of a "[]" b "[]"] by simp

subsection \<open>Unique readability\<close>

definition delimited :: "string \<Rightarrow> bool" where
  "delimited s \<longleftrightarrow> s = [] \<or> hd s \<in> set '',]}''"

lemma join_Cons: "\<exists>r. js_join d (x # xs) = x @ r"
  by (cases xs) simp_all

lemma join_open: "f y \<noteq> [] \<Longrightarrow> hd (f y) \<noteq> c \<Longrightarrow> js_join d (map f (y # ys)) @ u \<noteq> c # v"
  using join_Cons [of d "f y" "map f ys"] by (auto simp: neq_Nil_conv)

lemma join_unique:
  assumes "\<And>x y s t. x \<in> set xs \<Longrightarrow> y \<in> set ys \<Longrightarrow> delimited s \<Longrightarrow> delimited t \<Longrightarrow> f x @ s = f y @ t \<Longrightarrow> x = y \<and> s = t"
    and "\<And>x. x \<in> set xs \<union> set ys \<Longrightarrow> f x \<noteq> [] \<and> hd (f x) \<noteq> c" "c \<in> set '']}''"
    and "js_join '','' (map f xs) @ c # s = js_join '','' (map f ys) @ c # t"
  shows "xs = ys \<and> s = t"
  using assms
proof (induction xs arbitrary: ys)
  case Nil
  show ?case
  proof (cases ys)
    case (Cons y ys')
    then show ?thesis using Nil.prems(2) [of y] Nil.prems(4) join_open [of f y c "'',''" ys' "c # t" s] by auto
  qed (use Nil in simp)
next
  case (Cons x xs)
  obtain y ys' where ys: "ys = y # ys'"
    using Cons.prems(2) [of x] Cons.prems(4) join_open [of f x c "'',''" xs "c # s" t] by (cases ys) auto
  define r where "r = (\<lambda>zs u. if zs = [] then c # u else '','' @ js_join '','' (map f zs) @ c # u)"
  have split: "js_join '','' (map f (z # zs)) @ c # u = f z @ r zs u" for z zs u
    by (cases zs) (simp_all add: r_def)
  have "delimited (r zs u)" for zs u
    using Cons.prems(3) by (auto simp: r_def delimited_def)
  then have "x = y \<and> r xs s = r ys' t"
    using Cons.prems(1) [of x y "r xs s" "r ys' t"] Cons.prems(4) unfolding ys split by simp
  moreover from this have "xs = [] \<longleftrightarrow> ys' = []"
    using Cons.prems(3) by (auto simp: r_def split: if_splits)
  ultimately show ?case
    using Cons.IH [of ys'] Cons.prems(1-3) unfolding ys by (auto simp: r_def split: if_splits)
qed

text \<open>The first character of a printed value tells what kind of value it is.\<close>

fun first_char :: "json \<Rightarrow> char \<Rightarrow> bool" where
  "first_char JNull c = (c = CHR ''n'')"
| "first_char (JBoolean b) c = (c = (if b then CHR ''t'' else CHR ''f''))"
| "first_char (JNumber n) c = number_char c"
| "first_char (JString s) c = (c = quote)"
| "first_char (JArray vs) c = (c = CHR ''['')"
| "first_char (JObject kvs) c = (c = CHR ''{'')"

lemma no_number_char: "list_all (\<lambda>c. \<not> number_char c) (quote # '',]}:nft[{'')"
  by code_simp

lemmas no_number_chars [simp] = no_number_char [unfolded list.pred_inject, THEN conjunct1]
  no_number_char [unfolded list.pred_inject, THEN conjunct2]

lemma print_first: "numbers_ok v \<Longrightarrow> \<exists>c r. print_json v = c # r \<and> first_char v c"
  by (cases v) (auto simp: json_quote_def neq_Nil_conv)

lemma first_char_opens: "first_char v c \<Longrightarrow> c \<noteq> CHR '','' \<and> c \<noteq> CHR '']'' \<and> c \<noteq> CHR ''}''"
  using no_number_chars by (cases v) (auto simp: quote_def)

fun same_kind :: "json \<Rightarrow> json \<Rightarrow> bool" where
  "same_kind JNull JNull = True"
| "same_kind (JBoolean b) (JBoolean c) = (b = c)"
| "same_kind (JNumber n) (JNumber m) = True"
| "same_kind (JString s) (JString t) = True"
| "same_kind (JArray vs) (JArray ws) = True"
| "same_kind (JObject kvs) (JObject kws) = True"
| "same_kind _ _ = False"

lemma first_char_kind: "first_char v c \<Longrightarrow> first_char w c \<Longrightarrow> same_kind v w"
  using no_number_chars by (cases v; cases w) (auto simp: quote_def split: if_splits)

lemma print_kind:
  assumes "numbers_ok v" "numbers_ok w" "print_json v @ s = print_json w @ t"
  shows "same_kind v w"
  using print_first [OF assms(1)] print_first [OF assms(2)] assms(3) first_char_kind by auto

lemma hd_print: "numbers_ok v \<Longrightarrow> print_json v \<noteq> [] \<and> hd (print_json v) \<noteq> CHR '']''"
  using print_first [of v] first_char_opens by fastforce

lemma number_unique:
  assumes "list_all number_char n" "list_all number_char m" "delimited s" "delimited t" "n @ s = m @ t"
  shows "n = m \<and> s = t"
proof -
  have tw: "takeWhile number_char (n @ s) = n" if "list_all number_char n" "delimited s" for n s
  proof -
    have "takeWhile number_char s = []"
      using that(2) by (cases s) (auto simp: delimited_def number_char_def)
    with that(1) show ?thesis by (simp add: takeWhile_append list_all_iff)
  qed
  from tw [OF assms(1,3)] tw [OF assms(2,4)] assms(5) show ?thesis by auto
qed

fun_cases same_kindE: "same_kind JNull w" "same_kind (JBoolean b) w" "same_kind (JNumber n) w" "same_kind (JString s) w"
  "same_kind (JArray vs) w" "same_kind (JObject kvs) w"

lemma print_unique:
  "numbers_ok v \<Longrightarrow> numbers_ok w \<Longrightarrow> delimited s \<Longrightarrow> delimited t \<Longrightarrow> print_json v @ s = print_json w @ t \<Longrightarrow> v = w \<and> s = t"
proof (induction v arbitrary: w s t)
  case JNull
  then show ?case using print_kind [of JNull w s t] by (auto elim!: same_kindE)
next
  case (JBoolean b)
  then show ?case using print_kind [of "JBoolean b" w s t] by (auto elim!: same_kindE)
next
  case (JNumber n)
  obtain m where w: "w = JNumber m"
    using print_kind [OF JNumber.prems(1,2,5)] by (auto elim!: same_kindE)
  with JNumber.prems number_unique [of n m s t] show ?case by simp
next
  case (JString x)
  obtain y where w: "w = JString y"
    using print_kind [OF JString.prems(1,2,5)] by (auto elim!: same_kindE)
  with JString.prems(5) show ?case by simp
next
  case (JArray vs)
  obtain ws where w: "w = JArray ws"
    using print_kind [OF JArray.prems(1,2,5)] by (auto elim!: same_kindE)
  have "vs = ws \<and> s = t"
  proof (rule join_unique [where f = print_json and c = "CHR '']''"])
    show "x = y \<and> s = t" if "x \<in> set vs" "y \<in> set ws" "delimited s" "delimited t" "print_json x @ s = print_json y @ t" for x y s t
      using JArray.IH [OF that(1), of y s t] JArray.prems(1,2) that w by (auto simp: list_all_iff)
    show "print_json x \<noteq> [] \<and> hd (print_json x) \<noteq> CHR '']''" if "x \<in> set vs \<union> set ws" for x
      using JArray.prems(1,2) that w by (intro hd_print) (auto simp: list_all_iff)
  qed (use JArray.prems(5) w in simp_all)
  with w show ?case by simp
next
  case (JObject kvs)
  obtain kws where w: "w = JObject kws"
    using print_kind [OF JObject.prems(1,2,5)] by (auto elim!: same_kindE)
  let ?f = "\<lambda>(k, v). json_quote k @ CHR '':'' # print_json v"
  have f: "map (\<lambda>(k, p). json_quote k @ CHR '':'' # p) (map (map_prod id print_json) xs) = map ?f xs" for xs
    by (simp add: split_beta)
  have ok: "numbers_ok (snd x)" if "x \<in> set kvs \<union> set kws" for x
    using JObject.prems(1,2) that w by (auto simp: list_all_iff)
  have "kvs = kws \<and> s = t"
  proof (rule join_unique [where f = ?f and c = "CHR ''}''"])
    show "x = y \<and> s = t" if "x \<in> set kvs" "y \<in> set kws" "delimited s" "delimited t" "?f x @ s = ?f y @ t" for x y s t
      using JObject.IH [of x "snd x" "snd y" s t] ok [of x] ok [of y] that
      by (auto simp: split_beta prod_eq_iff snds.simps)
    show "?f x \<noteq> [] \<and> hd (?f x) \<noteq> CHR ''}''" for x
      by (simp add: split_beta json_quote_def quote_def)
  qed (use JObject.prems(5) w in \<open>simp_all add: f del: map_map\<close>)
  with w show ?case by simp
qed

subsection \<open>Canonical texts\<close>

lemma map_of_map_prod: "map_of (map (map_prod id g) xs) k = map_option g (map_of xs k)"
  by (induction xs) auto

lemma writeCanonical_print: "writeCanonical v = print_json (json_value v)"
proof (induction v)
  case (JObject kvs)
  have "the (map_of (map (map_prod id writeCanonical) kvs) k) = print_json (the (map_of (map (map_prod id json_value) kvs) k))"
    if k: "k \<in> set (map fst kvs)" for k
  proof -
    obtain v where v: "map_of kvs k = Some v" using k map_of_eq_None_iff [of kvs k] by (cases "map_of kvs k") auto
    then have "(k, v) \<in> set kvs" by (rule map_of_SomeD)
    then have "writeCanonical v = print_json (json_value v)" by (rule JObject.IH) (simp add: snds.simps)
    with v show ?thesis by (simp add: map_of_map_prod)
  qed
  then show ?case by (auto simp: Let_def comp_def split_beta intro!: arg_cong [where f = "js_join _"] map_cong)
qed (simp_all cong: map_cong)

lemma numbers_json_value: "numbers_ok v \<Longrightarrow> numbers_ok (json_value v)"
proof (induction v)
  case (JObject kvs)
  have "numbers_ok (the (map_of (map (map_prod id json_value) kvs) k))" if k: "k \<in> set (map fst kvs)" for k
  proof -
    obtain v where v: "map_of kvs k = Some v" using k map_of_eq_None_iff [of kvs k] by (cases "map_of kvs k") auto
    then have "(k, v) \<in> set kvs" by (rule map_of_SomeD)
    then have "numbers_ok (json_value v)" using JObject by (auto simp: list_all_iff snds.simps)
    with v show ?thesis by (simp add: map_of_map_prod)
  qed
  then show ?case by (auto simp: Let_def list_all_iff)
qed (auto simp: list_all_iff)

lemma writeCanonical_eq:
  "numbers_ok v \<Longrightarrow> numbers_ok w \<Longrightarrow> writeCanonical v = writeCanonical w \<longleftrightarrow> json_value v = json_value w"
  using print_unique [of "json_value v" "json_value w" "[]" "[]"]
  by (auto simp: writeCanonical_print numbers_json_value delimited_def)

lemma canonicalizeSchema_eq:
  assumes "json_lib_ok lib"
  shows "canonicalizeSchema lib s = canonicalizeSchema lib t \<longleftrightarrow> same_schema lib s t"
proof -
  have ok: "numbers_ok v \<and> il_unmarshal lib (writeCanonical v) \<noteq> None" if "il_unmarshal lib s = Some v" for s v
    using assms that by (auto simp: json_lib_ok_def)
  show ?thesis
    using ok [of s] ok [of t]
    by (cases "il_unmarshal lib s"; cases "il_unmarshal lib t")
      (auto simp: canonicalizeSchema_def same_schema_def writeCanonical_eq)
qed

lemma canonical_form_eq:
  assumes "json_lib_ok lib"
  shows "canonical_form lib d = canonical_form lib e \<longleftrightarrow> same_def lib d e"
  by (auto simp: canonical_form_def same_def_def canonicalizeSchema_eq [OF assms])

text \<open>No collision of SHA-256 on two definitions.\<close>

definition no_collision :: "integrity_lib \<Rightarrow> tool_def \<Rightarrow> tool_def \<Rightarrow> bool" where
  "no_collision lib d e \<longleftrightarrow>
     (il_sha256 lib (canonical_form lib d) = il_sha256 lib (canonical_form lib e) \<longrightarrow>
      canonical_form lib d = canonical_form lib e)"

lemma tool_hash_eq:
  "json_lib_ok lib \<Longrightarrow> no_collision lib d e \<Longrightarrow> tool_hash lib d = tool_hash lib e \<longleftrightarrow> same_def lib d e"
  unfolding tool_hash_def no_collision_def using canonical_form_eq [of lib d e] by auto

text \<open>A library for the examples: it can read one schema, in two spellings, and does not hash.\<close>

definition toy_integrity :: integrity_lib where
  "toy_integrity =
     \<lparr>il_unmarshal = (\<lambda>s. if s = ''{}'' \<or> s = ''{ }'' then Some (JObject []) else None), il_sha256 = (\<lambda>s. s)\<rparr>"

lemma toy_integrity_ok: "json_lib_ok toy_integrity" "no_collision toy_integrity d e"
  by (auto simp: json_lib_ok_def no_collision_def toy_integrity_def)

definition toy_tool :: tool_def where
  "toy_tool = \<lparr>td_name = ''list'', td_description = [], td_method = ''GET'', td_path = ''/orders'', td_schema = ''{}''\<rparr>"

section \<open>Properties\<close>

text \<open>C31: The hash of a tool definition changes exactly when the definition does: two definitions have the same hash if
  and only if name, description, method and path are the same and the schemas are the same JSON value, whatever the
  order of keys, the white space and the escapes they are written with (or the same text, if they are not JSON).\<close>

theorem tool_hash_faithful:
  assumes "json_lib_ok lib" "no_collision lib d e"
  shows "tool_hash lib d = tool_hash lib e \<longleftrightarrow> same_def lib d e"
  by (rule tool_hash_eq [OF assms])

theorem tool_hash_faithful_witness:
  "tool_hash toy_integrity toy_tool = tool_hash toy_integrity (toy_tool\<lparr>td_schema := ''{ }''\<rparr>) \<and>
   tool_hash toy_integrity toy_tool \<noteq> tool_hash toy_integrity (toy_tool\<lparr>td_schema := ''{  }''\<rparr>)"
  using tool_hash_faithful [OF toy_integrity_ok, of toy_tool "toy_tool\<lparr>td_schema := ''{ }''\<rparr>"]
    tool_hash_faithful [OF toy_integrity_ok, of toy_tool "toy_tool\<lparr>td_schema := ''{  }''\<rparr>"]
  by (simp add: same_def_def same_schema_def toy_integrity_def toy_tool_def)

end
