(* ===== verification/Gateway_Store.thy ===== *)
theory Gateway_Store
  imports Gateway_Cache Gateway_Integrity Portal_Data
begin

text \<open>
  The persistence layer of \<^verbatim>\<open>pkg/storage/db.go\<close>. The four tables are lists of rows in insertion
  order; each method is the effect of its SQL statement on them: \<^verbatim>\<open>INSERT ... ON CONFLICT(id) DO
  UPDATE\<close> replaces the row with the same primary key in place, the \<^verbatim>\<open>UNIQUE\<close> constraints of
  the schema make a write fail and change nothing, and foreign keys are enforced (with \<^verbatim>\<open>ON DELETE
  CASCADE\<close>) only if the engine does so, which is a parameter of the state: PostgreSQL does, SQLite
  does not unless it is asked to, and \<^verbatim>\<open>db.go\<close> does not ask. A statement may also fail in the driver:
  the outcome is an argument. The digest of a token (SHA-256) and the hash of a tool's definition are
  arguments; the environment of the store fixes the latter to \<open>tool_hash\<close>. Two caches hold the lists of connections and endpoints
  and are purged by every successful write to them.
\<close>

section \<open>Definitions\<close>

record stored_endpoint = api_endpoint +
  ep_definition_hash :: string
  ep_version :: int

record audit_row = audit_log +
  log_id :: string

datatype db_error = Fault string | UniqueViolation | ForeignKeyViolation | NoRows | LookupFailed db_error

type_synonym fault = "string option"

record db =
  fk_enforced :: bool
  t_connections :: "connection list"
  t_endpoints :: "stored_endpoint list"
  t_audit :: "audit_row list"
  t_tokens :: "client_token list"
  connCache :: "connection list ttl_cache option"
  epCache :: "stored_endpoint list ttl_cache option"

text \<open>
  A database as \<^verbatim>\<open>NewDB\<close> finds it: a table that does not exist has no rows, and three columns may be missing, since
  earlier versions did not have them; the fields of a row for a missing column have no meaning. \<^verbatim>\<open>initSchema\<close> adds the
  columns: a row from before reads as without prefix and hash (\<^verbatim>\<open>COALESCE\<close> of \<^verbatim>\<open>NULL\<close>) and has version 1.
\<close>

record db_file =
  f_prefix_column :: bool
  f_hash_column :: bool
  f_version_column :: bool
  f_connections :: "connection list"
  f_endpoints :: "stored_endpoint list"
  f_audit :: "audit_row list"
  f_tokens :: "client_token list"

definition initSchema :: "db_file \<Rightarrow> db_file" where
  "initSchema dbf =
     dbf\<lparr>f_prefix_column := True, f_hash_column := True, f_version_column := True,
       f_connections := map (\<lambda>c. if f_prefix_column dbf then c else c\<lparr>conn_tool_prefix := []\<rparr>) (f_connections dbf),
       f_endpoints := map (\<lambda>e. e\<lparr>ep_definition_hash := if f_hash_column dbf then ep_definition_hash e else [],
         ep_version := if f_version_column dbf then ep_version e else 1\<rparr>) (f_endpoints dbf)\<rparr>"

datatype open_error = OpenFailed string | PingFailed string | SchemaFailed string

definition NewDB :: "open_error option \<Rightarrow> bool \<Rightarrow> db_file \<Rightarrow> open_error + db" where
  "NewDB f fk dbf =
     (case f of
        Some e \<Rightarrow> Inl e
      | None \<Rightarrow>
          (let dbf = initSchema dbf in
           Inr \<lparr>fk_enforced = fk, t_connections = f_connections dbf, t_endpoints = f_endpoints dbf, t_audit = f_audit dbf,
                t_tokens = f_tokens dbf, connCache = None, epCache = None\<rparr>))"

definition EnableConfigCache :: "int \<Rightarrow> db \<Rightarrow> db" where
  "EnableConfigCache ttl d = d\<lparr>connCache := Some (cache_New ttl), epCache := Some (cache_New ttl)\<rparr>"

definition invalidateCaches :: "db \<Rightarrow> db" where
  "invalidateCaches d = d\<lparr>connCache := cache_Purge (connCache d), epCache := cache_Purge (epCache d)\<rparr>"

definition all_key :: string where
  "all_key = ''all''"

subsection \<open>Connections\<close>

definition GetConnections :: "fault \<Rightarrow> int \<Rightarrow> db \<Rightarrow> (db_error + connection list) \<times> db" where
  "GetConnections f now d =
     (case cache_Get now (connCache d) all_key of
        Some v \<Rightarrow> (Inr v, d)
      | None \<Rightarrow>
          (case f of
             Some e \<Rightarrow> (Inl (Fault e), d)
           | None \<Rightarrow> (Inr (t_connections d),
                      d\<lparr>connCache := cache_Set now all_key (t_connections d) (connCache d)\<rparr>)))"

definition GetConnection :: "fault \<Rightarrow> string \<Rightarrow> db \<Rightarrow> db_error + connection" where
  "GetConnection f i d =
     (case f of
        Some e \<Rightarrow> Inl (Fault e)
      | None \<Rightarrow> (case find (\<lambda>c. conn_id c = i) (t_connections d) of None \<Rightarrow> Inl NoRows | Some c \<Rightarrow> Inr c))"

definition SaveConnection :: "fault \<Rightarrow> connection \<Rightarrow> db \<Rightarrow> (db_error + unit) \<times> db" where
  "SaveConnection f conn d =
     (case f of
        Some e \<Rightarrow> (Inl (Fault e), d)
      | None \<Rightarrow>
          (if list_ex (\<lambda>c. conn_name c = conn_name conn \<and> conn_id c \<noteq> conn_id conn) (t_connections d)
           then (Inl UniqueViolation, d)
           else (Inr (), invalidateCaches (d\<lparr>t_connections := upsert conn_id conn (t_connections d)\<rparr>))))"

definition DeleteConnection :: "fault \<Rightarrow> string \<Rightarrow> db \<Rightarrow> (db_error + unit) \<times> db" where
  "DeleteConnection f i d =
     (case f of
        Some e \<Rightarrow> (Inl (Fault e), d)
      | None \<Rightarrow>
          (let d1 = d\<lparr>t_connections := filter (\<lambda>c. conn_id c \<noteq> i) (t_connections d)\<rparr>;
               d2 = (if fk_enforced d
                     then d1\<lparr>t_endpoints := filter (\<lambda>e. ep_connection_id e \<noteq> i) (t_endpoints d)\<rparr> else d1)
           in (Inr (), invalidateCaches d2)))"

subsection \<open>Endpoints\<close>

definition GetEndpoints :: "fault \<Rightarrow> string \<Rightarrow> db \<Rightarrow> db_error + stored_endpoint list" where
  "GetEndpoints f i d =
     (case f of
        Some e \<Rightarrow> Inl (Fault e)
      | None \<Rightarrow> Inr (filter (\<lambda>e. ep_connection_id e = i) (t_endpoints d)))"

definition GetAllEndpoints :: "fault \<Rightarrow> int \<Rightarrow> db \<Rightarrow> (db_error + stored_endpoint list) \<times> db" where
  "GetAllEndpoints f now d =
     (case cache_Get now (epCache d) all_key of
        Some v \<Rightarrow> (Inr v, d)
      | None \<Rightarrow>
          (case f of
             Some e \<Rightarrow> (Inl (Fault e), d)
           | None \<Rightarrow> (Inr (t_endpoints d),
                      d\<lparr>epCache := cache_Set now all_key (t_endpoints d) (epCache d)\<rparr>)))"

definition endpoint_def :: "('a api_endpoint_scheme) \<Rightarrow> tool_def" where
  "endpoint_def ep =
     \<lparr>td_name = ep_tool_name ep, td_description = ep_tool_description ep, td_method = ep_method ep,
      td_path = ep_path ep, td_schema = ep_parameters_schema ep\<rparr>"

text \<open>The hash and the version that a save records.\<close>

definition stamp :: "(tool_def \<Rightarrow> string) \<Rightarrow> stored_endpoint \<Rightarrow> db \<Rightarrow> stored_endpoint" where
  "stamp H ep d =
     (let newHash = H (endpoint_def ep);
          version = (case find (\<lambda>e. ep_id e = ep_id ep) (t_endpoints d) of
                       None \<Rightarrow> 1
                     | Some e \<Rightarrow> (if ep_definition_hash e \<noteq> newHash then ep_version e + 1 else ep_version e))
      in ep\<lparr>ep_definition_hash := newHash, ep_version := version\<rparr>)"

definition SaveEndpoint ::
  "(tool_def \<Rightarrow> string) \<Rightarrow> fault \<Rightarrow> fault \<Rightarrow> stored_endpoint \<Rightarrow> db \<Rightarrow> (db_error + stored_endpoint) \<times> db" where
  "SaveEndpoint H f1 f2 ep d =
     (case f1 of
        Some e \<Rightarrow> (Inl (LookupFailed (Fault e)), d)
      | None \<Rightarrow>
          (let ep' = stamp H ep d in
           case f2 of
             Some e \<Rightarrow> (Inl (Fault e), d)
           | None \<Rightarrow>
               (if list_ex (\<lambda>e. ep_tool_name e = ep_tool_name ep \<and> ep_id e \<noteq> ep_id ep) (t_endpoints d)
                then (Inl UniqueViolation, d)
                else if fk_enforced d \<and> ep_connection_id ep \<notin> conn_id ` set (t_connections d)
                then (Inl ForeignKeyViolation, d)
                else (Inr ep', invalidateCaches (d\<lparr>t_endpoints := upsert ep_id ep' (t_endpoints d)\<rparr>)))))"

definition DeleteEndpoint :: "fault \<Rightarrow> string \<Rightarrow> db \<Rightarrow> (db_error + unit) \<times> db" where
  "DeleteEndpoint f i d =
     (case f of
        Some e \<Rightarrow> (Inl (Fault e), d)
      | None \<Rightarrow> (Inr (), invalidateCaches (d\<lparr>t_endpoints := filter (\<lambda>e. ep_id e \<noteq> i) (t_endpoints d)\<rparr>)))"

subsection \<open>Audit log\<close>

text \<open>The row as it is stored: \<open>now\<close> is the engine's \<^verbatim>\<open>CURRENT_TIMESTAMP\<close>.\<close>

definition LogAudit :: "fault \<Rightarrow> string \<Rightarrow> audit_row \<Rightarrow> db \<Rightarrow> (db_error + unit) \<times> db" where
  "LogAudit f now r d =
     (case f of
        Some e \<Rightarrow> (Inl (Fault e), d)
      | None \<Rightarrow>
          (if list_ex (\<lambda>x. log_id x = log_id r) (t_audit d) then (Inl UniqueViolation, d)
           else (Inr (), d\<lparr>t_audit := t_audit d @ [r\<lparr>log_timestamp := now\<rparr>]\<rparr>)))"

text \<open>\<^verbatim>\<open>ORDER BY timestamp DESC LIMIT 100\<close>; \<open>rank\<close> is the instant a timestamp stands for. Rows of the same
  instant may come in any order; here the one inserted last comes first.\<close>

definition GetAuditLogs :: "(string \<Rightarrow> int) \<Rightarrow> fault \<Rightarrow> db \<Rightarrow> db_error + audit_row list" where
  "GetAuditLogs rank f d =
     (case f of
        Some e \<Rightarrow> Inl (Fault e)
      | None \<Rightarrow> Inr (take 100 (rev (sort_key (\<lambda>r. rank (log_timestamp r)) (t_audit d)))))"

subsection \<open>Client tokens\<close>

definition GetClientToken :: "(string \<Rightarrow> string) \<Rightarrow> fault \<Rightarrow> string \<Rightarrow> db \<Rightarrow> db_error + client_token" where
  "GetClientToken HashToken f token d =
     (case f of
        Some e \<Rightarrow> Inl (Fault e)
      | None \<Rightarrow>
          (case find (\<lambda>t. tok_token t = HashToken token) (t_tokens d) of
             None \<Rightarrow> Inl NoRows
           | Some t \<Rightarrow> Inr (t\<lparr>tok_token := []\<rparr>)))"

definition SaveClientToken :: "(string \<Rightarrow> string) \<Rightarrow> fault \<Rightarrow> client_token \<Rightarrow> db \<Rightarrow> (db_error + unit) \<times> db" where
  "SaveClientToken HashToken f t d =
     (case f of
        Some e \<Rightarrow> (Inl (Fault e), d)
      | None \<Rightarrow>
          (let r = t\<lparr>tok_token := HashToken (tok_token t)\<rparr> in
           if list_ex (\<lambda>x. tok_client_name x = tok_client_name r \<and> tok_token x \<noteq> tok_token r) (t_tokens d)
           then (Inl UniqueViolation, d)
           else (Inr (), d\<lparr>t_tokens := upsert tok_token r (t_tokens d)\<rparr>)))"

definition DeleteClientToken :: "(string \<Rightarrow> string) \<Rightarrow> fault \<Rightarrow> string \<Rightarrow> db \<Rightarrow> (db_error + unit) \<times> db" where
  "DeleteClientToken HashToken f token d =
     (case f of
        Some e \<Rightarrow> (Inl (Fault e), d)
      | None \<Rightarrow> (Inr (), d\<lparr>t_tokens := filter (\<lambda>t. tok_token t \<noteq> HashToken token) (t_tokens d)\<rparr>))"

definition DeleteClientTokenByName :: "fault \<Rightarrow> string \<Rightarrow> db \<Rightarrow> (db_error + unit) \<times> db" where
  "DeleteClientTokenByName f name d =
     (case f of
        Some e \<Rightarrow> (Inl (Fault e), d)
      | None \<Rightarrow> (Inr (), d\<lparr>t_tokens := filter (\<lambda>t. tok_client_name t \<noteq> name) (t_tokens d)\<rparr>))"

definition GetClientTokens :: "fault \<Rightarrow> db \<Rightarrow> db_error + client_token list" where
  "GetClientTokens f d =
     (case f of
        Some e \<Rightarrow> Inl (Fault e)
      | None \<Rightarrow> Inr (map (\<lambda>t. t\<lparr>tok_token := []\<rparr>) (t_tokens d)))"

section \<open>The store as its clients see it\<close>

text \<open>The calls of the interface \<^verbatim>\<open>Store\<close>, each with the outcome of its statements, and their replies.\<close>

datatype store_call =
    CGetConnections fault
  | CSaveConnection fault connection
  | CDeleteConnection fault string
  | CGetEndpoints fault string
  | CGetAllEndpoints fault
  | CSaveEndpoint fault fault stored_endpoint
  | CDeleteEndpoint fault string
  | CLogAudit fault string audit_row
  | CGetAuditLogs fault
  | CGetClientToken fault string
  | CSaveClientToken fault client_token
  | CDeleteClientToken fault string
  | CDeleteClientTokenByName fault string
  | CGetClientTokens fault
  | CPass nat

datatype store_reply =
    RError db_error
  | RUnit
  | RConnections "connection list"
  | REndpoints "stored_endpoint list"
  | REndpoint stored_endpoint
  | RLogs "audit_row list"
  | RToken client_token
  | RTokens "client_token list"

definition reply :: "('a \<Rightarrow> store_reply) \<Rightarrow> db_error + 'a \<Rightarrow> store_reply" where
  "reply g r = (case r of Inl e \<Rightarrow> RError e | Inr x \<Rightarrow> g x)"

record store_env =
  hash_token :: "string \<Rightarrow> string"
  integrity :: integrity_lib
  rank_time :: "string \<Rightarrow> int"

definition hash_def :: "store_env \<Rightarrow> tool_def \<Rightarrow> string" where
  "hash_def env = tool_hash (integrity env)"

fun store_step :: "store_env \<Rightarrow> store_call \<Rightarrow> int \<times> db \<Rightarrow> store_reply \<times> (int \<times> db)" where
  "store_step env (CGetConnections f) (now, d) =
     (let (r, d') = GetConnections f now d in (reply RConnections r, now, d'))"
| "store_step env (CSaveConnection f c) (now, d) =
     (let (r, d') = SaveConnection f c d in (reply (\<lambda>_. RUnit) r, now, d'))"
| "store_step env (CDeleteConnection f i) (now, d) =
     (let (r, d') = DeleteConnection f i d in (reply (\<lambda>_. RUnit) r, now, d'))"
| "store_step env (CGetEndpoints f i) (now, d) = (reply REndpoints (GetEndpoints f i d), now, d)"
| "store_step env (CGetAllEndpoints f) (now, d) =
     (let (r, d') = GetAllEndpoints f now d in (reply REndpoints r, now, d'))"
| "store_step env (CSaveEndpoint f1 f2 ep) (now, d) =
     (let (r, d') = SaveEndpoint (hash_def env) f1 f2 ep d in (reply REndpoint r, now, d'))"
| "store_step env (CDeleteEndpoint f i) (now, d) =
     (let (r, d') = DeleteEndpoint f i d in (reply (\<lambda>_. RUnit) r, now, d'))"
| "store_step env (CLogAudit f ts r) (now, d) =
     (let (x, d') = LogAudit f ts r d in (reply (\<lambda>_. RUnit) x, now, d'))"
| "store_step env (CGetAuditLogs f) (now, d) = (reply RLogs (GetAuditLogs (rank_time env) f d), now, d)"
| "store_step env (CGetClientToken f t) (now, d) = (reply RToken (GetClientToken (hash_token env) f t d), now, d)"
| "store_step env (CSaveClientToken f t) (now, d) =
     (let (r, d') = SaveClientToken (hash_token env) f t d in (reply (\<lambda>_. RUnit) r, now, d'))"
| "store_step env (CDeleteClientToken f t) (now, d) =
     (let (r, d') = DeleteClientToken (hash_token env) f t d in (reply (\<lambda>_. RUnit) r, now, d'))"
| "store_step env (CDeleteClientTokenByName f n) (now, d) =
     (let (r, d') = DeleteClientTokenByName f n d in (reply (\<lambda>_. RUnit) r, now, d'))"
| "store_step env (CGetClientTokens f) (now, d) = (reply RTokens (GetClientTokens f d), now, d)"
| "store_step env (CPass n) (now, d) = (RUnit, now + int n, d)"

text \<open>The states a store can reach that was opened on a database, new or not, with and without the caches.\<close>

inductive store_reach :: "store_env \<Rightarrow> bool \<Rightarrow> db_file \<Rightarrow> int \<times> db \<Rightarrow> bool" for env fk dbf where
  opened: "NewDB None fk dbf = Inr d \<Longrightarrow> store_reach env fk dbf (now, d)"
| cached: "NewDB None fk dbf = Inr d \<Longrightarrow> store_reach env fk dbf (now, EnableConfigCache ttl d)"
| called: "store_reach env fk dbf s \<Longrightarrow> store_reach env fk dbf (snd (store_step env c s))"

text \<open>
  What the schema and \<^verbatim>\<open>SaveEndpoint\<close> promise of the tables: unique keys, names and tools, no endpoint
  without its connection if foreign keys are enforced, every endpoint with a positive version and with a property \<open>P\<close>,
  which is about its hash: \<open>pinned\<close> is the hash of the definition, \<open>known\<close> allows for rows without one.
\<close>

definition pinned :: "(tool_def \<Rightarrow> string) \<Rightarrow> stored_endpoint \<Rightarrow> bool" where
  "pinned H e \<longleftrightarrow> ep_definition_hash e = H (endpoint_def e)"

definition known :: "(tool_def \<Rightarrow> string) \<Rightarrow> stored_endpoint \<Rightarrow> bool" where
  "known H e \<longleftrightarrow> ep_definition_hash e = [] \<or> pinned H e"

definition tables_wf :: "(stored_endpoint \<Rightarrow> bool) \<Rightarrow> db \<Rightarrow> bool" where
  "tables_wf P d \<longleftrightarrow>
     distinct (map conn_id (t_connections d)) \<and> distinct (map conn_name (t_connections d)) \<and>
     distinct (map ep_id (t_endpoints d)) \<and> distinct (map ep_tool_name (t_endpoints d)) \<and>
     distinct (map log_id (t_audit d)) \<and>
     distinct (map tok_token (t_tokens d)) \<and> distinct (map tok_client_name (t_tokens d)) \<and>
     list_all (\<lambda>e. P e \<and> 1 \<le> ep_version e \<and>
       (fk_enforced d \<longrightarrow> ep_connection_id e \<in> conn_id ` set (t_connections d))) (t_endpoints d)"

abbreviation db_wf :: "(tool_def \<Rightarrow> string) \<Rightarrow> db \<Rightarrow> bool" where
  "db_wf H \<equiv> tables_wf (pinned H)"

text \<open>What the engine and the earlier versions of the gateway promise of a database that is opened: the constraints of the
  schema, and in the columns that exist a hash written by \<^verbatim>\<open>SaveEndpoint\<close> or none, and a positive version.\<close>

definition file_ok :: "(tool_def \<Rightarrow> string) \<Rightarrow> bool \<Rightarrow> db_file \<Rightarrow> bool" where
  "file_ok H fk dbf \<longleftrightarrow>
     distinct (map conn_id (f_connections dbf)) \<and> distinct (map conn_name (f_connections dbf)) \<and>
     distinct (map ep_id (f_endpoints dbf)) \<and> distinct (map ep_tool_name (f_endpoints dbf)) \<and>
     distinct (map log_id (f_audit dbf)) \<and>
     distinct (map tok_token (f_tokens dbf)) \<and> distinct (map tok_client_name (f_tokens dbf)) \<and>
     list_all (\<lambda>e. (f_hash_column dbf \<longrightarrow> known H e) \<and> (f_version_column dbf \<longrightarrow> 1 \<le> ep_version e) \<and>
       (fk \<longrightarrow> ep_connection_id e \<in> conn_id ` set (f_connections dbf))) (f_endpoints dbf)"

text \<open>The endpoints that have no hash when the database is opened.\<close>

definition unpinned :: "db_file \<Rightarrow> stored_endpoint list" where
  "unpinned dbf = filter (\<lambda>e. ep_definition_hash e = []) (f_endpoints (initSchema dbf))"

text \<open>A database that did not exist before.\<close>

definition new_file :: db_file where
  "new_file =
     \<lparr>f_prefix_column = False, f_hash_column = False, f_version_column = False, f_connections = [], f_endpoints = [],
      f_audit = [], f_tokens = []\<rparr>"

definition empty_db :: "bool \<Rightarrow> db" where
  "empty_db fk = \<lparr>fk_enforced = fk, t_connections = [], t_endpoints = [], t_audit = [], t_tokens = [],
                  connCache = None, epCache = None\<rparr>"

section \<open>Lemmas\<close>

named_theorems store_defs \<open>definitions of the store's methods\<close>

lemmas store_methods [store_defs] =
  GetConnections_def SaveConnection_def DeleteConnection_def GetEndpoints_def GetAllEndpoints_def
  SaveEndpoint_def DeleteEndpoint_def LogAudit_def GetAuditLogs_def GetClientToken_def SaveClientToken_def
  DeleteClientToken_def DeleteClientTokenByName_def GetClientTokens_def

lemma invalidateCaches_tables [simp]:
  "fk_enforced (invalidateCaches d) = fk_enforced d" "t_connections (invalidateCaches d) = t_connections d"
  "t_endpoints (invalidateCaches d) = t_endpoints d" "t_audit (invalidateCaches d) = t_audit d"
  "t_tokens (invalidateCaches d) = t_tokens d"
  by (simp_all add: invalidateCaches_def)

text \<open>A replaced row keeps a second key unique if no other row has it.\<close>

lemma distinct_upsert_unique:
  "distinct (map g xs) \<Longrightarrow> \<not> list_ex (\<lambda>x. g x = g r \<and> key x \<noteq> key r) xs \<Longrightarrow> distinct (map key xs) \<Longrightarrow>
   distinct (map g (upsert key r xs))"
proof (induction xs)
  case (Cons x xs)
  have "set (map g (upsert key r xs)) \<subseteq> insert (g r) (g ` set xs)"
    using set_upsert_sub [of key r xs] by auto
  with Cons show ?case by (auto simp: list_ex_iff) (metis image_eqI)+
qed simp

lemma stamp_fields [simp]:
  "ep_id (stamp H ep d) = ep_id ep" "ep_tool_name (stamp H ep d) = ep_tool_name ep"
  "ep_connection_id (stamp H ep d) = ep_connection_id ep" "endpoint_def (stamp H ep d) = endpoint_def ep"
  "ep_definition_hash (stamp H ep d) = H (endpoint_def ep)"
  by (simp_all add: stamp_def Let_def endpoint_def_def)

lemma pinned_stamp [simp]: "pinned H (stamp H ep d)"
  by (simp add: pinned_def)

lemma stamp_version: "tables_wf P d \<Longrightarrow> 1 \<le> ep_version (stamp H ep d)"
  by (auto simp: stamp_def Let_def tables_wf_def list_all_iff split: option.split dest!: find_Some_mem)

text \<open>The same tables.\<close>

definition same_tables :: "db \<Rightarrow> db \<Rightarrow> bool" where
  "same_tables c d \<longleftrightarrow>
     fk_enforced c = fk_enforced d \<and> t_connections c = t_connections d \<and> t_endpoints c = t_endpoints d \<and>
     t_audit c = t_audit d \<and> t_tokens c = t_tokens d"

lemma db_wf_same_tables: "same_tables c d \<Longrightarrow> tables_wf P c = tables_wf P d"
  by (simp add: tables_wf_def same_tables_def)

lemma tables_wf_mono: "tables_wf P d \<Longrightarrow> (\<And>e. P e \<Longrightarrow> Q e) \<Longrightarrow> tables_wf Q d"
  by (auto simp: tables_wf_def list_all_iff)

lemma reads_keep_tables:
  "same_tables (snd (GetConnections f now d)) d" "same_tables (snd (GetAllEndpoints f now d)) d"
  by (simp_all add: GetConnections_def GetAllEndpoints_def same_tables_def split: option.split)

lemma SaveConnection_wf: "tables_wf P d \<Longrightarrow> tables_wf P (snd (SaveConnection f c d))"
proof -
  assume wf: "tables_wf P d"
  have "conn_id ` set (upsert conn_id c xs) = insert (conn_id c) (conn_id ` set xs)" for xs
    by (induction xs) auto
  with wf show ?thesis
    by (auto simp: SaveConnection_def tables_wf_def distinct_upsert distinct_upsert_unique list_all_iff split: option.split)
qed

lemma DeleteConnection_wf: "tables_wf P d \<Longrightarrow> tables_wf P (snd (DeleteConnection f i d))"
  by (auto simp: DeleteConnection_def tables_wf_def Let_def distinct_map_filter list_all_iff split: option.split)

lemma SaveEndpoint_tables: "tables_wf P d \<Longrightarrow> P (stamp H ep d) \<Longrightarrow> tables_wf P (snd (SaveEndpoint H f1 f2 ep d))"
proof -
  assume wf: "tables_wf P d" and P: "P (stamp H ep d)"
  have sub: "set (upsert ep_id (stamp H ep d) (t_endpoints d)) \<subseteq> insert (stamp H ep d) (set (t_endpoints d))"
    by (rule set_upsert_sub)
  have "distinct (map ep_tool_name (upsert ep_id (stamp H ep d) (t_endpoints d)))"
    if "\<not> list_ex (\<lambda>e. ep_tool_name e = ep_tool_name ep \<and> ep_id e \<noteq> ep_id ep) (t_endpoints d)"
    using wf that by (intro distinct_upsert_unique) (auto simp: tables_wf_def)
  with wf sub P stamp_version [OF wf, of H ep] show ?thesis
    by (auto simp: SaveEndpoint_def tables_wf_def Let_def distinct_upsert list_all_iff split: option.split)
qed

lemma SaveEndpoint_wf: "db_wf H d \<Longrightarrow> db_wf H (snd (SaveEndpoint H f1 f2 ep d))"
  by (erule SaveEndpoint_tables) simp

lemma DeleteEndpoint_wf: "tables_wf P d \<Longrightarrow> tables_wf P (snd (DeleteEndpoint f i d))"
  by (auto simp: DeleteEndpoint_def tables_wf_def distinct_map_filter list_all_iff split: option.split)

lemma tokens_wf:
  "tables_wf P d \<Longrightarrow> tables_wf P (snd (SaveClientToken h f t d))"
  "tables_wf P d \<Longrightarrow> tables_wf P (snd (DeleteClientToken h f tk d))"
  "tables_wf P d \<Longrightarrow> tables_wf P (snd (DeleteClientTokenByName f n d))"
  by (auto simp: SaveClientToken_def DeleteClientToken_def DeleteClientTokenByName_def tables_wf_def Let_def
      distinct_map_filter split: option.split intro!: distinct_upsert distinct_upsert_unique)

lemma LogAudit_wf: "tables_wf P d \<Longrightarrow> tables_wf P (snd (LogAudit f ts r d))"
  by (auto simp: LogAudit_def tables_wf_def list_ex_iff split: option.split)

lemma store_step_tables:
  assumes "tables_wf P (snd s)" "\<And>ep d. P (stamp (hash_def env) ep d)"
  shows "tables_wf P (snd (snd (store_step env c s)))"
proof -
  note reads = reads_keep_tables [THEN db_wf_same_tables, THEN iffD2]
  show ?thesis
    using assms SaveConnection_wf DeleteConnection_wf SaveEndpoint_tables DeleteEndpoint_wf tokens_wf LogAudit_wf reads
    by (cases s; cases c) (simp_all add: split_beta)
qed

lemma empty_db_wf: "tables_wf P (empty_db fk)" "tables_wf P (EnableConfigCache ttl (empty_db fk))"
  by (simp_all add: tables_wf_def empty_db_def EnableConfigCache_def)

lemma NewDB_new_file: "NewDB None fk new_file = Inr (empty_db fk)"
  by (simp add: NewDB_def initSchema_def new_file_def empty_db_def)

lemma endpoint_def_update [simp]:
  "endpoint_def (e\<lparr>ep_definition_hash := h\<rparr>) = endpoint_def e" "endpoint_def (e\<lparr>ep_version := v\<rparr>) = endpoint_def e"
  by (simp_all add: endpoint_def_def)

text \<open>Opening a database migrates it: every row has a hash of its definition or none, and those without are the known ones.\<close>

lemma NewDB_wf:
  assumes "file_ok H fk dbf" "NewDB None fk dbf = Inr d"
  shows "tables_wf (\<lambda>e. pinned H e \<or> e \<in> set (unpinned dbf)) d"
proof -
  have d: "t_connections d = f_connections (initSchema dbf)" "t_endpoints d = f_endpoints (initSchema dbf)"
    "t_audit d = f_audit dbf" "t_tokens d = f_tokens dbf" "fk_enforced d = fk"
    using assms(2) by (auto simp: NewDB_def Let_def initSchema_def)
  have c: "map conn_id (f_connections (initSchema dbf)) = map conn_id (f_connections dbf)"
    "map conn_name (f_connections (initSchema dbf)) = map conn_name (f_connections dbf)"
    "map ep_id (f_endpoints (initSchema dbf)) = map ep_id (f_endpoints dbf)"
    "map ep_tool_name (f_endpoints (initSchema dbf)) = map ep_tool_name (f_endpoints dbf)"
    by (simp_all add: initSchema_def)
  have e: "(pinned H e \<or> ep_definition_hash e = []) \<and> 1 \<le> ep_version e \<and>
      (fk \<longrightarrow> ep_connection_id e \<in> conn_id ` set (f_connections dbf))" if "e \<in> set (f_endpoints (initSchema dbf))" for e
    using that assms(1) by (auto simp: initSchema_def file_ok_def list_all_iff known_def pinned_def) blast
  have "conn_id ` set (f_connections (initSchema dbf)) = conn_id ` set (f_connections dbf)"
    using arg_cong [OF c(1), of set] by simp
  with assms(1) e show ?thesis
    by (auto simp: tables_wf_def d c file_ok_def list_all_iff unpinned_def)
qed

lemma EnableConfigCache_wf: "tables_wf P d \<Longrightarrow> tables_wf P (EnableConfigCache ttl d)"
  by (simp add: tables_wf_def EnableConfigCache_def)

lemma store_reach_wf:
  assumes "file_ok (hash_def env) fk dbf" "store_reach env fk dbf s"
  shows "tables_wf (\<lambda>e. pinned (hash_def env) e \<or> e \<in> set (unpinned dbf)) (snd s)"
  using assms(2)
  by induction (auto intro: NewDB_wf [OF assms(1)] EnableConfigCache_wf store_step_tables)

subsection \<open>Tables\<close>

definition ok_state :: "(db_error + 'a) \<times> db \<Rightarrow> db option" where
  "ok_state r = (case r of (Inl e, d) \<Rightarrow> None | (Inr x, d) \<Rightarrow> Some d)"

interpretation connections: keyed_table t_connections conn_id "\<lambda>c d. c" "\<lambda>c d. ok_state (SaveConnection None c d)"
  "\<lambda>i d. snd (DeleteConnection None i d)" "db_wf H" for H
  by unfold_locales
    (auto simp: ok_state_def SaveConnection_def DeleteConnection_def Let_def tables_wf_def split: if_splits)

interpretation endpoints: keyed_table t_endpoints ep_id "stamp H" "\<lambda>e d. ok_state (SaveEndpoint H None None e d)"
  "\<lambda>i d. snd (DeleteEndpoint None i d)" "db_wf H" for H
  by unfold_locales
    (auto simp: ok_state_def SaveEndpoint_def DeleteEndpoint_def Let_def tables_wf_def split: if_splits)

interpretation tokens: keyed_table t_tokens tok_token "\<lambda>t d. t\<lparr>tok_token := h (tok_token t)\<rparr>"
  "\<lambda>t d. ok_state (SaveClientToken h None t d)"
  "\<lambda>k d. d\<lparr>t_tokens := filter (\<lambda>t. tok_token t \<noteq> k) (t_tokens d)\<rparr>" "db_wf H" for h H
  by unfold_locales
    (auto simp: ok_state_def SaveClientToken_def Let_def tables_wf_def split: if_splits)

subsection \<open>The caches are invisible\<close>

text \<open>A cached list is the table it was read from.\<close>

definition fresh :: "db \<Rightarrow> bool" where
  "fresh d \<longleftrightarrow>
     (\<forall>t v. cache_Get t (connCache d) all_key = Some v \<longrightarrow> v = t_connections d) \<and>
     (\<forall>t v. cache_Get t (epCache d) all_key = Some v \<longrightarrow> v = t_endpoints d)"

definition cached_rel :: "int \<times> db \<Rightarrow> int \<times> db \<Rightarrow> bool" where
  "cached_rel c a \<longleftrightarrow>
     fst c = fst a \<and> fresh (snd c) \<and> snd a = (snd c)\<lparr>connCache := None, epCache := None\<rparr>"

text \<open>The reply of the store without caches, unless a statement failed that the cache made unnecessary.\<close>

definition answered :: "store_reply \<Rightarrow> store_reply \<Rightarrow> bool" where
  "answered x y \<longleftrightarrow> x = y \<or> (\<exists>e. y = RError (Fault e))"

lemma cache_None [simp]:
  "cache_Get t None k = None" "cache_Set t k v None = None" "cache_Purge None = None"
  by (simp_all add: cache_Get_def cache_Set_def cache_Purge_def)

lemma fresh_invalidate: "fresh (invalidateCaches d)"
  by (simp add: fresh_def invalidateCaches_def cache_Get_Purge)

lemma fresh_reads:
  assumes "fresh d" shows "fresh (snd (GetConnections f now d))" "fresh (snd (GetAllEndpoints f now d))"
  using assms
  by (auto simp: fresh_def GetConnections_def GetAllEndpoints_def split: option.split elim!: cache_Get_Set_SomeE)

lemma fresh_others:
  assumes "fresh d"
  shows "fresh (d\<lparr>t_audit := as\<rparr>)" "fresh (d\<lparr>t_tokens := ts\<rparr>)"
  using assms by (simp_all add: fresh_def)

lemma store_step_fresh: "fresh (snd s) \<Longrightarrow> fresh (snd (snd (store_step env c s)))"
  by (cases s; cases c)
    (auto simp: split_beta fresh_reads fresh_invalidate fresh_others SaveConnection_def DeleteConnection_def
      SaveEndpoint_def DeleteEndpoint_def LogAudit_def SaveClientToken_def DeleteClientToken_def
      DeleteClientTokenByName_def Let_def split: option.split)

abbreviation uncached :: "db \<Rightarrow> db" where
  "uncached d \<equiv> d\<lparr>connCache := None, epCache := None\<rparr>"

lemma stamp_uncached [simp]: "stamp H ep (uncached d) = stamp H ep d"
  by (simp add: stamp_def)

text \<open>Every method on a database without caches does what it does with them, the caches apart.\<close>

lemma uncached_methods:
  "SaveConnection f c (uncached d) = map_prod id uncached (SaveConnection f c d)"
  "DeleteConnection f i (uncached d) = map_prod id uncached (DeleteConnection f i d)"
  "SaveEndpoint H f1 f2 ep (uncached d) = map_prod id uncached (SaveEndpoint H f1 f2 ep d)"
  "DeleteEndpoint f i (uncached d) = map_prod id uncached (DeleteEndpoint f i d)"
  "LogAudit f ts r (uncached d) = map_prod id uncached (LogAudit f ts r d)"
  "SaveClientToken h f t (uncached d) = map_prod id uncached (SaveClientToken h f t d)"
  "DeleteClientToken h f tk (uncached d) = map_prod id uncached (DeleteClientToken h f tk d)"
  "DeleteClientTokenByName f n (uncached d) = map_prod id uncached (DeleteClientTokenByName f n d)"
  by (auto simp: SaveConnection_def DeleteConnection_def SaveEndpoint_def DeleteEndpoint_def LogAudit_def
      SaveClientToken_def DeleteClientToken_def DeleteClientTokenByName_def invalidateCaches_def Let_def
      split: option.split)

lemma uncached_reads:
  "GetEndpoints f i (uncached d) = GetEndpoints f i d" "GetAuditLogs rk f (uncached d) = GetAuditLogs rk f d"
  "GetClientToken h f tk (uncached d) = GetClientToken h f tk d" "GetClientTokens f (uncached d) = GetClientTokens f d"
  "snd (GetConnections f now (uncached d)) = uncached (snd (GetConnections f now d))"
  "snd (GetAllEndpoints f now (uncached d)) = uncached (snd (GetAllEndpoints f now d))"
  by (simp_all add: store_methods split: option.split)

lemma cached_reads:
  assumes "fresh d"
  shows "answered (reply RConnections (fst (GetConnections f now d))) (reply RConnections (fst (GetConnections f now (uncached d))))"
    "answered (reply REndpoints (fst (GetAllEndpoints f now d))) (reply REndpoints (fst (GetAllEndpoints f now (uncached d))))"
  using assms
  by (auto simp: answered_def reply_def fresh_def GetConnections_def GetAllEndpoints_def split: option.split)

interpretation cached: simulation cached_rel answered "store_step env" "store_step env" for env
proof
  fix c a :: "int \<times> db" and op
  assume R: "cached_rel c a"
  then obtain now d where c: "c = (now, d)" and a: "a = (now, uncached d)" and d: "fresh d"
    by (cases c; cases a) (auto simp: cached_rel_def)
  show "answered (fst (store_step env op c)) (fst (store_step env op a))"
    unfolding c a using cached_reads [OF d]
    by (cases op) (simp_all add: split_beta uncached_methods uncached_reads, simp_all add: answered_def)
  have "fst (snd (store_step env op (now, d))) = fst (snd (store_step env op (now, uncached d)))"
    by (cases op) (simp_all add: split_beta)
  moreover have "snd (snd (store_step env op (now, uncached d))) = uncached (snd (snd (store_step env op (now, d))))"
    by (cases op) (simp_all add: split_beta uncached_methods uncached_reads)
  ultimately show "cached_rel (snd (store_step env op c)) (snd (store_step env op a))"
    unfolding c a using store_step_fresh [of "(now, d)"] d by (simp add: cached_rel_def)
qed

lemma enabled_rel: "cached_rel (now, EnableConfigCache ttl d) (now, uncached d)"
  by (simp add: cached_rel_def EnableConfigCache_def fresh_def cache_Get_def cache_New_def)

subsection \<open>Audit log\<close>

lemma newest_first:
  assumes "GetAuditLogs rank None d = Inr ls"
  shows "sorted (rev (map (\<lambda>r. rank (log_timestamp r)) ls))" "length ls = min 100 (length (t_audit d))"
    "set ls \<subseteq> set (t_audit d)"
    "x \<in> set ls \<Longrightarrow> y \<in> set (t_audit d) \<Longrightarrow> y \<notin> set ls \<Longrightarrow> rank (log_timestamp y) \<le> rank (log_timestamp x)"
proof -
  let ?k = "\<lambda>r. rank (log_timestamp r)"
  let ?s = "sort_key ?k (t_audit d)"
  have ls: "ls = take 100 (rev ?s)" using assms by (simp add: GetAuditLogs_def)
  have srt: "sorted (map ?k ?s)" by simp
  have rls: "rev ls = drop (length ?s - 100) ?s" by (simp add: ls rev_take)
  show "sorted (rev (map ?k ls))"
    unfolding rev_map rls drop_map [symmetric] by (rule sorted_wrt_drop [OF srt])
  show "length ls = min 100 (length (t_audit d))" by (simp add: ls)
  show "set ls \<subseteq> set (t_audit d)" using set_take_subset [of 100 "rev ?s"] by (simp add: ls)
  have split: "set (t_audit d) = set (take (length ?s - 100) ?s) \<union> set (rev ls)"
    unfolding rls by (metis append_take_drop_id set_append set_sort)
  show "?k y \<le> ?k x" if "x \<in> set ls" "y \<in> set (t_audit d)" "y \<notin> set ls"
  proof (rule sorted_take_le [OF srt, of y "length ?s - 100" x])
    show "y \<in> set (take (length ?s - 100) ?s)" using that split by simp
    show "x \<in> set (drop (length ?s - 100) ?s)" using that(1) unfolding rls [symmetric] by simp
  qed
qed

text \<open>A database for the examples: one connection and one tool, with foreign keys not enforced.\<close>

definition sample_conn :: connection where
  "sample_conn =
     \<lparr>conn_id = ''c1'', conn_name = ''Orders'', conn_description = [], conn_base_url = ''https://orders.local'',
      conn_auth_type = ''none'', conn_auth_secret_ref = [], conn_enabled = True, conn_tool_prefix = []\<rparr>"

definition sample_ep :: stored_endpoint where
  "sample_ep =
     \<lparr>ep_id = ''e1'', ep_connection_id = ''c1'', ep_tool_name = ''list'', ep_tool_description = ''List orders'',
      ep_path = ''/orders'', ep_method = ''GET'', ep_parameters_schema = ''{}'', ep_template = [],
      ep_definition_hash = [], ep_version = 0\<rparr>"

definition sample_token :: client_token where
  "sample_token = \<lparr>tok_token = ''secret'', tok_client_name = ''cli'', tok_client_role = ''developer'',
                   tok_scopes = ''orders_*'', tok_enabled = True\<rparr>"

definition sample_db :: db where
  "sample_db =
     snd (SaveEndpoint (tool_hash toy_integrity) None None sample_ep (snd (SaveConnection None sample_conn (empty_db False))))"

definition sample_row :: audit_row where
  "sample_row =
     \<lparr>log_timestamp = [], log_client_identity = ''cli'', log_tool_name = ''list'', log_status = ''success'',
      log_duration_ms = 12, log_error_message = [], log_id = ''l1''\<rparr>"

definition sample_audit_db :: db where
  "sample_audit_db =
     snd (LogAudit None ''1'' (sample_row\<lparr>log_id := ''l2''\<rparr>) (snd (LogAudit None ''12'' sample_row (empty_db True))))"

section \<open>Properties\<close>

text \<open>C27: A store that is opened on a database, new or written by an earlier version, and in every state that it reaches from
  there, whatever calls are made and whichever of them fail: ids, names, tool names, token digests and client names are
  unique, every endpoint has a positive version and, with foreign keys enforced, belongs to a connection; and it carries
  the hash of its definition, unless it is a row that had none when the database was opened and was not changed since.\<close>

theorem store_wellformed:
  assumes "file_ok (hash_def env) fk dbf" "store_reach env fk dbf s"
  shows "tables_wf (\<lambda>e. pinned (hash_def env) e \<or> e \<in> set (unpinned dbf)) (snd s)"
  by (rule store_reach_wf [OF assms])

abbreviation sample_store :: store_env where
  "sample_store \<equiv> \<lparr>hash_token = id, integrity = toy_integrity, rank_time = (\<lambda>_. 0)\<rparr>"

text \<open>A database of a version without the columns for hash and version, with one tool; a second tool is added.\<close>

definition old_file :: db_file where
  "old_file = new_file\<lparr>f_prefix_column := True, f_connections := [sample_conn], f_endpoints := [sample_ep]\<rparr>"

theorem store_wellformed_witness:
  "tables_wf (\<lambda>e. pinned (hash_def sample_store) e \<or> e \<in> {sample_ep\<lparr>ep_version := 1\<rparr>})
     (snd (snd (store_step sample_store (CSaveEndpoint None None (sample_ep\<lparr>ep_id := ''e2'', ep_tool_name := ''search''\<rparr>))
       (0, projr (NewDB None True old_file)))))"
proof -
  have "file_ok (hash_def sample_store) True old_file"
    by (simp add: file_ok_def old_file_def new_file_def sample_conn_def sample_ep_def)
  moreover have "NewDB None True old_file = Inr (projr (NewDB None True old_file))" by (simp add: NewDB_def Let_def)
  from store_reach.called [OF store_reach.opened [OF this]]
  have "store_reach sample_store True old_file (snd (store_step sample_store
      (CSaveEndpoint None None (sample_ep\<lparr>ep_id := ''e2'', ep_tool_name := ''search''\<rparr>)) (0, projr (NewDB None True old_file))))" .
  moreover have "set (unpinned old_file) = {sample_ep\<lparr>ep_version := 1\<rparr>}"
    by (simp add: unpinned_def initSchema_def old_file_def new_file_def sample_ep_def)
  ultimately show ?thesis using store_wellformed [of sample_store True old_file] by (simp only:)
qed

text \<open>C8: A store with caches enabled gives, on every sequence of calls and however time passes, the replies of the
  same store without caches; the only difference is that it may still answer where a statement failed.\<close>

theorem cached_store_refines:
  "list_all2 answered (outputs (store_step env) (now, EnableConfigCache ttl d) calls)
     (outputs (store_step env) (now, uncached d) calls)"
  by (rule cached.outputs_rel [OF enabled_rel])

text \<open>A client token that was saved is found again by its plaintext, with its role and scopes but without the
  token; it is not found once it is deleted; and no other token is affected by either, unless it has the same digest.\<close>

theorem token_roundtrip:
  assumes "SaveClientToken h None t d = (Inr (), d1)"
  shows "GetClientToken h None (tok_token t) d1 = Inr (t\<lparr>tok_token := []\<rparr>) \<and>
    GetClientToken h None (tok_token t) (snd (DeleteClientToken h None (tok_token t) d1)) = Inl NoRows \<and>
    (h tk \<noteq> h (tok_token t) \<longrightarrow>
       GetClientToken h None tk d1 = GetClientToken h None tk d \<and>
       GetClientToken h None tk (snd (DeleteClientToken h None (tok_token t) d1)) = GetClientToken h None tk d)"
proof -
  have save: "ok_state (SaveClientToken h None t d) = Some d1" using assms by (simp add: ok_state_def)
  have get: "GetClientToken h None tk c =
      (case tokens.lookup c (h tk) of None \<Rightarrow> Inl NoRows | Some r \<Rightarrow> Inr (r\<lparr>tok_token := []\<rparr>))" for tk c
    by (simp add: GetClientToken_def tokens.lookup_def)
  have del: "snd (DeleteClientToken h None tk c) = c\<lparr>t_tokens := filter (\<lambda>r. tok_token r \<noteq> h tk) (t_tokens c)\<rparr>" for tk c
    by (simp add: DeleteClientToken_def)
  show ?thesis
    by (simp add: get del tokens.lookup_save [OF save] tokens.lookup_remove)
qed

theorem token_roundtrip_witness:
  "GetClientToken rev None ''secret'' (snd (SaveClientToken rev None sample_token sample_db)) =
     Inr (sample_token\<lparr>tok_token := []\<rparr>)"
  using token_roundtrip [of rev sample_token sample_db "snd (SaveClientToken rev None sample_token sample_db)"]
  by (simp add: SaveClientToken_def sample_db_def sample_token_def SaveEndpoint_def SaveConnection_def empty_db_def
      Let_def)

text \<open>Saving a tool pins it: the stored row carries the hash of its definition; a new tool has version 1, and
  the version of a known one grows by one exactly if its definition changed (barring a collision of hashes).\<close>

theorem saved_tool_version:
  assumes "db_wf (tool_hash lib) d" "SaveEndpoint (tool_hash lib) None None ep d = (Inr ep', d1)"
    and "json_lib_ok lib" "list_all (\<lambda>e. no_collision lib (endpoint_def e) (endpoint_def ep)) (t_endpoints d)"
  shows "GetEndpoints None (ep_connection_id ep) d1 \<noteq> Inr [] \<and> ep' \<in> set (t_endpoints d1) \<and>
    ep_definition_hash ep' = tool_hash lib (endpoint_def ep) \<and>
    ep_version ep' =
      (case find (\<lambda>e. ep_id e = ep_id ep) (t_endpoints d) of
         None \<Rightarrow> 1
       | Some e \<Rightarrow> if same_def lib (endpoint_def e) (endpoint_def ep) then ep_version e else ep_version e + 1)"
proof -
  let ?H = "tool_hash lib"
  have save: "ok_state (SaveEndpoint ?H None None ep d) = Some d1" using assms(2) by (simp add: ok_state_def)
  have ep': "ep' = stamp ?H ep d"
    using assms(2) by (simp add: SaveEndpoint_def Let_def split: if_splits)
  have mem: "ep' \<in> set (t_endpoints d1)"
    using endpoints.set_save [OF assms(1) save] by (simp add: ep')
  then have "GetEndpoints None (ep_connection_id ep) d1 \<noteq> Inr []"
    by (auto simp: GetEndpoints_def filter_empty_conv ep' intro!: bexI [of _ "stamp ?H ep d"])
  moreover have "ep_definition_hash e = ?H (endpoint_def e)"
    "?H (endpoint_def e) = ?H (endpoint_def ep) \<longleftrightarrow> same_def lib (endpoint_def e) (endpoint_def ep)"
    if "find (\<lambda>e. ep_id e = ep_id ep) (t_endpoints d) = Some e" for e
    using assms(1,4) find_Some_mem [OF that] tool_hash_eq [OF assms(3)] by (simp_all add: tables_wf_def pinned_def list_all_iff)
  then have "ep_version ep' = (case find (\<lambda>e. ep_id e = ep_id ep) (t_endpoints d) of
         None \<Rightarrow> 1
       | Some e \<Rightarrow> if same_def lib (endpoint_def e) (endpoint_def ep) then ep_version e else ep_version e + 1)"
    by (auto simp: ep' stamp_def Let_def split: option.split)
  ultimately show ?thesis
    using mem by (simp add: ep')
qed

theorem saved_tool_version_witness:
  "ep_version (the (find (\<lambda>e. ep_id e = ''e1'') (t_endpoints
     (snd (SaveEndpoint (tool_hash toy_integrity) None None (sample_ep\<lparr>ep_tool_name := ''search''\<rparr>) sample_db))))) = 2"
proof -
  let ?H = "tool_hash toy_integrity" and ?ep = "sample_ep\<lparr>ep_tool_name := ''search''\<rparr>"
  have wf: "db_wf ?H sample_db"
    unfolding sample_db_def by (intro SaveEndpoint_wf SaveConnection_wf empty_db_wf)
  have save: "SaveEndpoint ?H None None ?ep sample_db = (Inr (stamp ?H ?ep sample_db), snd (SaveEndpoint ?H None None ?ep sample_db))"
    by (simp add: SaveEndpoint_def SaveConnection_def empty_db_def sample_db_def sample_ep_def stamp_def Let_def)
  have find: "find (\<lambda>e. ep_id e = ''e1'') (t_endpoints (snd (SaveEndpoint ?H None None ?ep sample_db))) = Some (stamp ?H ?ep sample_db)"
    by (simp add: SaveEndpoint_def SaveConnection_def empty_db_def sample_db_def sample_ep_def stamp_def Let_def)
  have "list_all (\<lambda>e. no_collision toy_integrity (endpoint_def e) (endpoint_def ?ep)) (t_endpoints sample_db)"
    by (simp add: list_all_iff toy_integrity_ok)
  from saved_tool_version [OF wf save toy_integrity_ok(1) this] show ?thesis
    unfolding find
    by (simp add: SaveEndpoint_def SaveConnection_def empty_db_def sample_db_def sample_ep_def stamp_def endpoint_def_def
        Let_def same_def_def)
qed

text \<open>The audit log that is shown holds the newest 100 entries, newest first: none that is left out is newer than
  one that is shown.\<close>

theorem newest_audit_logs:
  assumes "GetAuditLogs rank None d = Inr ls"
  shows "length ls = min 100 (length (t_audit d)) \<and> sorted (rev (map (\<lambda>r. rank (log_timestamp r)) ls)) \<and>
    set ls \<subseteq> set (t_audit d) \<and>
    (\<forall>x \<in> set ls. \<forall>y \<in> set (t_audit d) - set ls. rank (log_timestamp y) \<le> rank (log_timestamp x))"
  using newest_first [OF assms] by blast

theorem newest_audit_logs_witness:
  "map log_id (take 100 (rev (sort_key (\<lambda>r. int (length (log_timestamp r))) (t_audit sample_audit_db)))) = [''l1'', ''l2''] \<and>
   2 = min 100 (length (t_audit sample_audit_db))"
  using newest_audit_logs [of "\<lambda>s. int (length s)" sample_audit_db
      "take 100 (rev (sort_key (\<lambda>r. int (length (log_timestamp r))) (t_audit sample_audit_db)))"]
  by (simp add: GetAuditLogs_def sample_audit_db_def LogAudit_def empty_db_def sample_row_def)

text \<open>Without foreign keys enforced, deleting a connection leaves its endpoints behind, and with them their tool
  names: a tool of that name can no longer be added, for no visible reason.\<close>

theorem orphaned_endpoints:
  assumes "\<not> fk_enforced d" "e \<in> set (t_endpoints d)" "ep_connection_id e = i"
    and "ep_tool_name ep = ep_tool_name e" "ep_id ep \<noteq> ep_id e"
  shows "e \<in> set (t_endpoints (snd (DeleteConnection None i d))) \<and>
    i \<notin> conn_id ` set (t_connections (snd (DeleteConnection None i d))) \<and>
    fst (SaveEndpoint H None None ep (snd (DeleteConnection None i d))) = Inl UniqueViolation"
  using assms by (auto simp: DeleteConnection_def SaveEndpoint_def Let_def list_ex_iff)

theorem orphaned_endpoints_witness:
  "fst (SaveEndpoint (tool_hash toy_integrity) None None (sample_ep\<lparr>ep_id := ''e2''\<rparr>) (snd (DeleteConnection None ''c1'' sample_db))) =
     Inl UniqueViolation"
  using orphaned_endpoints [of sample_db "stamp (tool_hash toy_integrity) sample_ep (empty_db False)" "''c1''" "sample_ep\<lparr>ep_id := ''e2''\<rparr>" "tool_hash toy_integrity"]
  by (simp add: sample_db_def SaveEndpoint_def SaveConnection_def empty_db_def sample_ep_def stamp_def Let_def)

end
