(* ===== verification/Gateway_Url.thy ===== *)
theory Gateway_Url
  imports Gateway_Prelude Portal_Uri "HOL-Library.Monad_Syntax" "HOL-Library.AList" "HOL-Library.Char_ord"
    "HOL-Library.List_Lexorder"
begin

text \<open>
  What the gateway uses of Go's package \<^verbatim>\<open>net/url\<close>: escaping and unescaping of path segments and of query strings, and
  the multimap \<^verbatim>\<open>url.Values\<close>.
\<close>

section \<open>Definitions\<close>

text \<open>\<^verbatim>\<open>url.QueryUnescape\<close> and \<^verbatim>\<open>url.PathUnescape\<close>: a percent sign must be followed by two hexadecimal digits.\<close>

fun unescape :: "bool \<Rightarrow> string \<Rightarrow> string option" where
  "unescape query [] = Some []"
| "unescape query (c # s) =
     (if c = CHR ''%'' then
        (case s of
           a # b # t \<Rightarrow>
             (case (hex_value a, hex_value b) of
                (Some h, Some l) \<Rightarrow> map_option ((#) (char_of (16 * h + l))) (unescape query t)
              | _ \<Rightarrow> None)
         | _ \<Rightarrow> None)
      else map_option ((#) (if query \<and> c = CHR ''+'' then CHR '' '' else c)) (unescape query s))"

text \<open>\<^verbatim>\<open>r.URL.Query().Get(name)\<close>: pairs that cannot be decoded or hold a semicolon are skipped.\<close>

definition query_pair :: "string \<Rightarrow> (string \<times> string) option" where
  "query_pair p =
     (if p = [] \<or> CHR '';'' \<in> set p then None
      else do {
        k \<leftarrow> unescape True (fst (split_pair p));
        v \<leftarrow> unescape True (snd (split_pair p));
        Some (k, v) })"

definition Query_Get :: "string \<Rightarrow> string \<Rightarrow> string" where
  "Query_Get q name =
     (case map_of (List.map_filter query_pair (js_split (CHR ''&'') q)) name of None \<Rightarrow> [] | Some v \<Rightarrow> v)"

text \<open>\<^verbatim>\<open>url.PathEscape\<close> and \<^verbatim>\<open>url.QueryEscape\<close>.\<close>

definition url_unreserved :: "char \<Rightarrow> bool" where
  "url_unreserved c =
     (let n = of_char c :: nat in
      (48 \<le> n \<and> n \<le> 57) \<or> (65 \<le> n \<and> n \<le> 90) \<or> (97 \<le> n \<and> n \<le> 122) \<or> n \<in> {45, 95, 46, 126})"

definition path_plain :: "char \<Rightarrow> bool" where
  "path_plain c \<longleftrightarrow> url_unreserved c \<or> c \<in> {CHR ''$'', CHR ''&'', CHR ''+'', CHR ''='', CHR '':'', CHR ''@''}"

definition PathEscape :: "string \<Rightarrow> string" where
  "PathEscape s = concat (map (\<lambda>c. if path_plain c then [c] else percent_byte c) s)"

definition QueryEscape :: "string \<Rightarrow> string" where
  "QueryEscape s =
     concat (map (\<lambda>c. if c = CHR '' '' then ''+'' else if url_unreserved c then [c] else percent_byte c) s)"

text \<open>\<^verbatim>\<open>url.Values\<close>: a key with its list of values. \<^verbatim>\<open>URL.Query()\<close>, \<^verbatim>\<open>Set\<close> and \<^verbatim>\<open>Encode\<close>.\<close>

type_synonym url_values = "(string \<times> string list) list"

definition query_pairs :: "string \<Rightarrow> (string \<times> string) list" where
  "query_pairs q = List.map_filter query_pair (js_split (CHR ''&'') q)"

definition values_add :: "url_values \<Rightarrow> string \<times> string \<Rightarrow> url_values" where
  "values_add vs kv = (case map_of vs (fst kv) of
     None \<Rightarrow> AList.update (fst kv) [snd kv] vs | Some ws \<Rightarrow> AList.update (fst kv) (ws @ [snd kv]) vs)"

definition URL_Query :: "string \<Rightarrow> url_values" where
  "URL_Query q = foldl values_add [] (query_pairs q)"

definition values_set :: "string \<Rightarrow> string \<Rightarrow> url_values \<Rightarrow> url_values" where
  "values_set k v vs = AList.update k [v] vs"

definition encode_pair :: "string \<times> string \<Rightarrow> string" where
  "encode_pair kv = QueryEscape (fst kv) @ CHR ''='' # QueryEscape (snd kv)"

definition values_pairs :: "url_values \<Rightarrow> (string \<times> string) list" where
  "values_pairs vs = concat (map (\<lambda>k. map (Pair k) (the (map_of vs k))) (sort (map fst vs)))"

definition values_Encode :: "url_values \<Rightarrow> string" where
  "values_Encode vs = js_join ''&'' (map encode_pair (values_pairs vs))"

section \<open>Lemmas\<close>

subsection \<open>Unescaping\<close>

lemma unescape_plain:
  "c \<noteq> CHR ''+'' \<Longrightarrow> c \<noteq> CHR ''%'' \<Longrightarrow> unescape q (c # s) = map_option ((#) c) (unescape q s)"
  by simp

lemma unescape_percent: "unescape q (percent_byte c @ s) = map_option ((#) c) (unescape q s)"
proof -
  have "16 * (of_char c div 16) + of_char c mod 16 = (of_char c :: nat)" by simp
  then have "char_of (16 * (of_char c div 16) + of_char c mod 16 :: nat) = c" by (simp only: char_of_char)
  then show ?thesis by (simp add: percent_byte_def Let_def)
qed

lemma unescape_encode: "unescape q (encodeURIComponent s) = Some s"
proof (induction s)
  case (Cons c s)
  then show ?case
    using uri_unreserved_plain [of c]
    by (simp add: encodeURIComponent_Cons unescape_percent del: unescape.simps(2)) (simp add: unescape_plain del: unescape.simps(2))
qed simp

lemma unescape_id: "CHR ''+'' \<notin> set s \<Longrightarrow> CHR ''%'' \<notin> set s \<Longrightarrow> unescape q s = Some s"
  by (induction s) (auto simp: unescape_plain simp del: unescape.simps(2))

lemma encode_no_semicolon: "CHR '';'' \<notin> set (encodeURIComponent s)"
proof (induction s)
  case (Cons c s)
  have "CHR '';'' \<notin> set (percent_byte c)" using set_percent_byte [of c] by auto
  with Cons show ?case by (auto simp: encodeURIComponent_Cons uri_unreserved_def)
qed simp

lemma Query_Get_encoded:
  assumes "list_all (\<lambda>c. c \<notin> {CHR ''='', CHR ''&'', CHR ''+'', CHR ''%'', CHR '';''}) k"
  shows "Query_Get (k @ CHR ''='' # encodeURIComponent v) k = v"
    "k' \<noteq> k \<Longrightarrow> Query_Get (k @ CHR ''='' # encodeURIComponent v) k' = []"
proof -
  let ?p = "k @ CHR ''='' # encodeURIComponent v"
  have "CHR ''&'' \<notin> set ?p" using assms encodeURIComponent_no_delim by (auto simp: list_all_iff)
  then have "js_split (CHR ''&'') ?p = [?p]" by (rule js_split_no_delim)
  moreover have "split_pair ?p = (k, encodeURIComponent v)"
    using assms by (intro split_pair_append) (auto simp: list_all_iff)
  moreover have "unescape True k = Some k" using assms by (intro unescape_id) (auto simp: list_all_iff)
  ultimately have "List.map_filter query_pair (js_split (CHR ''&'') ?p) = [(k, v)]"
    using assms encode_no_semicolon [of v]
    by (auto simp: List.map_filter_def query_pair_def unescape_encode list_all_iff)
  then show "Query_Get ?p k = v" "k' \<noteq> k \<Longrightarrow> Query_Get ?p k' = []"
    by (simp_all add: Query_Get_def)
qed

subsection \<open>Escaping\<close>

lemma percent_byte_chars: "c \<in> set (percent_byte x) \<Longrightarrow> url_unreserved c \<or> c = CHR ''%''"
proof -
  have "list_all url_unreserved upper_hex" by code_simp
  then show "c \<in> set (percent_byte x) \<Longrightarrow> ?thesis" using set_percent_byte [of x] by (auto simp: list_all_iff)
qed

lemma PathEscape_chars: "c \<in> set (PathEscape s) \<Longrightarrow> path_plain c \<or> c = CHR ''%''"
  using percent_byte_chars by (auto simp: PathEscape_def path_plain_def split: if_splits)

lemma PathEscape_no_delim:
  "CHR ''/'' \<notin> set (PathEscape s)" "CHR ''?'' \<notin> set (PathEscape s)" "CHR ''#'' \<notin> set (PathEscape s)"
  "CHR ''{'' \<notin> set (PathEscape s)" "CHR ''}'' \<notin> set (PathEscape s)"
  by (auto dest!: PathEscape_chars simp: path_plain_def url_unreserved_def)

lemma path_plain_no_percent: "path_plain c \<Longrightarrow> c \<noteq> CHR ''%''"
  by (auto simp: path_plain_def url_unreserved_def)

lemma unescape_PathEscape: "unescape False (PathEscape s) = Some s"
proof (induction s)
  case (Cons c s)
  have "PathEscape (c # s) = (if path_plain c then [c] else percent_byte c) @ PathEscape s" by (simp add: PathEscape_def)
  with Cons show ?case using path_plain_no_percent [of c] by (simp add: unescape_percent)
qed (simp add: PathEscape_def)

interpretation path_escape: codec "\<lambda>_. True" PathEscape "\<lambda>s. the (unescape False s)"
  by unfold_locales (simp add: unescape_PathEscape)

lemma QueryEscape_Cons:
  "QueryEscape (c # s) = (if c = CHR '' '' then ''+'' else if url_unreserved c then [c] else percent_byte c) @ QueryEscape s"
  by (simp add: QueryEscape_def)

lemma QueryEscape_chars: "c \<in> set (QueryEscape s) \<Longrightarrow> url_unreserved c \<or> c = CHR ''%'' \<or> c = CHR ''+''"
  using percent_byte_chars by (auto simp: QueryEscape_def split: if_splits)

lemma QueryEscape_no_delim:
  "CHR ''&'' \<notin> set (QueryEscape s)" "CHR ''='' \<notin> set (QueryEscape s)" "CHR '';'' \<notin> set (QueryEscape s)"
  by (auto dest!: QueryEscape_chars simp: url_unreserved_def)

lemma unescape_QueryEscape: "unescape True (QueryEscape s) = Some s"
proof (induction s)
  case (Cons c s)
  have "url_unreserved c \<Longrightarrow> c \<noteq> CHR ''%'' \<and> c \<noteq> CHR ''+''" by (auto simp: url_unreserved_def)
  with Cons show ?case by (auto simp: QueryEscape_Cons unescape_percent)
qed (simp add: QueryEscape_def)

interpretation query_escape: codec "\<lambda>_. True" QueryEscape "\<lambda>s. the (unescape True s)"
  by unfold_locales (simp add: unescape_QueryEscape)

lemma query_pair_encode: "query_pair (encode_pair kv) = Some kv"
  using split_pair_append [of "QueryEscape (fst kv)" "QueryEscape (snd kv)"]
  by (simp add: query_pair_def encode_pair_def QueryEscape_no_delim unescape_QueryEscape)

lemma encode_pair_no_delim: "CHR ''&'' \<notin> set (encode_pair kv)"
  by (simp add: encode_pair_def QueryEscape_no_delim)

lemma js_split_join: "xs \<noteq> [] \<Longrightarrow> \<forall>x \<in> set xs. d \<notin> set x \<Longrightarrow> js_split d (js_join [d] xs) = xs"
  by (induction "[d]" xs rule: js_join.induct) (auto simp: js_split_append js_split_no_delim)

lemma map_filter_map_Some: "(\<And>x. f (g x) = Some x) \<Longrightarrow> List.map_filter f (map g xs) = xs"
  by (induction xs) (auto simp: List.map_filter_def)

lemma query_pairs_Encode: "query_pairs (values_Encode vs) = values_pairs vs"
proof (cases "values_pairs vs = []")
  case False
  then have "js_split (CHR ''&'') (values_Encode vs) = map encode_pair (values_pairs vs)"
    unfolding values_Encode_def by (intro js_split_join) (auto simp: encode_pair_no_delim)
  then show ?thesis by (simp add: query_pairs_def map_filter_map_Some query_pair_encode)
qed (simp add: query_pairs_def values_Encode_def List.map_filter_def query_pair_def)

end
