(* ===== verification/Gateway_Import.thy ===== *)
theory Gateway_Import
  imports Gateway_Store Gateway_Url
begin

text \<open>
  The import of OpenAPI documents: the parser of \<^verbatim>\<open>pkg/openapiimport\<close>, which turns each operation of a document into a tool
  with a name, a path and a JSON schema of its parameters, and the handler of \<^verbatim>\<open>pkg/portal/api.go\<close> that previews or
  stores the result. The parsers of JSON and YAML are parameters, as is the text of a schema; a Go map is an association
  list, its order the one in which Go visits it.
\<close>

section \<open>Definitions\<close>

subsection \<open>Elements of a list that are texts, words of a text\<close>

definition json_strings :: "json list \<Rightarrow> string list" where
  "json_strings vs = List.map_filter (\<lambda>v. case v of JString s \<Rightarrow> Some s | _ \<Rightarrow> None) vs"

text \<open>\<^verbatim>\<open>strings.Fields\<close>\<close>

definition go_Fields :: "string \<Rightarrow> string list" where
  "go_Fields s = filter (\<lambda>f. f \<noteq> []) (js_split (CHR '' '') (map (\<lambda>c. if js_space c then CHR '' '' else c) s))"

subsection \<open>From text to a document\<close>

text \<open>What the YAML library returns. A float has the text that \<^verbatim>\<open>fmt\<close> prints and, unless it is infinite or not a number, the
  one that \<^verbatim>\<open>encoding/json\<close> prints.\<close>

datatype yaml =
    YNull
  | YBool bool
  | YInt int
  | YFloat string "string option"
  | YStr string
  | YSeq "yaml list"
  | YMap "(yaml \<times> yaml) list"

record openapi_lib =
  ol_json :: "string \<Rightarrow> json option"
  ol_yaml :: "string \<Rightarrow> yaml option"
  ol_sprint :: "yaml \<Rightarrow> string"
  ol_marshal :: "json \<Rightarrow> string"

definition bool_text :: "bool \<Rightarrow> string" where
  "bool_text b = (if b then ''true'' else ''false'')"

fun yaml_key :: "openapi_lib \<Rightarrow> yaml \<Rightarrow> string" where
  "yaml_key lib YNull = ''<nil>''"
| "yaml_key lib (YBool b) = bool_text b"
| "yaml_key lib (YInt i) = int_to_string i"
| "yaml_key lib (YFloat s m) = s"
| "yaml_key lib (YStr s) = s"
| "yaml_key lib y = ol_sprint lib y"

text \<open>\<^verbatim>\<open>convertYAMLValue\<close> and \<^verbatim>\<open>json.Marshal\<close>, which refuses floats without a JSON form.\<close>

fun convertYAMLValue :: "openapi_lib \<Rightarrow> yaml \<Rightarrow> json option"
  and convertYAMLList :: "openapi_lib \<Rightarrow> yaml list \<Rightarrow> json list option"
  and convertYAMLMap :: "openapi_lib \<Rightarrow> (yaml \<times> yaml) list \<Rightarrow> (string \<times> json) list \<Rightarrow> (string \<times> json) list option" where
  "convertYAMLValue lib YNull = Some JNull"
| "convertYAMLValue lib (YBool b) = Some (JBoolean b)"
| "convertYAMLValue lib (YInt i) = Some (JNumber (int_to_string i))"
| "convertYAMLValue lib (YFloat s m) = map_option JNumber m"
| "convertYAMLValue lib (YStr s) = Some (JString s)"
| "convertYAMLValue lib (YSeq ys) = map_option JArray (convertYAMLList lib ys)"
| "convertYAMLValue lib (YMap kvs) = map_option JObject (convertYAMLMap lib kvs [])"
| "convertYAMLList lib [] = Some []"
| "convertYAMLList lib (y # ys) =
     (case (convertYAMLValue lib y, convertYAMLList lib ys) of (Some j, Some js) \<Rightarrow> Some (j # js) | _ \<Rightarrow> None)"
| "convertYAMLMap lib [] m = Some m"
| "convertYAMLMap lib ((k, y) # kvs) m =
     (case convertYAMLValue lib y of None \<Rightarrow> None | Some j \<Rightarrow> convertYAMLMap lib kvs (AList.update (yaml_key lib k) j m))"

datatype import_error =
    EmptySpec
  | NeitherJsonNorYaml
  | NotConvertible
  | BadDocument
  | UnsupportedVersion string
  | BadPathItem string
  | BadOperation string string

definition normalizeToJSON :: "openapi_lib \<Rightarrow> string \<Rightarrow> import_error + json" where
  "normalizeToJSON lib spec =
     (let trimmed = go_TrimSpace spec in
      if length trimmed = 0 then Inl EmptySpec
      else case ol_json lib trimmed of
             Some j \<Rightarrow> Inr j
           | None \<Rightarrow>
               (case ol_yaml lib trimmed of
                  None \<Rightarrow> Inl NeitherJsonNorYaml
                | Some raw \<Rightarrow> (case convertYAMLValue lib raw of None \<Rightarrow> Inl NotConvertible | Some j \<Rightarrow> Inr j)))"

subsection \<open>Decoding into structs\<close>

text \<open>\<^verbatim>\<open>json.Unmarshal\<close>: a decoder takes the value that a field has so far. A field is looked up without regard to case, an
  element of a map or of a slice starts from its zero value, null leaves strings and structs and empties maps and slices.\<close>

definition into_field :: "('a \<Rightarrow> json \<Rightarrow> 'a option) \<Rightarrow> string \<Rightarrow> (string \<times> json) list \<Rightarrow> 'a \<Rightarrow> 'a option" where
  "into_field dec name kvs x =
     foldl (\<lambda>acc (k, v). if go_EqualFold k name then Option.bind acc (\<lambda>y. dec y v) else acc) (Some x) kvs"

definition into_string :: "string \<Rightarrow> json \<Rightarrow> string option" where
  "into_string x v = (case v of JString s \<Rightarrow> Some s | JNull \<Rightarrow> Some x | _ \<Rightarrow> None)"

definition into_bool :: "bool \<Rightarrow> json \<Rightarrow> bool option" where
  "into_bool x v = (case v of JBoolean b \<Rightarrow> Some b | JNull \<Rightarrow> Some x | _ \<Rightarrow> None)"

definition into_struct :: "((string \<times> json) list \<Rightarrow> 'a \<Rightarrow> 'a option) \<Rightarrow> 'a \<Rightarrow> json \<Rightarrow> 'a option" where
  "into_struct flds x v = (case v of JObject kvs \<Rightarrow> flds kvs x | JNull \<Rightarrow> Some x | _ \<Rightarrow> None)"

definition into_map :: "(json \<Rightarrow> 'a option) \<Rightarrow> (string \<times> 'a) list option \<Rightarrow> json \<Rightarrow> (string \<times> 'a) list option option" where
  "into_map elem x v =
     (case v of
        JObject kvs \<Rightarrow>
          map_option Some (foldl (\<lambda>acc (k, w). Option.bind acc (\<lambda>m. map_option (\<lambda>e. AList.update k e m) (elem w)))
            (Some (case x of None \<Rightarrow> [] | Some m \<Rightarrow> m)) kvs)
      | JNull \<Rightarrow> Some None
      | _ \<Rightarrow> None)"

fun all_elems :: "(json \<Rightarrow> 'a option) \<Rightarrow> json list \<Rightarrow> 'a list option" where
  "all_elems elem [] = Some []"
| "all_elems elem (v # vs) = (case elem v of None \<Rightarrow> None | Some x \<Rightarrow> map_option ((#) x) (all_elems elem vs))"

definition into_slice :: "(json \<Rightarrow> 'a option) \<Rightarrow> 'a list \<Rightarrow> json \<Rightarrow> 'a list option" where
  "into_slice elem x v = (case v of JArray vs \<Rightarrow> all_elems elem vs | JNull \<Rightarrow> Some [] | _ \<Rightarrow> None)"

type_synonym schema = "(string \<times> json) list"

record parameter =
  pa_Name :: string
  pa_In :: string
  pa_Description :: string
  pa_Required :: bool
  pa_Schema :: "schema option"

definition decode_parameter :: "json \<Rightarrow> parameter option" where
  "decode_parameter v =
     into_struct (\<lambda>kvs p. do {
       name \<leftarrow> into_field into_string ''name'' kvs [];
       loc \<leftarrow> into_field into_string ''in'' kvs [];
       descr \<leftarrow> into_field into_string ''description'' kvs [];
       req \<leftarrow> into_field into_bool ''required'' kvs False;
       sch \<leftarrow> into_field (into_map Some) ''schema'' kvs None;
       Some \<lparr>pa_Name = name, pa_In = loc, pa_Description = descr, pa_Required = req, pa_Schema = sch\<rparr> })
       \<lparr>pa_Name = [], pa_In = [], pa_Description = [], pa_Required = False, pa_Schema = None\<rparr> v"

definition decode_parameters :: "(string \<times> json) list \<Rightarrow> parameter list option" where
  "decode_parameters kvs = into_field (into_slice decode_parameter) ''parameters'' kvs []"

text \<open>A media type holds a schema only.\<close>

record requestBody =
  rb_Required :: bool
  rb_Content :: "(string \<times> schema option) list"

definition decode_mediaType :: "json \<Rightarrow> schema option option" where
  "decode_mediaType v = into_struct (\<lambda>kvs x. into_field (into_map Some) ''schema'' kvs x) None v"

definition go_nil :: "'a list option \<Rightarrow> 'a list" where
  "go_nil m = (case m of None \<Rightarrow> [] | Some x \<Rightarrow> x)"

definition into_requestBody :: "requestBody option \<Rightarrow> json \<Rightarrow> requestBody option option" where
  "into_requestBody x v =
     (case v of
        JNull \<Rightarrow> Some None
      | JObject kvs \<Rightarrow>
          (let old = (case x of None \<Rightarrow> \<lparr>rb_Required = False, rb_Content = []\<rparr> | Some b \<Rightarrow> b) in
           do {
             req \<leftarrow> into_field into_bool ''required'' kvs (rb_Required old);
             content \<leftarrow> into_field (into_map decode_mediaType) ''content'' kvs (Some (rb_Content old));
             Some (Some \<lparr>rb_Required = req, rb_Content = go_nil content\<rparr>) })
      | _ \<Rightarrow> None)"

record operation =
  op_OperationID :: string
  op_Summary :: string
  op_Description :: string
  op_Parameters :: "parameter list"
  op_RequestBody :: "requestBody option"

definition decode_operation :: "json \<Rightarrow> operation option" where
  "decode_operation v =
     into_struct (\<lambda>kvs x. do {
       oid \<leftarrow> into_field into_string ''operationId'' kvs [];
       summary \<leftarrow> into_field into_string ''summary'' kvs [];
       descr \<leftarrow> into_field into_string ''description'' kvs [];
       params \<leftarrow> decode_parameters kvs;
       rb \<leftarrow> into_field into_requestBody ''requestBody'' kvs None;
       Some \<lparr>op_OperationID = oid, op_Summary = summary, op_Description = descr, op_Parameters = params, op_RequestBody = rb\<rparr> })
       \<lparr>op_OperationID = [], op_Summary = [], op_Description = [], op_Parameters = [], op_RequestBody = None\<rparr> v"

record securityScheme =
  ss_Type :: string
  ss_Scheme :: string
  ss_In :: string

definition decode_scheme :: "json \<Rightarrow> securityScheme option" where
  "decode_scheme v =
     into_struct (\<lambda>kvs x. do {
       ty \<leftarrow> into_field into_string ''type'' kvs [];
       scheme \<leftarrow> into_field into_string ''scheme'' kvs [];
       loc \<leftarrow> into_field into_string ''in'' kvs [];
       Some \<lparr>ss_Type = ty, ss_Scheme = scheme, ss_In = loc\<rparr> }) \<lparr>ss_Type = [], ss_Scheme = [], ss_In = []\<rparr> v"

record openAPIRoot =
  rt_OpenAPI :: string
  rt_Title :: string
  rt_Servers :: "string list"
  rt_Paths :: "(string \<times> json) list"
  rt_SecuritySchemes :: "(string \<times> securityScheme) list"

definition decode_root :: "json \<Rightarrow> openAPIRoot option" where
  "decode_root v =
     into_struct (\<lambda>kvs x. do {
       version \<leftarrow> into_field into_string ''openapi'' kvs [];
       title \<leftarrow> into_field (into_struct (into_field into_string ''title'')) ''info'' kvs [];
       servers \<leftarrow> into_field (into_slice (\<lambda>s. into_struct (into_field into_string ''url'') [] s)) ''servers'' kvs [];
       paths \<leftarrow> into_field (into_map Some) ''paths'' kvs None;
       schemes \<leftarrow> into_field (into_struct (into_field (into_map decode_scheme) ''securitySchemes'')) ''components'' kvs None;
       Some \<lparr>rt_OpenAPI = version, rt_Title = title, rt_Servers = servers, rt_Paths = go_nil paths, rt_SecuritySchemes = go_nil schemes\<rparr> })
       \<lparr>rt_OpenAPI = [], rt_Title = [], rt_Servers = [], rt_Paths = [], rt_SecuritySchemes = []\<rparr> v"

subsection \<open>Schemas\<close>

definition param_key :: "parameter \<Rightarrow> string" where
  "param_key p = pa_In p @ ''|'' @ pa_Name p"

text \<open>The list of parameters with an index from keys to positions.\<close>

definition append_param :: "parameter list \<times> (string \<times> nat) list \<Rightarrow> parameter \<Rightarrow> parameter list \<times> (string \<times> nat) list" where
  "append_param = (\<lambda>(merged, index) p. (merged @ [p], AList.update (param_key p) (length merged) index))"

definition override_param :: "parameter list \<times> (string \<times> nat) list \<Rightarrow> parameter \<Rightarrow> parameter list \<times> (string \<times> nat) list" where
  "override_param = (\<lambda>(merged, index) p.
     case map_of index (param_key p) of
       Some i \<Rightarrow> (merged[i := p], index)
     | None \<Rightarrow> append_param (merged, index) p)"

definition mergeParameters :: "parameter list \<Rightarrow> parameter list \<Rightarrow> parameter list" where
  "mergeParameters base override = fst (foldl override_param (foldl append_param ([], []) base) override)"

definition schema_string :: "schema option \<Rightarrow> string \<Rightarrow> string" where
  "schema_string sch k = (case Option.bind sch (\<lambda>m. map_of m k) of Some (JString s) \<Rightarrow> s | _ \<Rightarrow> [])"

definition parameterToJSONSchema :: "parameter \<Rightarrow> schema" where
  "parameterToJSONSchema p =
     [(''type'', JString (if schema_string (pa_Schema p) ''type'' \<noteq> [] then schema_string (pa_Schema p) ''type'' else ''string''))] @
     (if pa_Description p \<noteq> [] then [(''description'', JString (pa_Description p))] else []) @
     (if schema_string (pa_Schema p) ''format'' \<noteq> [] then [(''format'', JString (schema_string (pa_Schema p) ''format''))] else []) @
     (case Option.bind (pa_Schema p) (\<lambda>m. map_of m ''enum'') of Some enum \<Rightarrow> [(''enum'', enum)] | None \<Rightarrow> [])"

fun dedupe :: "string list \<Rightarrow> string list \<Rightarrow> string list" where
  "dedupe seen [] = []"
| "dedupe seen (x # xs) = (if x \<in> set seen then dedupe seen xs else x # dedupe (x # seen) xs)"

definition dedupeSorted :: "string list \<Rightarrow> string list" where
  "dedupeSorted items = sort (dedupe [] items)"

text \<open>The properties and the required names so far.\<close>

type_synonym schema_state = "schema \<times> string list"

definition add_parameter :: "schema_state \<Rightarrow> parameter \<Rightarrow> schema_state" where
  "add_parameter = (\<lambda>(properties, required) p.
     if pa_Name p = [] then (properties, required)
     else (AList.update (pa_Name p) (JObject (parameterToJSONSchema p)) properties,
           if pa_Required p \<or> pa_In p = ''path'' then required @ [pa_Name p] else required))"

definition body_properties :: "schema \<Rightarrow> schema \<Rightarrow> schema" where
  "body_properties sch properties =
     (case map_of sch ''properties'' of
        Some (JObject props) \<Rightarrow> foldl (\<lambda>m (name, ps). AList.update name ps m) properties props
      | _ \<Rightarrow> properties)"

definition body_required :: "schema \<Rightarrow> string list \<Rightarrow> string list" where
  "body_required sch required =
     (case map_of sch ''required'' of Some (JArray rs) \<Rightarrow> required @ json_strings rs | _ \<Rightarrow> required)"

definition add_body :: "requestBody option \<Rightarrow> schema_state \<Rightarrow> schema_state" where
  "add_body rb = (\<lambda>(properties, required).
     case rb of
       None \<Rightarrow> (properties, required)
     | Some b \<Rightarrow>
         (case map_of (rb_Content b) ''application/json'' of
            Some (Some sch) \<Rightarrow>
              if schema_string (Some sch) ''type'' = [] \<or> schema_string (Some sch) ''type'' = ''object''
              then (body_properties sch properties, body_required sch required)
              else (AList.update ''body'' (JObject sch) properties, if rb_Required b then required @ [''body''] else required)
          | _ \<Rightarrow> (properties, required)))"

definition schema_of :: "parameter list \<Rightarrow> requestBody option \<Rightarrow> json" where
  "schema_of params rb =
     (let (properties, required) = add_body rb (foldl add_parameter ([], []) params) in
      JObject ([(''type'', JString ''object''), (''properties'', JObject properties)] @
        (if length required > 0 then [(''required'', JArray (map JString (dedupeSorted required)))] else [])))"

definition buildParametersSchema :: "openapi_lib \<Rightarrow> parameter list \<Rightarrow> requestBody option \<Rightarrow> string" where
  "buildParametersSchema lib params rb = ol_marshal lib (schema_of params rb)"

subsection \<open>Names\<close>

definition scheme_rank :: "securityScheme \<Rightarrow> (string \<times> nat) option" where
  "scheme_rank s =
     (if go_EqualFold (ss_Type s) ''http'' \<and> go_EqualFold (ss_Scheme s) ''bearer'' then Some (''bearer'', 0)
      else if go_EqualFold (ss_Type s) ''http'' \<and> go_EqualFold (ss_Scheme s) ''basic'' then Some (''basic'', 1)
      else if go_EqualFold (ss_Type s) ''apiKey'' then Some (''custom_headers'', 2)
      else if go_EqualFold (ss_Type s) ''oauth2'' \<or> go_EqualFold (ss_Type s) ''openIdConnect'' then Some (''custom_headers'', 3)
      else None)"

definition better_scheme :: "string \<times> nat \<Rightarrow> securityScheme \<Rightarrow> string \<times> nat" where
  "better_scheme = (\<lambda>(authType, bestRank) s.
     case scheme_rank s of
       Some (t, rank) \<Rightarrow> if rank < bestRank then (t, rank) else (authType, bestRank)
     | None \<Rightarrow> (authType, bestRank))"

definition inferAuthType :: "(string \<times> securityScheme) list \<Rightarrow> string" where
  "inferAuthType schemes =
     (if length schemes = 0 then ''none''
      else fst (foldl (\<lambda>acc name. better_scheme acc (the (map_of schemes name))) (''none'', 99) (sort (map fst schemes))))"

definition sanitizeConnectionName :: "string \<Rightarrow> string" where
  "sanitizeConnectionName title =
     (let fs = go_Fields title in if length fs = 0 then ''Untitled API'' else js_join '' '' fs)"

definition name_char :: "char \<Rightarrow> bool" where
  "name_char c \<longleftrightarrow> (let n = of_char c :: nat in (97 \<le> n \<and> n \<le> 122) \<or> (48 \<le> n \<and> n \<le> 57))"

text \<open>\<^verbatim>\<open>nonAlnumRE.ReplaceAllString(s, "_")\<close>: every run of other characters becomes one underscore.\<close>

fun squash :: "bool \<Rightarrow> string \<Rightarrow> string" where
  "squash in_run [] = []"
| "squash in_run (c # s) =
     (if name_char c then c # squash False s else if in_run then squash True s else CHR ''_'' # squash True s)"

definition go_Trim :: "char \<Rightarrow> string \<Rightarrow> string" where
  "go_Trim d s = rev (dropWhile (\<lambda>c. c = d) (rev (dropWhile (\<lambda>c. c = d) s)))"

definition sanitizeName :: "string \<Rightarrow> string" where
  "sanitizeName s = go_Trim (CHR ''_'') (squash False (js_toLowerCase s))"

definition toolNameBase :: "string \<Rightarrow> string \<Rightarrow> string \<Rightarrow> string" where
  "toolNameBase operationID meth path =
     (if sanitizeName operationID \<noteq> [] then sanitizeName operationID else sanitizeName (meth @ ''_'' @ path))"

type_synonym name_counts = "(string \<times> nat) list"

definition uniqueName :: "string \<Rightarrow> name_counts \<Rightarrow> string \<times> name_counts" where
  "uniqueName base counts =
     (let n = (case map_of counts base of None \<Rightarrow> 0 | Some n \<Rightarrow> n) + 1 in
      (if n = 1 then base else base @ ''_'' @ nat_to_string n, AList.update base n counts))"

definition firstNonEmpty :: "string \<Rightarrow> string \<Rightarrow> string" where
  "firstNonEmpty a b = (if a \<noteq> [] then a else b)"

subsection \<open>Parse\<close>

record ParsedEndpoint =
  pe_ToolName :: string
  pe_ToolDescription :: string
  pe_Path :: string
  pe_Method :: string
  pe_ParametersSchema :: string

record ParsedConnection =
  pc_Name :: string
  pc_BaseURL :: string
  pc_AuthType :: string
  pc_Endpoints :: "ParsedEndpoint list"

text \<open>The methods in their order, with \<^verbatim>\<open>strings.ToUpper\<close>.\<close>

definition httpMethods :: "(string \<times> string) list" where
  "httpMethods =
     [(''get'', ''GET''), (''put'', ''PUT''), (''post'', ''POST''), (''delete'', ''DELETE''), (''options'', ''OPTIONS''),
      (''head'', ''HEAD''), (''patch'', ''PATCH''), (''trace'', ''TRACE'')]"

definition parsed_operation ::
  "openapi_lib \<Rightarrow> string \<Rightarrow> string \<Rightarrow> parameter list \<Rightarrow> string \<times> string \<Rightarrow> operation \<Rightarrow> name_counts \<Rightarrow> ParsedEndpoint \<times> name_counts" where
  "parsed_operation lib pre path shared m op counts =
     (let (name, counts') = uniqueName (pre @ toolNameBase (op_OperationID op) (fst m) path) counts in
      (\<lparr>pe_ToolName = name, pe_ToolDescription = firstNonEmpty (op_Summary op) (op_Description op), pe_Path = path, pe_Method = snd m,
        pe_ParametersSchema = buildParametersSchema lib (mergeParameters shared (op_Parameters op)) (op_RequestBody op)\<rparr>, counts'))"

fun parse_methods ::
  "openapi_lib \<Rightarrow> string \<Rightarrow> string \<Rightarrow> parameter list \<Rightarrow> (string \<times> json) list \<Rightarrow> (string \<times> string) list \<Rightarrow> name_counts \<Rightarrow>
     import_error + ParsedEndpoint list \<times> name_counts" where
  "parse_methods lib pre path shared ops [] counts = Inr ([], counts)"
| "parse_methods lib pre path shared ops (m # ms) counts =
     (case map_of ops (fst m) of
        None \<Rightarrow> parse_methods lib pre path shared ops ms counts
      | Some raw \<Rightarrow>
          (case decode_operation raw of
             None \<Rightarrow> Inl (BadOperation (snd m) path)
           | Some op \<Rightarrow>
               (let (ep, counts') = parsed_operation lib pre path shared m op counts in
                case parse_methods lib pre path shared ops ms counts' of
                  Inl e \<Rightarrow> Inl e
                | Inr (eps, counts'') \<Rightarrow> Inr (ep # eps, counts''))))"

definition path_item :: "json \<Rightarrow> (parameter list \<times> (string \<times> json) list) option" where
  "path_item raw = do {
     shared \<leftarrow> into_struct (\<lambda>kvs x. decode_parameters kvs) [] raw;
     ops \<leftarrow> into_map Some None raw;
     Some (shared, go_nil ops) }"

fun parse_paths ::
  "openapi_lib \<Rightarrow> string \<Rightarrow> (string \<times> json) list \<Rightarrow> string list \<Rightarrow> name_counts \<Rightarrow> import_error + ParsedEndpoint list" where
  "parse_paths lib pre paths [] counts = Inr []"
| "parse_paths lib pre paths (p # ps) counts =
     (case path_item (the (map_of paths p)) of
        None \<Rightarrow> Inl (BadPathItem p)
      | Some (shared, ops) \<Rightarrow>
          (case parse_methods lib pre p shared ops httpMethods counts of
             Inl e \<Rightarrow> Inl e
           | Inr (eps, counts') \<Rightarrow> map_sum id ((@) eps) (parse_paths lib pre paths ps counts')))"

definition Parse :: "openapi_lib \<Rightarrow> string \<Rightarrow> string \<Rightarrow> import_error + ParsedConnection" where
  "Parse lib pre spec =
     (case normalizeToJSON lib spec of
        Inl e \<Rightarrow> Inl e
      | Inr j \<Rightarrow>
          (case decode_root j of
             None \<Rightarrow> Inl BadDocument
           | Some root \<Rightarrow>
               if \<not> go_HasPrefix (rt_OpenAPI root) ''3.'' then Inl (UnsupportedVersion (rt_OpenAPI root))
               else map_sum id (\<lambda>eps.
                 \<lparr>pc_Name = sanitizeConnectionName (rt_Title root),
                  pc_BaseURL = (case rt_Servers root of [] \<Rightarrow> [] | u # _ \<Rightarrow> u),
                  pc_AuthType = inferAuthType (rt_SecuritySchemes root), pc_Endpoints = eps\<rparr>)
                 (parse_paths lib pre (rt_Paths root) (sort (map fst (rt_Paths root))) [])))"

subsection \<open>The handler\<close>

datatype import_failure = NotPost | Unreadable | EmptyBody | NotParsed import_error | NoTitle | NotSaved

datatype import_reply =
    ImportFailed import_failure
  | Preview ParsedConnection
  | Created string string "string list"

definition imported_connection :: "string \<Rightarrow> ParsedConnection \<Rightarrow> connection" where
  "imported_connection uuid pc =
     \<lparr>conn_id = uuid, conn_name = pc_Name pc, conn_description = [], conn_base_url = pc_BaseURL pc, conn_auth_type = pc_AuthType pc,
      conn_auth_secret_ref = [], conn_enabled = True, conn_tool_prefix = []\<rparr>"

definition imported_endpoint :: "string \<Rightarrow> string \<Rightarrow> ParsedEndpoint \<Rightarrow> stored_endpoint" where
  "imported_endpoint uuid cid pe =
     \<lparr>ep_id = uuid, ep_connection_id = cid, ep_tool_name = pe_ToolName pe, ep_tool_description = pe_ToolDescription pe,
      ep_path = pe_Path pe, ep_method = pe_Method pe, ep_parameters_schema = pe_ParametersSchema pe, ep_template = [],
      ep_definition_hash = [], ep_version = 0\<rparr>"

text \<open>What the outside decides: a fault of the first save, the new ids, and two faults for the save of each tool.\<close>

record import_outcome =
  io_conn_fault :: fault
  io_conn_uuid :: string
  io_uuid :: "nat \<Rightarrow> string"
  io_faults :: "nat \<Rightarrow> fault \<times> fault"

fun save_tools ::
  "(tool_def \<Rightarrow> string) \<Rightarrow> import_outcome \<Rightarrow> string \<Rightarrow> nat \<Rightarrow> ParsedEndpoint list \<Rightarrow> db \<Rightarrow> (unit + string list) \<times> db" where
  "save_tools H oc cid i [] d = (Inr [], d)"
| "save_tools H oc cid i (pe # pes) d =
     (case SaveEndpoint H (fst (io_faults oc i)) (snd (io_faults oc i)) (imported_endpoint (io_uuid oc i) cid pe) d of
        (Inl e, d) \<Rightarrow> (Inl (), d)
      | (Inr ep, d) \<Rightarrow>
          (case save_tools H oc cid (i + 1) pes d of
             (Inl u, d) \<Rightarrow> (Inl (), d)
           | (Inr names, d) \<Rightarrow> (Inr (ep_tool_name ep # names), d)))"

definition import_limit :: nat where
  "import_limit = 10 * 2 ^ 20"

text \<open>The part of the handler after the request has been read.\<close>

definition import_document ::
  "openapi_lib \<Rightarrow> (tool_def \<Rightarrow> string) \<Rightarrow> import_outcome \<Rightarrow> string \<Rightarrow> string \<Rightarrow> db \<Rightarrow> import_reply \<times> db" where
  "import_document lib H oc rawQuery spec d =
     (let pre = Query_Get rawQuery ''prefix''; dryRun = go_EqualFold (Query_Get rawQuery ''dry_run'') ''true'' in
      case Parse lib pre spec of
        Inl e \<Rightarrow> (ImportFailed (NotParsed e), d)
      | Inr parsed \<Rightarrow>
          if pc_Name parsed = [] \<or> pc_BaseURL parsed = [] then (ImportFailed NoTitle, d)
          else if dryRun then (Preview parsed, d)
          else (case SaveConnection (io_conn_fault oc) (imported_connection (io_conn_uuid oc) parsed) d of
                  (Inl e, d) \<Rightarrow> (ImportFailed NotSaved, d)
                | (Inr u, d) \<Rightarrow>
                    (case save_tools H oc (io_conn_uuid oc) 0 (pc_Endpoints parsed) d of
                       (Inl u, d) \<Rightarrow> (ImportFailed NotSaved, d)
                     | (Inr names, d) \<Rightarrow> (Created (io_conn_uuid oc) (pc_Name parsed) names, d))))"

definition handleOpenAPIImport ::
  "openapi_lib \<Rightarrow> (tool_def \<Rightarrow> string) \<Rightarrow> import_outcome \<Rightarrow> string \<Rightarrow> string \<Rightarrow> string option \<Rightarrow> db \<Rightarrow> import_reply \<times> db" where
  "handleOpenAPIImport lib H oc meth rawQuery content d =
     (if meth \<noteq> ''POST'' then (ImportFailed NotPost, d)
      else case content of
        None \<Rightarrow> (ImportFailed Unreadable, d)
      | Some sent \<Rightarrow>
          (let spec = take import_limit sent in
           if length spec = 0 then (ImportFailed EmptyBody, d) else import_document lib H oc rawQuery spec d))"

section \<open>Lemmas\<close>

subsection \<open>Maps\<close>

lemma foldl_option_inv:
  assumes "foldl f a xs = Some y" "\<And>z. a = Some z \<Longrightarrow> P z"
    and "\<And>a x w. f a x = Some w \<Longrightarrow> (\<And>z. a = Some z \<Longrightarrow> P z) \<Longrightarrow> P w"
  shows "P y"
  using assms(1,2)
proof (induction xs arbitrary: a)
  case (Cons x xs)
  show ?case
  proof (rule Cons.IH)
    show "foldl f (f a x) xs = Some y" using Cons.prems(1) by simp
    show "P z" if "f a x = Some z" for z using that Cons.prems(2) by (rule assms(3))
  qed
qed simp

lemma into_map_distinct:
  assumes "into_map elem x v = Some (Some m)" "\<And>y. x = Some y \<Longrightarrow> distinct (map fst y)"
  shows "distinct (map fst m)"
proof -
  obtain kvs where "foldl (\<lambda>acc (k, w). Option.bind acc (\<lambda>m. map_option (\<lambda>e. AList.update k e m) (elem w)))
      (Some (case x of None \<Rightarrow> [] | Some m \<Rightarrow> m)) kvs = Some m"
    using assms(1) by (auto simp: into_map_def split: json.splits)
  then show ?thesis
    by (rule foldl_option_inv [where P = "\<lambda>m. distinct (map fst m)"])
      (use assms(2) in \<open>auto simp: Option.bind_eq_Some_conv distinct_update split: prod.splits option.splits\<close>)
qed

lemma into_field_inv:
  assumes "into_field dec name kvs x = Some y" "P x" "\<And>z v w. P z \<Longrightarrow> dec z v = Some w \<Longrightarrow> P w"
  shows "P y"
  using assms(1) unfolding into_field_def
  by (rule foldl_option_inv) (use assms(2,3) in \<open>auto simp: Option.bind_eq_Some_conv split: prod.splits if_splits\<close>)

definition map_keys_distinct :: "(string \<times> 'a) list option \<Rightarrow> bool" where
  "map_keys_distinct m \<longleftrightarrow> distinct (map fst (go_nil m))"

lemma into_map_field_distinct:
  assumes "into_field (into_map elem) name kvs x = Some m" "map_keys_distinct x"
  shows "map_keys_distinct m"
  using assms(1)
proof (rule into_field_inv)
  show "map_keys_distinct x" by fact
  show "map_keys_distinct w" if "map_keys_distinct z" "into_map elem z v = Some w" for z v w
    using that into_map_distinct [of elem z v] by (cases w) (auto simp: map_keys_distinct_def go_nil_def split: option.splits)
qed

lemma decode_root_distinct:
  assumes "decode_root j = Some root"
  shows "distinct (map fst (rt_Paths root))" "distinct (map fst (rt_SecuritySchemes root))"
proof -
  have none: "map_keys_distinct None" by (simp add: map_keys_distinct_def go_nil_def)
  have "distinct (map fst (rt_Paths root)) \<and> distinct (map fst (rt_SecuritySchemes root))"
  proof (cases j)
    case (JObject kvs)
    with assms obtain paths schemes where
      p: "into_field (into_map Some) ''paths'' kvs None = Some paths" "rt_Paths root = go_nil paths" and
      s: "into_field (into_struct (into_field (into_map decode_scheme) ''securitySchemes'')) ''components'' kvs None = Some schemes"
        "rt_SecuritySchemes root = go_nil schemes"
      by (auto simp: decode_root_def into_struct_def Option.bind_eq_Some_conv)
    have "map_keys_distinct schemes"
      using s(1)
    proof (rule into_field_inv)
      show "map_keys_distinct w"
        if "map_keys_distinct z" "into_struct (into_field (into_map decode_scheme) ''securitySchemes'') z v = Some w" for z v w
        using that into_map_field_distinct [of decode_scheme "''securitySchemes''" _ z w] by (auto simp: into_struct_def split: json.splits)
    qed (fact none)
    with into_map_field_distinct [OF p(1) none] p(2) s(2) show ?thesis by (simp add: map_keys_distinct_def)
  qed (use assms in \<open>auto simp: decode_root_def into_struct_def\<close>)
  then show "distinct (map fst (rt_Paths root))" "distinct (map fst (rt_SecuritySchemes root))" by simp_all
qed

lemma map_of_mset: "mset xs = mset ys \<Longrightarrow> distinct (map fst xs) \<Longrightarrow> map_of xs = map_of ys"
  by (metis mset_map mset_eq_imp_distinct_iff map_of_eqI mset_eq_setD map_of_inject_set set_map)

lemma sort_keys_mset: "mset xs = mset ys \<Longrightarrow> sort (map fst xs) = sort (map (fst :: string \<times> 'a \<Rightarrow> string) ys)"
  by (metis mset_map mset_sort properties_for_sort sorted_sort)

subsection \<open>Operations and names\<close>

lemma squash_chars: "c \<in> set (squash b s) \<Longrightarrow> name_char c \<or> c = CHR ''_''"
  by (induction b s rule: squash.induct) (auto split: if_splits)

lemma go_Trim_chars: "c \<in> set (go_Trim d s) \<Longrightarrow> c \<in> set s"
  by (auto simp: go_Trim_def dest!: set_dropWhileD)

lemma sanitizeName_chars: "c \<in> set (sanitizeName s) \<Longrightarrow> name_char c \<or> c = CHR ''_''"
  unfolding sanitizeName_def by (blast dest: go_Trim_chars squash_chars)

text \<open>The operations of a document in the order of the import.\<close>

definition operations_of :: "(string \<times> json) list \<Rightarrow> string list \<Rightarrow> (string \<times> string) list" where
  "operations_of paths ps =
     concat (map (\<lambda>p. case path_item (the (map_of paths p)) of
         None \<Rightarrow> [] | Some (shared, ops) \<Rightarrow> map (\<lambda>m. (p, snd m)) (filter (\<lambda>m. map_of ops (fst m) \<noteq> None) httpMethods)) ps)"

lemma parse_methods_ops:
  "parse_methods lib pre path shared ops ms counts = Inr (eps, counts') \<Longrightarrow>
     map (\<lambda>e. (pe_Path e, pe_Method e)) eps = map (\<lambda>m. (path, snd m)) (filter (\<lambda>m. map_of ops (fst m) \<noteq> None) ms)"
proof (induction lib pre path shared ops ms counts arbitrary: eps counts' rule: parse_methods.induct)
  case (2 lib pre path shared ops m ms counts)
  show ?case
  proof (cases "map_of ops (fst m)")
    case None
    then show ?thesis using 2(1) [OF None] 2(3) by simp
  next
    case (Some raw)
    with 2(3) obtain op where op: "decode_operation raw = Some op" by (auto split: option.splits)
    obtain ep c where pe: "parsed_operation lib pre path shared m op counts = (ep, c)" by fastforce
    with 2(3) Some op obtain eps' where r: "parse_methods lib pre path shared ops ms c = Inr (eps', counts')" "eps = ep # eps'"
      by (auto split: sum.splits)
    have "pe_Path ep = path" "pe_Method ep = snd m" using pe by (auto simp: parsed_operation_def split: prod.splits)
    then show ?thesis using 2(2) [OF Some op pe [symmetric] refl r(1)] r(2) Some by simp
  qed
qed simp

lemma parse_paths_ops:
  "parse_paths lib pre paths ps counts = Inr eps \<Longrightarrow> map (\<lambda>e. (pe_Path e, pe_Method e)) eps = operations_of paths ps"
proof (induction ps arbitrary: counts eps)
  case (Cons p ps)
  then obtain shared ops where i: "path_item (the (map_of paths p)) = Some (shared, ops)" by (auto split: option.splits)
  with Cons.prems obtain es c where m: "parse_methods lib pre p shared ops httpMethods counts = Inr (es, c)" by (auto split: sum.splits)
  with Cons.prems i obtain es' where r: "parse_paths lib pre paths ps c = Inr es'" "eps = es @ es'"
    by (cases "parse_paths lib pre paths ps c") auto
  show ?case using Cons.IH [OF r(1)] parse_methods_ops [OF m] r(2) i by (simp add: operations_of_def)
qed (simp add: operations_of_def)

lemma parse_paths_cong: "map_of paths = map_of paths' \<Longrightarrow> parse_paths lib pre paths ps counts = parse_paths lib pre paths' ps counts"
  by (induction ps arbitrary: counts) (simp_all split: option.split sum.split)

lemma Parse_InrD:
  assumes "Parse lib pre spec = Inr pc"
  obtains j root where "normalizeToJSON lib spec = Inr j" "decode_root j = Some root"
    "parse_paths lib pre (rt_Paths root) (sort (map fst (rt_Paths root))) [] = Inr (pc_Endpoints pc)"
proof -
  from assms obtain j where j: "normalizeToJSON lib spec = Inr j" by (auto simp: Parse_def split: sum.splits)
  with assms obtain root where r: "decode_root j = Some root" by (auto simp: Parse_def split: option.splits)
  with assms j show ?thesis
    by (cases "parse_paths lib pre (rt_Paths root) (sort (map fst (rt_Paths root))) []")
      (auto simp: Parse_def split: if_splits intro: that)
qed

lemma inferAuthType_cong:
  "map_of xs = map_of ys \<Longrightarrow> sort (map fst xs) = sort (map fst ys) \<Longrightarrow> inferAuthType xs = inferAuthType ys"
  by (auto simp: inferAuthType_def dest: arg_cong [where f = length])

subsection \<open>Schemas\<close>

definition schema_properties :: "json \<Rightarrow> string list" where
  "schema_properties j =
     (case j of JObject kvs \<Rightarrow> (case map_of kvs ''properties'' of Some (JObject ps) \<Rightarrow> map fst ps | _ \<Rightarrow> []) | _ \<Rightarrow> [])"

definition schema_required :: "json \<Rightarrow> string list" where
  "schema_required j =
     (case j of JObject kvs \<Rightarrow> (case map_of kvs ''required'' of Some (JArray rs) \<Rightarrow> json_strings rs | _ \<Rightarrow> []) | _ \<Rightarrow> [])"

lemma json_strings_map [simp]: "json_strings (map JString xs) = xs"
  by (induction xs) (simp_all add: json_strings_def map_filter_def)

lemma dedupe_set: "set (dedupe seen xs) = set xs - set seen" "distinct (dedupe seen xs)"
proof -
  show s: "set (dedupe seen xs) = set xs - set seen" for seen xs by (induction seen xs rule: dedupe.induct) auto
  show "distinct (dedupe seen xs)" by (induction seen xs rule: dedupe.induct) (auto simp: s)
qed

lemma dedupeSorted_props: "set (dedupeSorted xs) = set xs" "distinct (dedupeSorted xs)" "sorted (dedupeSorted xs)"
  by (simp_all add: dedupeSorted_def dedupe_set)

lemma schema_of_parts:
  assumes "add_body rb (foldl add_parameter ([], []) params) = (properties, required)"
  shows "schema_properties (schema_of params rb) = map fst properties" "schema_required (schema_of params rb) = dedupeSorted required"
  using assms by (auto simp: schema_of_def schema_properties_def schema_required_def dedupeSorted_def)

text \<open>A later parameter, and the body, only add names.\<close>

lemma foldl_update_keys: "fst ` set (foldl (\<lambda>m (k, v). AList.update k v m) xs ys) = fst ` set xs \<union> fst ` set ys"
proof (induction ys arbitrary: xs)
  case (Cons y ys)
  have "fst ` set (AList.update k v m) = insert k (fst ` set m)" for k v and m :: "('a \<times> 'b) list"
    using dom_update [of k v m] by (simp add: dom_map_of_conv_image_fst)
  with Cons show ?case by (cases y) auto
qed simp

lemma update_keys: "fst ` set (AList.update k v m) = insert k (fst ` set m)"
  using foldl_update_keys [of m "[(k, v)]"] by auto

lemma body_mono: "fst ` set ps \<subseteq> fst ` set (body_properties sch ps)" "set rs \<subseteq> set (body_required sch rs)"
  by (auto simp: body_properties_def body_required_def foldl_update_keys split: option.split json.split)

lemma add_body_mono:
  "fst ` set ps \<subseteq> fst ` set (fst (add_body rb (ps, rs)))" "set rs \<subseteq> set (snd (add_body rb (ps, rs)))"
  by (simp_all add: add_body_def body_mono update_keys subset_insertI split: option.split)

lemma add_parameters_names:
  assumes "foldl add_parameter (ps, rs) params = (ps', rs')"
  shows "fst ` set ps' = fst ` set ps \<union> {pa_Name p | p. p \<in> set params \<and> pa_Name p \<noteq> []}"
    "set rs' = set rs \<union> {pa_Name p | p. p \<in> set params \<and> pa_Name p \<noteq> [] \<and> (pa_Required p \<or> pa_In p = ''path'')}"
  using assms by (induction params arbitrary: ps rs) (auto simp: add_parameter_def update_keys split: if_splits)

lemma schema_declares:
  assumes "p \<in> set params" "pa_Name p \<noteq> []"
  shows "pa_Name p \<in> set (schema_properties (schema_of params rb))"
    "pa_Required p \<or> pa_In p = ''path'' \<Longrightarrow> pa_Name p \<in> set (schema_required (schema_of params rb))"
proof -
  obtain ps rs where f: "foldl add_parameter ([], []) params = (ps, rs)" by fastforce
  obtain ps' rs' where b: "add_body rb (ps, rs) = (ps', rs')" by fastforce
  note s = schema_of_parts [of rb params ps' rs'] and n = add_parameters_names [OF f] and m = add_body_mono [where ps = ps and rb = rb and rs = rs]
  have "pa_Name p \<in> fst ` set ps" using n(1) assms by auto
  with m(1) b show "pa_Name p \<in> set (schema_properties (schema_of params rb))" by (auto simp: s f)
  assume "pa_Required p \<or> pa_In p = ''path''"
  then have "pa_Name p \<in> set rs" using n(2) assms by auto
  with m(2) b show "pa_Name p \<in> set (schema_required (schema_of params rb))" by (auto simp: s f dedupeSorted_props)
qed

lemma schema_required_sorted: "sorted (schema_required (schema_of params rb)) \<and> distinct (schema_required (schema_of params rb))"
proof -
  obtain ps rs where "add_body rb (foldl add_parameter ([], []) params) = (ps, rs)" by fastforce
  then show ?thesis by (simp add: schema_of_parts dedupeSorted_props)
qed

subsection \<open>Merging of parameters\<close>

lemma upsert_new: "key r \<notin> key ` set xs \<Longrightarrow> upsert key r xs = xs @ [r]"
  by (induction xs) auto

text \<open>The index finds a parameter where it stands, so that merging is one upsert for each parameter of the operation.\<close>

definition indexed :: "parameter list \<times> (string \<times> nat) list \<Rightarrow> bool" where
  "indexed s \<longleftrightarrow> distinct (map param_key (fst s)) \<and>
     (\<forall>k i. map_of (snd s) k = Some i \<longleftrightarrow> i < length (fst s) \<and> param_key (fst s ! i) = k)"

lemma key_at: "i < length xs \<Longrightarrow> key (xs ! i) = y \<Longrightarrow> y \<in> key ` set xs"
  by auto

lemma upsert_at: "distinct (map key xs) \<Longrightarrow> i < length xs \<Longrightarrow> key (xs ! i) = key r \<Longrightarrow> upsert key r xs = xs[i := r]"
proof (induction xs arbitrary: i)
  case (Cons x xs)
  then show ?case by (cases i) (auto dest: key_at [where key = key])
qed simp

lemma indexed_fresh: "indexed s \<Longrightarrow> map_of (snd s) k = None \<longleftrightarrow> k \<notin> param_key ` set (fst s)"
proof -
  assume "indexed s"
  then have "map_of (snd s) k = Some i \<longleftrightarrow> i < length (fst s) \<and> param_key (fst s ! i) = k" for i by (simp add: indexed_def)
  then show ?thesis by (metis (no_types, lifting) image_iff in_set_conv_nth not_None_eq)
qed

lemma append_param_indexed:
  assumes "indexed s" "param_key p \<notin> param_key ` set (fst s)"
  shows "indexed (append_param s p)" "fst (append_param s p) = upsert param_key p (fst s)"
proof -
  show "fst (append_param s p) = upsert param_key p (fst s)"
    using upsert_new [OF assms(2)] by (cases s) (simp add: append_param_def)
  show "indexed (append_param s p)"
    using assms by (cases s) (auto simp: indexed_def append_param_def update_conv nth_append less_Suc_eq dest: key_at [where key = param_key])
qed

lemma override_param_indexed:
  assumes "indexed s"
  shows "indexed (override_param s p) \<and> fst (override_param s p) = upsert param_key p (fst s)"
proof (cases "map_of (snd s) (param_key p)")
  case None
  then show ?thesis
    using append_param_indexed [OF assms, of p] indexed_fresh [OF assms, of "param_key p"]
    by (cases s) (simp add: override_param_def del: map_of_eq_None_iff)
next
  case (Some i)
  then have i: "i < length (fst s)" "param_key (fst s ! i) = param_key p" using assms by (simp_all add: indexed_def)
  have o: "override_param s p = ((fst s)[i := p], snd s)" using Some by (cases s) (simp add: override_param_def)
  have "map param_key ((fst s)[i := p]) = map param_key (fst s)" using i by (simp add: map_update list_update_same_conv)
  moreover have "param_key ((fst s)[i := p] ! j) = param_key (fst s ! j)" if "j < length (fst s)" for j
    using i that by (cases "i = j") simp_all
  ultimately have "indexed ((fst s)[i := p], snd s)" using assms by (auto simp: indexed_def)
  then show ?thesis using upsert_at [of param_key "fst s" i p] i assms by (simp add: o indexed_def)
qed

lemma mergeParameters_upsert:
  assumes "distinct (map param_key base)"
  shows "mergeParameters base ov = foldl (\<lambda>ps p. upsert param_key p ps) base ov"
proof -
  have b: "indexed (foldl append_param s xs) \<and> fst (foldl append_param s xs) = fst s @ xs"
    if "indexed s" "distinct (map param_key (fst s @ xs))" for s xs
    using that
  proof (induction xs arbitrary: s)
    case (Cons x xs)
    then have n: "param_key x \<notin> param_key ` set (fst s)" by auto
    have "fst (append_param s x) = fst s @ [x]" using append_param_indexed(2) [OF Cons.prems(1) n] upsert_new [OF n] by simp
    with Cons.IH [OF append_param_indexed(1) [OF Cons.prems(1) n]] Cons.prems(2) show ?case by simp
  qed simp
  have o: "fst (foldl override_param s xs) = foldl (\<lambda>ps p. upsert param_key p ps) (fst s) xs" if "indexed s" for s xs
    using that override_param_indexed by (induction xs arbitrary: s) auto
  have "indexed ([], [])" by (simp add: indexed_def)
  from b [OF this, of base] o [of "foldl append_param ([], []) base" ov] assms show ?thesis by (simp add: mergeParameters_def)
qed

subsection \<open>Storing\<close>

text \<open>What is stored for a tool, apart from the hash and the version.\<close>

definition tool_row :: "stored_endpoint \<Rightarrow> string list" where
  "tool_row e =
     [ep_id e, ep_connection_id e, ep_tool_name e, ep_tool_description e, ep_path e, ep_method e, ep_parameters_schema e]"

definition import_row :: "string \<Rightarrow> string \<Rightarrow> ParsedEndpoint \<Rightarrow> string list" where
  "import_row uuid cid pe =
     [uuid, cid, pe_ToolName pe, pe_ToolDescription pe, pe_Path pe, pe_Method pe, pe_ParametersSchema pe]"

lemma stamp_row: "tool_row (stamp H ep d) = tool_row ep" "ep_tool_name (stamp H ep d) = ep_tool_name ep" "ep_id (stamp H ep d) = ep_id ep"
  by (simp_all add: stamp_def tool_row_def Let_def split: option.split)

lemma SaveEndpoint_InrD:
  assumes "SaveEndpoint H f1 f2 ep d = (Inr ep', d')" "ep_id ep \<notin> ep_id ` set (t_endpoints d)"
  shows "t_endpoints d' = t_endpoints d @ [ep']" "t_connections d' = t_connections d" "tool_row ep' = tool_row ep" "ep_id ep' = ep_id ep"
    "ep_tool_name ep' = ep_tool_name ep" "ep_tool_name ep \<notin> ep_tool_name ` set (t_endpoints d)"
proof -
  have e: "ep' = stamp H ep d" "d' = invalidateCaches (d\<lparr>t_endpoints := upsert ep_id ep' (t_endpoints d)\<rparr>)"
    and u: "\<not> list_ex (\<lambda>e. ep_tool_name e = ep_tool_name ep \<and> ep_id e \<noteq> ep_id ep) (t_endpoints d)"
    using assms(1) by (auto simp: SaveEndpoint_def Let_def split: option.splits if_splits)
  show "tool_row ep' = tool_row ep" "ep_id ep' = ep_id ep" "ep_tool_name ep' = ep_tool_name ep"
    by (simp_all add: e(1) stamp_row)
  then show "t_endpoints d' = t_endpoints d @ [ep']" "t_connections d' = t_connections d"
    using upsert_new [of ep_id ep' "t_endpoints d"] assms(2) by (simp_all add: e(2) invalidateCaches_def)
  show "ep_tool_name ep \<notin> ep_tool_name ` set (t_endpoints d)" using u assms(2) unfolding list_ex_iff image_iff by metis
qed

lemma save_tools_Inr:
  assumes "save_tools H oc cid i pes d = (Inr names, d')" "inj (io_uuid oc)" "\<And>j. i \<le> j \<Longrightarrow> io_uuid oc j \<notin> ep_id ` set (t_endpoints d)"
  shows "names = map pe_ToolName pes \<and> distinct names \<and> (\<forall>n \<in> set names. n \<notin> ep_tool_name ` set (t_endpoints d)) \<and>
    t_connections d' = t_connections d \<and>
    map tool_row (t_endpoints d') = map tool_row (t_endpoints d) @ map (\<lambda>(j, pe). import_row (io_uuid oc j) cid pe) (enumerate i pes)"
  using assms(1,3)
proof (induction pes arbitrary: i d names)
  case (Cons pe pes)
  let ?ep = "imported_endpoint (io_uuid oc i) cid pe"
  obtain ep d1 where s: "SaveEndpoint H (fst (io_faults oc i)) (snd (io_faults oc i)) ?ep d = (Inr ep, d1)"
    using Cons.prems(1) by (auto split: prod.splits sum.splits)
  with Cons.prems(1) obtain ns where r: "save_tools H oc cid (i + 1) pes d1 = (Inr ns, d')" "names = ep_tool_name ep # ns"
    by (auto split: prod.splits sum.splits)
  have n: "ep_id ?ep \<notin> ep_id ` set (t_endpoints d)" using Cons.prems(2) [of i] by (simp add: imported_endpoint_def)
  note S = SaveEndpoint_InrD [OF s n]
  have "io_uuid oc j \<notin> ep_id ` set (t_endpoints d1)" if "i + 1 \<le> j" for j
    using Cons.prems(2) [of j] that S(1,4) assms(2) by (auto simp: imported_endpoint_def inj_eq)
  from Cons.IH [OF r(1) this] S show ?case
    by (auto simp: r(2) imported_endpoint_def tool_row_def import_row_def)
qed simp

subsection \<open>Well-formed tables\<close>

lemma save_tools_tables:
  assumes "tables_wf P d" "\<And>ep d. P (stamp H ep d)"
  shows "tables_wf P (snd (save_tools H oc cid i pes d))"
  using assms(1)
proof (induction pes arbitrary: i d)
  case (Cons pe pes)
  obtain r d1 where s: "SaveEndpoint H (fst (io_faults oc i)) (snd (io_faults oc i)) (imported_endpoint (io_uuid oc i) cid pe) d = (r, d1)"
    by force
  have "tables_wf P d1" using SaveEndpoint_tables [OF Cons.prems assms(2)] s by (metis snd_conv)
  from Cons.IH [OF this, of "i + 1"] \<open>tables_wf P d1\<close> show ?case by (auto simp: s split: sum.split prod.split)
qed simp

lemma handleOpenAPIImport_tables:
  assumes "tables_wf P d" "\<And>ep d. P (stamp H ep d)"
  shows "tables_wf P (snd (handleOpenAPIImport lib H oc meth q content d))"
proof -
  have "tables_wf P (snd (import_document lib H oc q spec d))" for spec
  proof (cases "Parse lib (Query_Get q ''prefix'') spec")
    case (Inr pc)
    obtain x d1 where c: "SaveConnection (io_conn_fault oc) (imported_connection (io_conn_uuid oc) pc) d = (x, d1)" by force
    have d1: "tables_wf P d1" using SaveConnection_wf [OF assms(1)] c by (metis snd_conv)
    from d1 save_tools_tables [OF d1 assms(2), where oc = oc and cid = "io_conn_uuid oc" and i = 0 and pes = "pc_Endpoints pc"]
    show ?thesis using assms(1) by (auto simp: import_document_def Inr c split: sum.split prod.split)
  qed (simp add: import_document_def assms(1))
  then show ?thesis using assms(1) by (simp add: handleOpenAPIImport_def Let_def split: option.split)
qed

lemma operations_of_distinct:
  assumes "distinct ps"
  shows "distinct (operations_of paths ps)"
proof -
  have m: "distinct (map snd (filter Q httpMethods))" for Q
    by (rule distinct_map_filter) (simp add: httpMethods_def)
  have "distinct (map (Pair p) xs)" if "distinct xs" for p :: string and xs :: "string list"
    using that by (simp add: distinct_map inj_on_def)
  from this [OF m] have d: "distinct (map (\<lambda>m. (p, snd m)) (filter Q httpMethods))" for p :: string and Q
    by (simp add: comp_def)
  show ?thesis
    using assms
  proof (induction ps)
    case (Cons p ps)
    have "fst x \<in> set ps" if "x \<in> set (operations_of paths ps)" for x
      using that by (auto simp: operations_of_def split: option.splits)
    with Cons d show ?case by (fastforce simp: operations_of_def split: option.split)
  qed (simp add: operations_of_def)
qed

section \<open>Properties\<close>

text \<open>Every operation of a document becomes exactly one tool, in the order of the paths and of the methods.\<close>

theorem import_covers_operations:
  assumes "Parse lib pre spec = Inr pc"
  shows "\<exists>j root. normalizeToJSON lib spec = Inr j \<and> decode_root j = Some root \<and>
    map (\<lambda>e. (pe_Path e, pe_Method e)) (pc_Endpoints pc) = operations_of (rt_Paths root) (sort (map fst (rt_Paths root))) \<and>
    distinct (map (\<lambda>e. (pe_Path e, pe_Method e)) (pc_Endpoints pc))"
  using assms
proof (rule Parse_InrD)
  fix j root
  assume j: "normalizeToJSON lib spec = Inr j" "decode_root j = Some root"
    and p: "parse_paths lib pre (rt_Paths root) (sort (map fst (rt_Paths root))) [] = Inr (pc_Endpoints pc)"
  have "distinct (sort (map fst (rt_Paths root)))" using decode_root_distinct(1) [OF j(2)] by simp
  with j parse_paths_ops [OF p] operations_of_distinct show ?thesis by metis
qed

text \<open>C26: The import does not depend on the order in which a document lists its paths and security schemes, or in which Go visits
  its maps: two documents that agree up to this order give the same connection with the same tools under the same names.\<close>

theorem import_order_independent:
  assumes "normalizeToJSON lib spec = Inr j" "decode_root j = Some r" "normalizeToJSON lib spec' = Inr j'" "decode_root j' = Some r'"
    and "rt_OpenAPI r' = rt_OpenAPI r" "rt_Title r' = rt_Title r" "rt_Servers r' = rt_Servers r"
    and "mset (rt_Paths r') = mset (rt_Paths r)" "mset (rt_SecuritySchemes r') = mset (rt_SecuritySchemes r)"
  shows "Parse lib pre spec' = Parse lib pre spec"
proof -
  note d = decode_root_distinct [OF assms(4)]
  have "inferAuthType (rt_SecuritySchemes r') = inferAuthType (rt_SecuritySchemes r)"
    using map_of_mset [OF assms(9) d(2)] sort_keys_mset [OF assms(9)] by (rule inferAuthType_cong)
  moreover have "parse_paths lib pre (rt_Paths r') (sort (map fst (rt_Paths r'))) [] =
      parse_paths lib pre (rt_Paths r) (sort (map fst (rt_Paths r))) []"
    unfolding sort_keys_mset [OF assms(8)] by (rule parse_paths_cong [OF map_of_mset [OF assms(8) d(1)]])
  ultimately show ?thesis using assms(1-7) by (simp add: Parse_def)
qed

text \<open>C25: When an import is reported as done, every tool of the document is stored, with its description, path, method and
  schema, under the new connection and behind the tools that were there; the reported names are those of the document,
  all different and new.\<close>

theorem import_stores_all:
  assumes "handleOpenAPIImport lib H oc meth q content d = (Created cid name names, d')"
    and "inj (io_uuid oc)" "\<And>i. io_uuid oc i \<notin> ep_id ` set (t_endpoints d)" "io_conn_uuid oc \<notin> conn_id ` set (t_connections d)"
  shows "\<exists>sent pc. content = Some sent \<and> Parse lib (Query_Get q ''prefix'') (take import_limit sent) = Inr pc \<and>
    names = map pe_ToolName (pc_Endpoints pc) \<and> distinct names \<and> (\<forall>n \<in> set names. n \<notin> ep_tool_name ` set (t_endpoints d)) \<and>
    t_connections d' = t_connections d @ [imported_connection cid pc] \<and>
    map tool_row (t_endpoints d') =
      map tool_row (t_endpoints d) @ map (\<lambda>(i, pe). import_row (io_uuid oc i) cid pe) (enumerate 0 (pc_Endpoints pc))"
proof -
  obtain sent where s: "content = Some sent" and i: "import_document lib H oc q (take import_limit sent) d = (Created cid name names, d')"
    using assms(1) by (auto simp: handleOpenAPIImport_def Let_def split: option.splits if_splits)
  obtain pc where p: "Parse lib (Query_Get q ''prefix'') (take import_limit sent) = Inr pc"
    using i by (auto simp: import_document_def Let_def split: sum.splits)
  let ?conn = "imported_connection (io_conn_uuid oc) pc"
  obtain x d1 where c: "SaveConnection (io_conn_fault oc) ?conn d = (x, d1)" by fastforce
  obtain y d2 where t: "save_tools H oc (io_conn_uuid oc) 0 (pc_Endpoints pc) d1 = (y, d2)" by fastforce
  have x: "x = Inr ()" using i by (cases x) (auto simp: import_document_def p c split: if_splits)
  have y: "y = Inr names" "d2 = d'" "cid = io_conn_uuid oc"
    using i by (cases y; auto simp: import_document_def p c x t split: if_splits)+
  have d1: "t_endpoints d1 = t_endpoints d" "t_connections d1 = t_connections d @ [?conn]"
    using c x assms(4) upsert_new [of conn_id ?conn "t_connections d"]
    by (auto simp: SaveConnection_def invalidateCaches_def imported_connection_def split: option.splits if_splits)
  show ?thesis using save_tools_Inr [OF t [unfolded y(1,2)] assms(2)] assms(3) s p d1 y(3) by auto
qed

subsection \<open>A document for the examples\<close>

definition pet_item :: json where
  "pet_item = JObject
     [(''parameters'', JArray [JObject [(''name'', JString ''petId''), (''in'', JString ''path''), (''schema'', JObject [(''type'', JString ''integer'')])]]),
      (''put'', JObject [(''operationId'', JString ''Get Pet'')]),
      (''get'', JObject [(''operationId'', JString ''get-pet''), (''summary'', JString ''One pet'')])]"

definition pet_document :: "(string \<times> json) list \<Rightarrow> json" where
  "pet_document paths = JObject
     [(''openapi'', JString ''3.0.1''), (''info'', JObject [(''title'', JString '' Pet  store '')]),
      (''servers'', JArray [JObject [(''url'', JString ''https://pets'')]]), (''paths'', JObject paths)]"

definition pet_lib :: openapi_lib where
  "pet_lib =
     \<lparr>ol_json = (\<lambda>t. if t = ''A'' then Some (pet_document [(''/pets/{petId}'', pet_item), (''/health'', JObject [(''get'', JNull)])])
                  else if t = ''B'' then Some (pet_document [(''/health'', JObject [(''get'', JNull)]), (''/pets/{petId}'', pet_item)])
                  else None),
      ol_yaml = (\<lambda>t. None), ol_sprint = (\<lambda>y. []), ol_marshal = (\<lambda>j. js_join '','' (schema_required j))\<rparr>"

definition pet_tools :: "(string \<times> string \<times> string \<times> string) list" where
  "pet_tools = [(''get_health'', ''/health'', ''GET'', []), (''get_pet'', ''/pets/{petId}'', ''GET'', ''petId''),
                (''get_pet_2'', ''/pets/{petId}'', ''PUT'', ''petId'')]"

lemma pet_parse:
  "map_sum id (\<lambda>pc. (pc_Name pc, pc_BaseURL pc, map (\<lambda>e. (pe_ToolName e, pe_Path e, pe_Method e, pe_ParametersSchema e)) (pc_Endpoints pc)))
     (Parse pet_lib [] ''A'') = Inr (''Pet store'', ''https://pets'', pet_tools)"
  by code_simp

lemma pet_documents:
  "normalizeToJSON pet_lib ''A'' = Inr (pet_document [(''/pets/{petId}'', pet_item), (''/health'', JObject [(''get'', JNull)])])"
  "normalizeToJSON pet_lib ''B'' = Inr (pet_document [(''/health'', JObject [(''get'', JNull)]), (''/pets/{petId}'', pet_item)])"
  "decode_root (pet_document [(''/pets/{petId}'', pet_item), (''/health'', JObject [(''get'', JNull)])]) =
     Some \<lparr>rt_OpenAPI = ''3.0.1'', rt_Title = '' Pet  store '', rt_Servers = [''https://pets''],
           rt_Paths = [(''/pets/{petId}'', pet_item), (''/health'', JObject [(''get'', JNull)])], rt_SecuritySchemes = []\<rparr>"
  "decode_root (pet_document [(''/health'', JObject [(''get'', JNull)]), (''/pets/{petId}'', pet_item)]) =
     Some \<lparr>rt_OpenAPI = ''3.0.1'', rt_Title = '' Pet  store '', rt_Servers = [''https://pets''],
           rt_Paths = [(''/health'', JObject [(''get'', JNull)]), (''/pets/{petId}'', pet_item)], rt_SecuritySchemes = []\<rparr>"
  by code_simp+

theorem import_order_independent_witness: "Parse pet_lib [] ''B'' = Parse pet_lib [] ''A''"
  by (rule import_order_independent [OF pet_documents(1,3,2,4)]) simp_all

definition import_now :: import_outcome where
  "import_now = \<lparr>io_conn_fault = None, io_conn_uuid = ''c9'', io_uuid = (\<lambda>i. ''e'' @ replicate i (CHR ''x'')), io_faults = (\<lambda>i. (None, None))\<rparr>"

lemma pet_created:
  "fst (handleOpenAPIImport pet_lib (\<lambda>t. []) import_now ''POST'' [] (Some ''A'') (empty_db False)) =
     Created ''c9'' ''Pet store'' [''get_health'', ''get_pet'', ''get_pet_2'']"
proof -
  have "fst (import_document pet_lib (\<lambda>t. []) import_now [] ''A'' (empty_db False)) =
      Created ''c9'' ''Pet store'' [''get_health'', ''get_pet'', ''get_pet_2'']" by code_simp
  then show ?thesis by (simp add: handleOpenAPIImport_def import_limit_def)
qed

theorem import_stores_all_witness:
  "map (\<lambda>e. (ep_tool_name e, ep_path e, ep_method e))
     (t_endpoints (snd (handleOpenAPIImport pet_lib (\<lambda>t. []) import_now ''POST'' [] (Some ''A'') (empty_db False)))) =
   map (\<lambda>(n, p, m, s). (n, p, m)) pet_tools"
proof -
  let ?h = "handleOpenAPIImport pet_lib (\<lambda>t. []) import_now ''POST'' [] (Some ''A'') (empty_db False)"
  have h: "?h = (Created ''c9'' ''Pet store'' [''get_health'', ''get_pet'', ''get_pet_2''], snd ?h)"
    using pet_created by (metis prod.collapse)
  have u: "inj (io_uuid import_now)" by (auto simp: inj_def import_now_def)
  have e: "t_endpoints (empty_db False) = []" "t_connections (empty_db False) = []" by (simp_all add: empty_db_def)
  obtain pc where pc: "Parse pet_lib [] ''A'' = Inr pc" using pet_parse by (cases "Parse pet_lib [] ''A''") auto
  then have t: "map (\<lambda>e. (pe_ToolName e, pe_Path e, pe_Method e, pe_ParametersSchema e)) (pc_Endpoints pc) = pet_tools"
    using pet_parse by simp
  have q: "Query_Get [] ''prefix'' = []" by code_simp
  have "map tool_row (t_endpoints (snd ?h)) = map (\<lambda>(i, pe). import_row (io_uuid import_now i) ''c9'' pe) (enumerate 0 (pc_Endpoints pc))"
    using import_stores_all [OF h u] pc by (simp add: e q import_limit_def)
  then have "map (\<lambda>r. (r ! 2, r ! 4, r ! 5)) (map tool_row (t_endpoints (snd ?h))) =
      map (\<lambda>r. (r ! 2, r ! 4, r ! 5)) (map (\<lambda>(i, pe). import_row (io_uuid import_now i) ''c9'' pe) (enumerate 0 (pc_Endpoints pc)))"
    by (rule arg_cong)
  then have "map (\<lambda>e. (ep_tool_name e, ep_path e, ep_method e)) (t_endpoints (snd ?h)) =
      map (\<lambda>e. (pe_ToolName e, pe_Path e, pe_Method e)) (pc_Endpoints pc)"
    using map_map [of "\<lambda>e. (pe_ToolName e, pe_Path e, pe_Method e)" snd "enumerate 0 (pc_Endpoints pc)"]
    by (simp add: tool_row_def import_row_def comp_def split_beta)
  also have "\<dots> = map (\<lambda>(n, p, m, s). (n, p, m)) pet_tools"
    unfolding t [symmetric] by simp
  finally show ?thesis .
qed

text \<open>Numbered names are not looked up again: a document can define an operation under the name that a collision was given,
  so that two of its tools have one name. Its import fails, and leaves the connection and the tools stored so far.\<close>

definition clash_lib :: openapi_lib where
  "clash_lib = pet_lib\<lparr>ol_json := \<lambda>t. Some (pet_document
     [(''/x'', JObject [(''get'', JObject [(''operationId'', JString ''a'')]), (''put'', JObject [(''operationId'', JString ''a'')]),
                      (''post'', JObject [(''operationId'', JString ''a_2'')])])])\<rparr>"

theorem import_names_can_clash:
  "map pe_ToolName (pc_Endpoints (projr (Parse clash_lib [] ''A''))) = [''a'', ''a_2'', ''a_2'']"
  by code_simp

theorem failed_import_leaves_tools:
  "case handleOpenAPIImport clash_lib (\<lambda>t. []) import_now ''POST'' [] (Some ''A'') (empty_db False) of
     (rep, d) \<Rightarrow> rep = ImportFailed NotSaved \<and> map conn_name (t_connections d) = [''Pet store''] \<and> map ep_tool_name (t_endpoints d) = [''a'', ''a_2'']"
proof -
  have "case import_document clash_lib (\<lambda>t. []) import_now [] ''A'' (empty_db False) of
     (rep, d) \<Rightarrow> rep = ImportFailed NotSaved \<and> map conn_name (t_connections d) = [''Pet store''] \<and> map ep_tool_name (t_endpoints d) = [''a'', ''a_2'']"
    by code_simp
  then show ?thesis by (simp add: handleOpenAPIImport_def import_limit_def)
qed

end
