(* ===== verification/Gateway_Vault.thy ===== *)
theory Gateway_Vault
  imports Gateway_Prelude "HOL-Library.AList"
begin

text \<open>
  The file-based secrets vault of \<^verbatim>\<open>pkg/vault/vault.go\<close>: a map in memory, written to its file as
  encrypted JSON after every change and read back when the gateway starts; a file of an older
  version holds plain JSON and is rewritten encrypted. AES-GCM (\<^verbatim>\<open>crypto/cipher\<close>), the JSON text of
  a map and the random nonces are parameters; the laws the code relies on (opening what was sealed
  under the same key and nonce, decoding what was encoded) are the hypotheses of the theorems.
  A Go map has no order: an association list with distinct keys stands for it, and what is decoded
  from a file has the same entries, not necessarily in the same order.
\<close>

section \<open>Definitions\<close>

type_synonym secrets = "(string \<times> string) list"

text \<open>The primitives of the standard library, for the key derived from \<^verbatim>\<open>VAULT_ENCRYPTION_KEY\<close>.\<close>

record vault_lib =
  nonce_size :: nat
  aead_seal :: "string \<Rightarrow> string \<Rightarrow> string"
  aead_open :: "string \<Rightarrow> string \<Rightarrow> string option"
  marshal_map :: "secrets \<Rightarrow> string"
  unmarshal_map :: "string \<Rightarrow> secrets option"

text \<open>What \<^verbatim>\<open>os.WriteFile\<close> did: on an error the file may be anything, for it is truncated first.\<close>

datatype write_outcome = Written | WriteFailed string "string option"

record local_vault =
  lv_secrets :: secrets
  lv_file :: "string option"

definition localVaultMagic :: string where
  "localVaultMagic = ''MCPVAULT1''"

definition vault_encrypt :: "vault_lib \<Rightarrow> string \<Rightarrow> string \<Rightarrow> string" where
  "vault_encrypt lib nonce plaintext = nonce @ aead_seal lib nonce plaintext"

definition vault_decrypt :: "vault_lib \<Rightarrow> string \<Rightarrow> string + string" where
  "vault_decrypt lib sealed =
     (if length sealed < nonce_size lib then Inl ''ciphertext too short''
      else case aead_open lib (take (nonce_size lib) sealed) (drop (nonce_size lib) sealed) of
             None \<Rightarrow> Inl ''decryption failed (wrong key?)''
           | Some plain \<Rightarrow> Inr plain)"

definition saveLocked :: "vault_lib \<Rightarrow> string \<Rightarrow> write_outcome \<Rightarrow> local_vault \<Rightarrow> (string + unit) \<times> local_vault" where
  "saveLocked lib nonce w lv =
     (case w of
        WriteFailed e f \<Rightarrow> (Inl e, lv\<lparr>lv_file := f\<rparr>)
      | Written \<Rightarrow>
          (Inr (), lv\<lparr>lv_file := Some (localVaultMagic @ vault_encrypt lib nonce (marshal_map lib (lv_secrets lv)))\<rparr>))"

text \<open>\<open>None\<close> is the error of a file that does not exist; otherwise whether the file was legacy
  plaintext, and the secrets read.\<close>

definition vault_load :: "vault_lib \<Rightarrow> string option \<Rightarrow> (string + bool \<times> secrets) option" where
  "vault_load lib file =
     (case file of
        None \<Rightarrow> None
      | Some data \<Rightarrow> Some (
          if data = [] then Inr (False, [])
          else if prefix localVaultMagic data then
            (case vault_decrypt lib (drop (length localVaultMagic) data) of
               Inl e \<Rightarrow> Inl (''failed to decrypt local vault (wrong VAULT_ENCRYPTION_KEY?): '' @ e)
             | Inr plain \<Rightarrow> (case unmarshal_map lib plain of
                 None \<Rightarrow> Inl ''invalid vault contents'' | Some m \<Rightarrow> Inr (False, m)))
          else (case unmarshal_map lib data of
                  None \<Rightarrow> Inl ''local vault file is neither a valid encrypted vault nor legacy plaintext JSON''
                | Some m \<Rightarrow> Inr (True, m))))"

definition NewLocalVault ::
  "vault_lib \<Rightarrow> string \<Rightarrow> string \<Rightarrow> write_outcome \<Rightarrow> string option \<Rightarrow> string + local_vault" where
  "NewLocalVault lib encKey nonce w file =
     (if length encKey < 16 then Inl ''vault encryption key too weak (need >= 16 bytes)''
      else (case vault_load lib file of
        None \<Rightarrow> (case saveLocked lib nonce w \<lparr>lv_secrets = [], lv_file = None\<rparr> of
                   (Inl e, lv) \<Rightarrow> Inl e | (Inr _, lv) \<Rightarrow> Inr lv)
      | Some (Inl e) \<Rightarrow> Inl e
      | Some (Inr (migrated, m)) \<Rightarrow>
          (let lv = \<lparr>lv_secrets = m, lv_file = file\<rparr> in
           if migrated then
             (case saveLocked lib nonce w lv of
                (Inl e, lv') \<Rightarrow> Inl (''failed to migrate legacy plaintext vault to encrypted: '' @ e)
              | (Inr _, lv') \<Rightarrow> Inr lv')
           else Inr lv)))"

definition GetSecret :: "string \<Rightarrow> local_vault \<Rightarrow> string + string" where
  "GetSecret name lv =
     (case map_of (lv_secrets lv) name of
        None \<Rightarrow> Inl (''secret '' @ name @ '' not found in local vault'')
      | Some v \<Rightarrow> Inr v)"

definition SetSecret ::
  "vault_lib \<Rightarrow> string \<Rightarrow> write_outcome \<Rightarrow> string \<Rightarrow> string \<Rightarrow> local_vault \<Rightarrow> (string + unit) \<times> local_vault" where
  "SetSecret lib nonce w name value lv =
     saveLocked lib nonce w (lv\<lparr>lv_secrets := AList.update name value (lv_secrets lv)\<rparr>)"

definition ListSecrets :: "local_vault \<Rightarrow> string list" where
  "ListSecrets lv = map fst (lv_secrets lv)"

definition DeleteSecret ::
  "vault_lib \<Rightarrow> string \<Rightarrow> write_outcome \<Rightarrow> string \<Rightarrow> local_vault \<Rightarrow> (string + unit) \<times> local_vault" where
  "DeleteSecret lib nonce w name lv =
     saveLocked lib nonce w (lv\<lparr>lv_secrets := AList.delete name (lv_secrets lv)\<rparr>)"

text \<open>The documented behaviour of the primitives; the entries of a decoded map come in some order.\<close>

definition vault_lib_ok :: "vault_lib \<Rightarrow> bool" where
  "vault_lib_ok lib \<longleftrightarrow>
     (\<forall>n p. length n = nonce_size lib \<longrightarrow> aead_open lib n (aead_seal lib n p) = Some p) \<and>
     (\<forall>m. distinct (map fst m) \<longrightarrow> (\<exists>m'. unmarshal_map lib (marshal_map lib m) = Some m' \<and> mset m' = mset m))"

text \<open>A vault whose file is what it wrote last, with one entry per key.\<close>

definition vault_saved :: "vault_lib \<Rightarrow> local_vault \<Rightarrow> bool" where
  "vault_saved lib lv \<longleftrightarrow>
     distinct (map fst (lv_secrets lv)) \<and>
     (\<exists>nonce m. length nonce = nonce_size lib \<and> mset m = mset (lv_secrets lv) \<and>
        lv_file lv = Some (localVaultMagic @ vault_encrypt lib nonce (marshal_map lib m)))"

section \<open>Lemmas\<close>

lemma decrypt_encrypt:
  "vault_lib_ok lib \<Longrightarrow> length nonce = nonce_size lib \<Longrightarrow> vault_decrypt lib (vault_encrypt lib nonce p) = Inr p"
  by (simp add: vault_decrypt_def vault_encrypt_def vault_lib_ok_def)

lemma same_entries:
  assumes "mset m = mset m'" "distinct (map fst m')"
  shows "distinct (map fst m)" "map_of m = map_of m'"
proof -
  have "mset (map fst m) = mset (map fst m')" using assms(1) by simp
  then show d: "distinct (map fst m)" using assms(2) mset_eq_imp_distinct_iff by blast
  have "set m = set m'" using assms(1) by (rule mset_eq_setD)
  then show "map_of m = map_of m'" using d assms(2) by (intro map_of_inject_set [THEN iffD2])
qed

lemma load_saved:
  assumes "vault_lib_ok lib" "vault_saved lib lv"
  shows "\<exists>m. vault_load lib (lv_file lv) = Some (Inr (False, m)) \<and> mset m = mset (lv_secrets lv)"
proof -
  obtain nonce m where m: "length nonce = nonce_size lib" "mset m = mset (lv_secrets lv)"
    "lv_file lv = Some (localVaultMagic @ vault_encrypt lib nonce (marshal_map lib m))"
    using assms(2) by (auto simp: vault_saved_def)
  then have "distinct (map fst m)" using assms(2) same_entries(1) [OF m(2)] by (simp add: vault_saved_def)
  then obtain m' where "unmarshal_map lib (marshal_map lib m) = Some m'" "mset m' = mset m"
    using assms(1) unfolding vault_lib_ok_def by blast
  then show ?thesis using m decrypt_encrypt [OF assms(1) m(1)] by (simp add: vault_load_def localVaultMagic_def)
qed

lemma saveLocked_saved:
  "distinct (map fst (lv_secrets lv)) \<Longrightarrow> length nonce = nonce_size lib \<Longrightarrow>
   saveLocked lib nonce Written lv = (Inr (), lv') \<Longrightarrow> vault_saved lib lv' \<and> lv_secrets lv' = lv_secrets lv"
  by (clarsimp simp: saveLocked_def vault_saved_def) blast

text \<open>A vault opened on the file of another has the same secrets.\<close>

lemma reopen_saved:
  assumes "vault_lib_ok lib" "vault_saved lib lv" "16 \<le> length encKey"
  shows "\<exists>r. NewLocalVault lib encKey nonce w (lv_file lv) = Inr r \<and> vault_saved lib r \<and>
    map_of (lv_secrets r) = map_of (lv_secrets lv)"
proof -
  obtain m where m: "vault_load lib (lv_file lv) = Some (Inr (False, m))" "mset m = mset (lv_secrets lv)"
    using load_saved [OF assms(1,2)] by blast
  define r where "r = \<lparr>lv_secrets = m, lv_file = lv_file lv\<rparr>"
  have "NewLocalVault lib encKey nonce w (lv_file lv) = Inr r"
    using assms(3) m(1) by (simp add: NewLocalVault_def r_def)
  moreover have "vault_saved lib r" "map_of (lv_secrets r) = map_of (lv_secrets lv)"
    using assms(2) same_entries [OF m(2)] by (auto simp: vault_saved_def r_def m(2))
  ultimately show ?thesis by blast
qed

lemma set_saved:
  assumes "vault_saved lib lv" "length nonce = nonce_size lib"
  shows "\<exists>lv'. SetSecret lib nonce Written k v lv = (Inr (), lv') \<and> vault_saved lib lv' \<and>
      lv_secrets lv' = AList.update k v (lv_secrets lv)"
    "\<exists>lv'. DeleteSecret lib nonce Written k lv = (Inr (), lv') \<and> vault_saved lib lv' \<and>
      lv_secrets lv' = AList.delete k (lv_secrets lv)"
proof -
  have d: "distinct (map fst (lv_secrets lv))" using assms(1) by (simp add: vault_saved_def)
  show "\<exists>lv'. SetSecret lib nonce Written k v lv = (Inr (), lv') \<and> vault_saved lib lv' \<and>
      lv_secrets lv' = AList.update k v (lv_secrets lv)"
    using saveLocked_saved [of "lv\<lparr>lv_secrets := AList.update k v (lv_secrets lv)\<rparr>" nonce lib] d assms(2)
    by (simp add: SetSecret_def saveLocked_def distinct_update)
  show "\<exists>lv'. DeleteSecret lib nonce Written k lv = (Inr (), lv') \<and> vault_saved lib lv' \<and>
      lv_secrets lv' = AList.delete k (lv_secrets lv)"
    using saveLocked_saved [of "lv\<lparr>lv_secrets := AList.delete k (lv_secrets lv)\<rparr>" nonce lib] d assms(2)
    by (simp add: DeleteSecret_def saveLocked_def distinct_delete)
qed

lemma GetSecret_cong: "map_of (lv_secrets a) k = map_of (lv_secrets b) k \<Longrightarrow> GetSecret k a = GetSecret k b"
  by (simp add: GetSecret_def)

lemma ListSecrets_iff: "k \<in> set (ListSecrets lv) \<longleftrightarrow> map_of (lv_secrets lv) k \<noteq> None"
  by (simp add: ListSecrets_def map_of_eq_None_iff)

text \<open>A toy library for the examples: no encryption, and a map written entry by entry with a length before each text.\<close>

definition plain_field :: "string \<Rightarrow> string" where
  "plain_field s = replicate (length s) (CHR ''1'') @ CHR '':'' # s"

definition plain_map :: "secrets \<Rightarrow> string" where
  "plain_map m = concat (map (\<lambda>(k, v). plain_field k @ plain_field v) m)"

definition plain_take :: "string \<Rightarrow> string \<times> string" where
  "plain_take s =
     (let n = length (takeWhile (\<lambda>c. c = CHR ''1'') s) in (take n (drop (Suc n) s), drop (Suc (2 * n)) s))"

fun plain_read :: "nat \<Rightarrow> string \<Rightarrow> secrets" where
  "plain_read 0 s = []"
| "plain_read (Suc f) s =
     (if s = [] then []
      else (let (k, s1) = plain_take s; (v, s2) = plain_take s1 in (k, v) # plain_read f s2))"

definition plain_lib :: vault_lib where
  "plain_lib = \<lparr>nonce_size = 0, aead_seal = (\<lambda>n p. p), aead_open = (\<lambda>n c. Some c), marshal_map = plain_map,
               unmarshal_map = (\<lambda>s. Some (plain_read (length s) s))\<rparr>"

lemma plain_take_field: "plain_take (plain_field s @ t) = (s, t)"
proof -
  have "takeWhile (\<lambda>c. c = CHR ''1'') (replicate n (CHR ''1'') @ CHR '':'' # xs) = replicate n (CHR ''1'')" for n xs
    by (induction n) auto
  then show ?thesis by (simp add: plain_take_def plain_field_def Let_def)
qed

lemma plain_read_map: "length (plain_map m) \<le> f \<Longrightarrow> plain_read f (plain_map m) = m"
proof (induction m arbitrary: f)
  case Nil
  then show ?case by (cases f) (simp_all add: plain_map_def)
next
  case (Cons e m)
  obtain k v where e: "e = (k, v)" by force
  have eq: "plain_map (e # m) = plain_field k @ plain_field v @ plain_map m"
    by (simp add: plain_map_def e)
  have "0 < length (plain_field s)" for s by (simp add: plain_field_def)
  then obtain g where f: "f = Suc g" and g: "length (plain_map m) \<le> g"
    using Cons.prems unfolding eq by (cases f) (auto simp: plain_field_def)
  have "plain_field k @ plain_field v @ plain_map m \<noteq> []" by (simp add: plain_field_def)
  then show ?case
    unfolding eq f using Cons.IH [OF g] by (simp add: plain_take_field e)
qed

lemma plain_lib_ok: "vault_lib_ok plain_lib"
  by (simp add: vault_lib_ok_def plain_lib_def plain_read_map)

section \<open>Properties\<close>

text \<open>C30: What is in the vault survives restarts: a secret is stored, the gateway is restarted with the same key, the
  secret is deleted and the gateway is restarted again. In between the new value is there under its name, in the end
  nothing is, and every other secret is as it was throughout.\<close>

theorem vault_survives_restart:
  assumes "vault_lib_ok lib" "vault_saved lib lv" "16 \<le> length encKey" "length nonce = nonce_size lib"
  shows "\<exists>lv1 r1 lv2 r2.
    SetSecret lib nonce Written k v lv = (Inr (), lv1) \<and> NewLocalVault lib encKey n2 w (lv_file lv1) = Inr r1 \<and>
    GetSecret k r1 = Inr v \<and> (k' = k \<or> GetSecret k' r1 = GetSecret k' lv) \<and>
    DeleteSecret lib nonce Written k r1 = (Inr (), lv2) \<and> NewLocalVault lib encKey n2 w (lv_file lv2) = Inr r2 \<and>
    k \<notin> set (ListSecrets r2) \<and> (k' = k \<or> GetSecret k' r2 = GetSecret k' lv)"
proof -
  obtain lv1 where 1: "SetSecret lib nonce Written k v lv = (Inr (), lv1)" "vault_saved lib lv1"
    "lv_secrets lv1 = AList.update k v (lv_secrets lv)"
    using set_saved(1) [OF assms(2,4)] by blast
  obtain r1 where r1: "NewLocalVault lib encKey n2 w (lv_file lv1) = Inr r1" "vault_saved lib r1"
    "map_of (lv_secrets r1) = map_of (lv_secrets lv1)"
    using reopen_saved [OF assms(1) 1(2) assms(3)] by blast
  obtain lv2 where 2: "DeleteSecret lib nonce Written k r1 = (Inr (), lv2)" "vault_saved lib lv2"
    "lv_secrets lv2 = AList.delete k (lv_secrets r1)"
    using set_saved(2) [OF r1(2) assms(4)] by blast
  obtain r2 where r2: "NewLocalVault lib encKey n2 w (lv_file lv2) = Inr r2"
    "map_of (lv_secrets r2) = map_of (lv_secrets lv2)"
    using reopen_saved [OF assms(1) 2(2) assms(3)] by blast
  have m1: "map_of (lv_secrets r1) = (map_of (lv_secrets lv))(k \<mapsto> v)"
    and m2: "map_of (lv_secrets r2) = (map_of (lv_secrets r1))(k := None)"
    by (simp_all add: r1(3) r2(2) 1(3) 2(3) update_conv' delete_conv')
  have "GetSecret k r1 = Inr v" by (simp add: GetSecret_def m1)
  moreover have "k' = k \<or> GetSecret k' r1 = GetSecret k' lv \<and> GetSecret k' r2 = GetSecret k' lv"
    using GetSecret_cong [of r1 k' lv] GetSecret_cong [of r2 k' lv] by (auto simp: m1 m2)
  moreover have "k \<notin> set (ListSecrets r2)" by (simp add: ListSecrets_iff m2)
  ultimately show ?thesis using 1(1) r1(1) 2(1) r2(1) by blast
qed

theorem vault_survives_restart_witness:
  "\<exists>lv1 r1. SetSecret plain_lib [] Written ''orders_key'' ''s3cret''
       (snd (saveLocked plain_lib [] Written \<lparr>lv_secrets = [], lv_file = None\<rparr>)) = (Inr (), lv1) \<and>
     NewLocalVault plain_lib ''0123456789abcdef'' [] Written (lv_file lv1) = Inr r1 \<and> GetSecret ''orders_key'' r1 = Inr ''s3cret''"
proof -
  have "vault_saved plain_lib (snd (saveLocked plain_lib [] Written \<lparr>lv_secrets = [], lv_file = None\<rparr>))"
    by (simp add: vault_saved_def saveLocked_def plain_lib_def)
  from vault_survives_restart [OF plain_lib_ok this, of "''0123456789abcdef''" "[]" "''orders_key''" "''s3cret''" "[]" Written "[]"]
  show ?thesis by (auto simp: plain_lib_def)
qed

text \<open>A vault file of an older version, plain JSON, is taken over with all its secrets and rewritten encrypted: the
  file then no longer is the plaintext, and opening it again gives the same secrets.\<close>

theorem vault_migration:
  assumes "vault_lib_ok lib" "16 \<le> length encKey" "length nonce = nonce_size lib"
    and "data \<noteq> []" "\<not> prefix localVaultMagic data" "unmarshal_map lib data = Some m" "distinct (map fst m)"
  shows "\<exists>lv r. NewLocalVault lib encKey nonce Written (Some data) = Inr lv \<and> lv_secrets lv = m \<and>
    lv_file lv \<noteq> Some data \<and> NewLocalVault lib encKey n2 w (lv_file lv) = Inr r \<and> GetSecret k r = GetSecret k lv"
proof -
  define lv where "lv = snd (saveLocked lib nonce Written \<lparr>lv_secrets = m, lv_file = Some data\<rparr>)"
  have save: "saveLocked lib nonce Written \<lparr>lv_secrets = m, lv_file = Some data\<rparr> = (Inr (), lv)"
    by (simp add: lv_def saveLocked_def)
  then have new: "NewLocalVault lib encKey nonce Written (Some data) = Inr lv"
    using assms(2,4-6) by (simp add: NewLocalVault_def vault_load_def)
  have lv: "vault_saved lib lv" "lv_secrets lv = m"
    using saveLocked_saved [OF _ assms(3) save] assms(7) by simp_all
  have "lv_file lv \<noteq> Some data"
    using assms(5) by (auto simp: lv_def saveLocked_def)
  with new lv(2) reopen_saved [OF assms(1) lv(1) assms(2), of n2 w] show ?thesis by (auto simp: GetSecret_def)
qed

theorem vault_migration_witness:
  "\<exists>lv. NewLocalVault plain_lib ''0123456789abcdef'' [] Written (Some (plain_map [(''k'', ''v'')])) = Inr lv \<and>
     lv_secrets lv = [(''k'', ''v'')]"
proof -
  have data: "plain_map [(''k'', ''v'')] \<noteq> []" "\<not> prefix localVaultMagic (plain_map [(''k'', ''v'')])"
    by (simp_all add: plain_map_def plain_field_def localVaultMagic_def)
  have "unmarshal_map plain_lib (plain_map [(''k'', ''v'')]) = Some [(''k'', ''v'')]"
    by (simp add: plain_lib_def plain_read_map)
  from vault_migration [OF plain_lib_ok _ _ data this, of "''0123456789abcdef''" "[]" "[]" Written "''k''"]
  show ?thesis by (auto simp: plain_lib_def)
qed

text \<open>A secret that could not be written to the file is reported as not stored, but the running gateway uses it
  all the same, until it is restarted.\<close>

theorem unsaved_secret_in_use:
  "fst (SetSecret lib nonce (WriteFailed e f) k v lv) = Inl e \<and>
   GetSecret k (snd (SetSecret lib nonce (WriteFailed e f) k v lv)) = Inr v \<and>
   lv_file (snd (SetSecret lib nonce (WriteFailed e f) k v lv)) = f"
  by (simp add: SetSecret_def saveLocked_def GetSecret_def update_conv')

end
