(* ===== verification/Gateway_Auth.thy ===== *)
theory Gateway_Auth
  imports Gateway_Prelude Portal_Data
begin

text \<open>
  Authentication of the gateway's API: \<^verbatim>\<open>pkg/auth/auth.go\<close> and \<^verbatim>\<open>metricsAuth\<close> of \<^verbatim>\<open>main.go\<close>. Signing
  and verifying of session tokens (\<^verbatim>\<open>golang-jwt\<close>, with the algorithm pinned to HS256 and issuer,
  audience and expiry checked) and SHA-256 are parameters.
\<close>

section \<open>Definitions\<close>

record claims =
  cl_username :: string
  cl_role :: string

text \<open>The libraries: verification of a token under a secret, signing, and the digest.\<close>

record auth_lib =
  jwt_verify :: "string \<Rightarrow> string \<Rightarrow> claims option"
  jwt_sign :: "string \<Rightarrow> claims \<Rightarrow> string option"
  sha256 :: "string \<Rightarrow> string"

record auth_manager =
  jwtSecret :: string
  gatewayToken :: string

definition GenerateJWT :: "auth_lib \<Rightarrow> auth_manager \<Rightarrow> string \<Rightarrow> string \<Rightarrow> string option" where
  "GenerateJWT lib am username role = jwt_sign lib (jwtSecret am) \<lparr>cl_username = username, cl_role = role\<rparr>"

definition ValidateJWT :: "auth_lib \<Rightarrow> auth_manager \<Rightarrow> string \<Rightarrow> claims option" where
  "ValidateJWT lib am tokenStr = jwt_verify lib (jwtSecret am) tokenStr"

definition VerifyGatewayToken :: "auth_lib \<Rightarrow> auth_manager \<Rightarrow> string \<Rightarrow> bool" where
  "VerifyGatewayToken lib am token =
     (if gatewayToken am = [] then False else sha256 lib token = sha256 lib (gatewayToken am))"

text \<open>\<^verbatim>\<open>r.Header.Get(name)\<close>: header names are compared without regard to case.\<close>

definition header_get :: "(string \<times> string) list \<Rightarrow> string \<Rightarrow> string" where
  "header_get hs name = (case find (\<lambda>(n, v). go_EqualFold n name) hs of Some (n, v) \<Rightarrow> v | None \<Rightarrow> [])"

definition bearerToken :: "request \<Rightarrow> string" where
  "bearerToken r =
     (let authHeader = header_get (rq_headers r) ''Authorization'' in
      if authHeader = [] then []
      else case go_SplitN2 authHeader (CHR '' '') of
             [a, b] \<Rightarrow> (if go_EqualFold a ''bearer'' then go_TrimSpace b else [])
           | _ \<Rightarrow> [])"

text \<open>\<^verbatim>\<open>http.Error\<close> with a JSON object as its text.\<close>

definition http_error :: "nat \<Rightarrow> string \<Rightarrow> response" where
  "http_error st msg = \<lparr>status = st, body = Inr (JError msg)\<rparr>"

definition authenticate :: "auth_lib \<Rightarrow> auth_manager \<Rightarrow> request \<Rightarrow> response + claims" where
  "authenticate lib am r =
     (let tokenStr = bearerToken r in
      if tokenStr = [] then Inl (http_error 401 ''unauthorized'')
      else case ValidateJWT lib am tokenStr of
             None \<Rightarrow> Inl (http_error 401 ''unauthorized'')
           | Some claims \<Rightarrow> Inr claims)"

definition PortalAuthMiddleware ::
  "auth_lib \<Rightarrow> auth_manager \<Rightarrow> (request \<Rightarrow> 's \<Rightarrow> response \<times> 's) \<Rightarrow> request \<Rightarrow> 's \<Rightarrow> response \<times> 's" where
  "PortalAuthMiddleware lib am nxt r s =
     (case authenticate lib am r of Inl res \<Rightarrow> (res, s) | Inr claims \<Rightarrow> nxt r s)"

definition AdminAuthMiddleware ::
  "auth_lib \<Rightarrow> auth_manager \<Rightarrow> (request \<Rightarrow> 's \<Rightarrow> response \<times> 's) \<Rightarrow> request \<Rightarrow> 's \<Rightarrow> response \<times> 's" where
  "AdminAuthMiddleware lib am nxt r s =
     (case authenticate lib am r of
        Inl res \<Rightarrow> (res, s)
      | Inr claims \<Rightarrow>
          (if cl_role claims \<noteq> ''admin'' then (http_error 403 ''forbidden: admin role required'', s) else nxt r s))"

text \<open>\<open>not_json\<close> stands for the message of the error that the browser reports for a body that is not JSON.\<close>

definition metricsAuth :: "string \<Rightarrow> string \<Rightarrow> (request \<Rightarrow> response) \<Rightarrow> request \<Rightarrow> response" where
  "metricsAuth not_json token nxt r =
     (if token = [] then nxt r
      else
        (let authHeader = header_get (rq_headers r) ''Authorization'';
             presented = (if 7 < length authHeader \<and> go_EqualFold (take 7 authHeader) ''bearer '' then drop 7 authHeader else [])
         in if presented \<noteq> token then \<lparr>status = 401, body = Inl not_json\<rparr> else nxt r))"

text \<open>What the code relies on: a token it signed is valid and carries the claims it was signed with, and is never
  empty or surrounded by blanks.\<close>

definition jwt_lib_ok :: "auth_lib \<Rightarrow> bool" where
  "jwt_lib_ok lib \<longleftrightarrow>
     (\<forall>s c t. jwt_sign lib s c = Some t \<longrightarrow>
        jwt_verify lib s t = Some c \<and> t \<noteq> [] \<and> \<not> js_space (hd t) \<and> \<not> js_space (last t))"

text \<open>The request's bearer token is a valid session token of the given role.\<close>

definition session_role :: "auth_lib \<Rightarrow> auth_manager \<Rightarrow> request \<Rightarrow> string option" where
  "session_role lib am r = (case authenticate lib am r of Inl _ \<Rightarrow> None | Inr c \<Rightarrow> Some (cl_role c))"

section \<open>Lemmas\<close>

lemma bearer_header:
  assumes "header_get (rq_headers r) ''Authorization'' = ''Bearer '' @ t"
    and "t = [] \<or> \<not> js_space (hd t) \<and> \<not> js_space (last t)"
  shows "bearerToken r = t"
proof -
  have "go_SplitN2 (''Bearer'' @ CHR '' '' # t) (CHR '' '') = [''Bearer'', t]"
    by (rule go_SplitN2_append) simp
  moreover have "go_EqualFold ''Bearer'' ''bearer''" by code_simp
  ultimately show ?thesis
    using assms(1) go_TrimSpace_id [OF assms(2)] by (simp add: bearerToken_def)
qed

lemma admin_forbidden:
  "session_role lib am r \<noteq> Some ''admin'' \<Longrightarrow>
   \<exists>res. AdminAuthMiddleware lib am nxt r s = (res, s) \<and> status res \<in> {401, 403}"
  by (auto simp: session_role_def AdminAuthMiddleware_def authenticate_def http_error_def Let_def
      split: sum.split option.split)

lemma admin_allowed: "session_role lib am r = Some ''admin'' \<Longrightarrow> AdminAuthMiddleware lib am nxt r s = nxt r s"
  by (simp add: session_role_def AdminAuthMiddleware_def split: sum.splits)

lemma no_session: "session_role lib am r = None \<Longrightarrow> AdminAuthMiddleware lib am nxt r s = (http_error 401 ''unauthorized'', s)"
  by (auto simp: session_role_def AdminAuthMiddleware_def authenticate_def Let_def split: sum.splits option.splits)

lemma signed_session:
  assumes "jwt_lib_ok lib" "GenerateJWT lib am user role = Some t"
    and "header_get (rq_headers r) ''Authorization'' = ''Bearer '' @ t"
  shows "authenticate lib am r = Inr \<lparr>cl_username = user, cl_role = role\<rparr>"
proof -
  have t: "t \<noteq> []" "\<not> js_space (hd t)" "\<not> js_space (last t)" "ValidateJWT lib am t = Some \<lparr>cl_username = user, cl_role = role\<rparr>"
    using assms(1,2) by (auto simp: jwt_lib_ok_def GenerateJWT_def ValidateJWT_def)
  then have "bearerToken r = t" using assms(3) by (intro bearer_header) auto
  with t show ?thesis by (simp add: authenticate_def)
qed

end
