(* ===== verification/Gateway_Api.thy ===== *)
theory Gateway_Api
  imports Gateway_Import Gateway_Vault Gateway_Auth
begin

text \<open>
  The portal's API of the gateway: the handlers of \<^verbatim>\<open>pkg/portal/api.go\<close> behind the routes of
  \<^verbatim>\<open>RegisterRoutes\<close> and the admin middleware, over the store and the vault. A request is what the
  portal sends, a response what it gets; JSON bodies are represented by their decoded values. What a
  request cannot determine is an argument (\<open>outcome\<close>): failures of the database and of the vault's
  file, fresh identifiers, tokens and nonces, the probes of the health check, and the contents
  computed outside this model (the metrics text, the OpenAPI document, static files). The document of an import is not
  a JSON object that the portal sends but raw text, hence an argument too.
\<close>

section \<open>Definitions\<close>

record config =
  cfg_Port :: string
  cfg_VaultProvider :: string
  cfg_OIDCIssuer :: string
  cfg_TLSCertPath :: string
  cfg_TLSTerminatedAtProxy :: bool
  cfg_ClientCAPath :: string
  cfg_MTLSMode :: string
  cfg_AdminUsername :: string
  cfg_AdminPassword :: string
  cfg_MetricsToken :: string

record outcome =
  o_fault :: fault
  o_fault2 :: fault
  o_uuid :: string
  o_token :: string
  o_nonce :: string
  o_write :: write_outcome
  o_internal :: "string \<Rightarrow> bool"
  o_probe :: "string \<Rightarrow> nat option \<times> int"
  o_sessions :: int
  o_queries :: int
  o_metrics :: string
  o_spec :: "connection list \<Rightarrow> stored_endpoint list \<Rightarrow> string"
  o_document :: "string option"
  o_import :: import_outcome
  o_static :: response

record gateway_env =
  g_config :: config
  g_auth :: auth_manager
  g_lib :: auth_lib
  g_store :: store_env
  g_vlib :: vault_lib
  g_openapi :: openapi_lib
  g_import_error :: "import_error \<Rightarrow> string"
  g_not_json :: string

record gateway =
  gw_now :: int
  gw_db :: db
  gw_vault :: local_vault

subsection \<open>Requests\<close>

definition url_query :: "string \<Rightarrow> string" where
  "url_query u = drop 1 (dropWhile (\<lambda>c. c \<noteq> CHR ''?'') u)"

definition url_path :: "string \<Rightarrow> string option" where
  "url_path u = unescape False (takeWhile (\<lambda>c. c \<noteq> CHR ''?'') u)"

text \<open>Decoding a JSON object into a struct: names match without regard to case, the last one counts, a missing
  field has its zero value, a value of another type is an error.\<close>

definition field_values :: "(string \<times> jval) list \<Rightarrow> string \<Rightarrow> jval list" where
  "field_values fs name = map snd (filter (\<lambda>(n, v). go_EqualFold n name) fs)"

definition field_str :: "(string \<times> jval) list \<Rightarrow> string \<Rightarrow> string option" where
  "field_str fs name =
     foldl (\<lambda>r v. case v of JStr s \<Rightarrow> map_option (\<lambda>_. s) r | JBool _ \<Rightarrow> None) (Some []) (field_values fs name)"

definition field_bool :: "(string \<times> jval) list \<Rightarrow> string \<Rightarrow> bool option" where
  "field_bool fs name =
     foldl (\<lambda>r v. case v of JBool b \<Rightarrow> map_option (\<lambda>_. b) r | JStr _ \<Rightarrow> None) (Some False) (field_values fs name)"

definition field_absent :: "(string \<times> jval) list \<Rightarrow> string \<Rightarrow> unit option" where
  "field_absent fs name = (if field_values fs name = [] then Some () else None)"

definition decode_connection :: "(string \<times> jval) list \<Rightarrow> connection option" where
  "decode_connection fs = do {
     i \<leftarrow> field_str fs ''id''; n \<leftarrow> field_str fs ''name''; ds \<leftarrow> field_str fs ''description'';
     u \<leftarrow> field_str fs ''base_url''; a \<leftarrow> field_str fs ''auth_type''; r \<leftarrow> field_str fs ''auth_secret_ref'';
     e \<leftarrow> field_bool fs ''enabled''; p \<leftarrow> field_str fs ''tool_prefix'';
     Some \<lparr>conn_id = i, conn_name = n, conn_description = ds, conn_base_url = u, conn_auth_type = a,
           conn_auth_secret_ref = r, conn_enabled = e, conn_tool_prefix = p\<rparr> }"

definition decode_endpoint :: "(string \<times> jval) list \<Rightarrow> stored_endpoint option" where
  "decode_endpoint fs = do {
     i \<leftarrow> field_str fs ''id''; c \<leftarrow> field_str fs ''connection_id''; n \<leftarrow> field_str fs ''tool_name'';
     ds \<leftarrow> field_str fs ''tool_description''; p \<leftarrow> field_str fs ''path''; m \<leftarrow> field_str fs ''method'';
     s \<leftarrow> field_str fs ''parameters_schema''; t \<leftarrow> field_str fs ''template'';
     h \<leftarrow> field_str fs ''definition_hash''; _ \<leftarrow> field_absent fs ''version'';
     Some \<lparr>ep_id = i, ep_connection_id = c, ep_tool_name = n, ep_tool_description = ds, ep_path = p, ep_method = m,
           ep_parameters_schema = s, ep_template = t, ep_definition_hash = h, ep_version = 0\<rparr> }"

definition decode_token :: "(string \<times> jval) list \<Rightarrow> client_token option" where
  "decode_token fs = do {
     t \<leftarrow> field_str fs ''token''; n \<leftarrow> field_str fs ''client_name''; r \<leftarrow> field_str fs ''client_role'';
     s \<leftarrow> field_str fs ''scopes''; e \<leftarrow> field_bool fs ''enabled'';
     Some \<lparr>tok_token = t, tok_client_name = n, tok_client_role = r, tok_scopes = s, tok_enabled = e\<rparr> }"

subsection \<open>Responses\<close>

text \<open>A Go slice: \<^verbatim>\<open>null\<close> if nothing was appended to it.\<close>

definition go_slice :: "'a list \<Rightarrow> 'a list option" where
  "go_slice xs = (if xs = [] then None else Some xs)"

definition http_json :: "payload \<Rightarrow> response" where
  "http_json p = \<lparr>status = 200, body = Inr p\<rparr>"

text \<open>A response whose body is not JSON: plain text, or nothing after \<^verbatim>\<open>204\<close>.\<close>

definition http_text :: "gateway_env \<Rightarrow> nat \<Rightarrow> response" where
  "http_text env st = \<lparr>status = st, body = Inl (g_not_json env)\<rparr>"

definition internal_error :: response where
  "internal_error = http_error 500 ''internal server error''"

subsection \<open>Handlers\<close>

type_synonym api_handler = "request \<Rightarrow> gateway \<Rightarrow> response \<times> gateway"

text \<open>\<^verbatim>\<open>if err != nil { http.Error(w, ...); return }\<close> after a call of the store or the vault, and the answer otherwise.\<close>

definition db_reply :: "(db_error + 'a) \<times> db \<Rightarrow> ('a \<Rightarrow> response) \<Rightarrow> gateway \<Rightarrow> response \<times> gateway" where
  "db_reply r ok g = ((case fst r of Inl e \<Rightarrow> internal_error | Inr x \<Rightarrow> ok x), g\<lparr>gw_db := snd r\<rparr>)"

definition vault_reply :: "(string + unit) \<times> local_vault \<Rightarrow> string \<Rightarrow> response \<Rightarrow> gateway \<Rightarrow> response \<times> gateway" where
  "vault_reply r msg ok g = ((case fst r of Inl e \<Rightarrow> http_error 500 msg | Inr x \<Rightarrow> ok), g\<lparr>gw_vault := snd r\<rparr>)"

definition handleLogin :: "gateway_env \<Rightarrow> api_handler" where
  "handleLogin env r g =
     (if rq_method r \<noteq> ''POST'' then (http_text env 405, g)
      else case Option.bind (rq_body r) (\<lambda>fs. do { u \<leftarrow> field_str fs ''username''; p \<leftarrow> field_str fs ''password''; Some (u, p) }) of
        None \<Rightarrow> (http_error 400 ''invalid request'', g)
      | Some (username, password) \<Rightarrow>
          (if cfg_AdminPassword (g_config env) = [] then (http_error 401 ''local login disabled; use SSO'', g)
           else if username = cfg_AdminUsername (g_config env) \<and> password = cfg_AdminPassword (g_config env) then
             (case GenerateJWT (g_lib env) (g_auth env) (cfg_AdminUsername (g_config env)) ''admin'' of
                None \<Rightarrow> (http_error 500 ''failed to generate token'', g)
              | Some token \<Rightarrow> (http_json (JLogin token (cfg_AdminUsername (g_config env))), g))
           else (http_error 401 ''invalid credentials'', g)))"

definition handleConnections :: "gateway_env \<Rightarrow> outcome \<Rightarrow> string \<Rightarrow> api_handler" where
  "handleConnections env oc path r g =
     (if rq_method r = ''GET'' \<and> (path = ''/api/connections'' \<or> path = ''/api/connections/'') then
        (db_reply (GetConnections (o_fault oc) (gw_now g) (gw_db g)) (\<lambda>conns. http_json (JConns (go_slice conns))) g)
      else if rq_method r = ''POST'' then
        (case Option.bind (rq_body r) decode_connection of
           None \<Rightarrow> (http_error 400 ''invalid payload'', g)
         | Some conn0 \<Rightarrow>
             (let conn = (if conn_id conn0 = [] then conn0\<lparr>conn_id := o_uuid oc\<rparr> else conn0) in
              db_reply (SaveConnection (o_fault oc) conn (gw_db g)) (\<lambda>_. http_json (JConn conn)) g))
      else if rq_method r = ''DELETE'' then
        (let parts = go_Split path (CHR ''/'') in
         if length parts < 4 \<or> parts ! 3 = [] then (http_error 400 ''missing ID'', g)
         else db_reply (DeleteConnection (o_fault oc) (parts ! 3) (gw_db g)) (\<lambda>_. http_text env 204) g)
      else (http_text env 405, g))"

definition handleEndpoints :: "gateway_env \<Rightarrow> outcome \<Rightarrow> string \<Rightarrow> api_handler" where
  "handleEndpoints env oc path r g =
     (if rq_method r = ''GET'' then
        (let connID = Query_Get (url_query (rq_url r)) ''connection_id''
         in db_reply (if connID \<noteq> [] then (GetEndpoints (o_fault oc) connID (gw_db g), gw_db g)
                      else GetAllEndpoints (o_fault oc) (gw_now g) (gw_db g))
              (\<lambda>eps. http_json (JEndpoints (go_slice (map api_endpoint.truncate eps)))) g)
      else if rq_method r = ''POST'' then
        (case Option.bind (rq_body r) decode_endpoint of
           None \<Rightarrow> (http_error 400 ''invalid payload'', g)
         | Some ep0 \<Rightarrow>
             (let ep = (if ep_id ep0 = [] then ep0\<lparr>ep_id := o_uuid oc\<rparr> else ep0) in
              db_reply (SaveEndpoint (hash_def (g_store env)) (o_fault oc) (o_fault2 oc) ep (gw_db g))
                (\<lambda>ep'. http_json (JEndpoint (api_endpoint.truncate ep'))) g))
      else if rq_method r = ''DELETE'' then
        (let parts = go_Split path (CHR ''/'') in
         if length parts < 4 \<or> parts ! 3 = [] then (http_error 400 ''missing ID'', g)
         else db_reply (DeleteEndpoint (o_fault oc) (parts ! 3) (gw_db g)) (\<lambda>_. http_text env 204) g)
      else (http_text env 405, g))"

definition handleVault :: "gateway_env \<Rightarrow> outcome \<Rightarrow> api_handler" where
  "handleVault env oc r g =
     (if rq_method r = ''GET'' then (http_json (JKeys (Some (ListSecrets (gw_vault g)))), g)
      else if rq_method r = ''POST'' then
        (case Option.bind (rq_body r) (\<lambda>fs. do { k \<leftarrow> field_str fs ''key''; v \<leftarrow> field_str fs ''value''; Some (k, v) }) of
           None \<Rightarrow> (http_error 400 ''key and value are required'', g)
         | Some (key, value) \<Rightarrow>
             (if key = [] \<or> value = [] then (http_error 400 ''key and value are required'', g)
              else vault_reply (SetSecret (g_vlib env) (o_nonce oc) (o_write oc) key value (gw_vault g))
                     ''failed to store secret'' (http_json (JStatus ''success'')) g))
      else if rq_method r = ''DELETE'' then
        (let key = Query_Get (url_query (rq_url r)) ''key'' in
         if key = [] then (http_error 400 ''missing key parameter'', g)
         else vault_reply (DeleteSecret (g_vlib env) (o_nonce oc) (o_write oc) key (gw_vault g))
                ''failed to delete secret'' (http_text env 204) g)
      else (http_text env 405, g))"

definition handleSettings :: "gateway_env \<Rightarrow> api_handler" where
  "handleSettings env r g =
     (if rq_method r \<noteq> ''GET'' then (http_text env 405, g)
      else
        (let cfg = g_config env;
             tlsMode = (if cfg_TLSCertPath cfg \<noteq> [] then ''pod''
                        else if cfg_TLSTerminatedAtProxy cfg then ''edge'' else ''none'');
             mtlsMode = (if cfg_ClientCAPath cfg \<noteq> [] then ''pod'' else cfg_MTLSMode cfg)
         in (http_json (JSettings
               \<lparr>port = cfg_Port cfg, database_path = [], vault_provider = cfg_VaultProvider cfg, vault_local_path = [],
                oidc_issuer = [], oidc_client_id = [], tls_mode = tlsMode,
                tls_enabled = Some (cfg_TLSCertPath cfg \<noteq> [] \<or> cfg_TLSTerminatedAtProxy cfg), tls_cert_path = [],
                mtls_mode = mtlsMode,
                mtls_enabled = Some (cfg_ClientCAPath cfg \<noteq> [] \<or> cfg_MTLSMode cfg = ''optional'' \<or> cfg_MTLSMode cfg = ''required''),
                client_ca_path = []\<rparr>), g)))"

definition probe_health :: "outcome \<Rightarrow> connection \<Rightarrow> conn_health" where
  "probe_health oc c =
     (if \<not> conn_enabled c then \<lparr>h_name = conn_name c, h_url = conn_base_url c, h_status = ''DISABLED'', h_latency_ms = 0\<rparr>
      else if o_internal oc (conn_base_url c)
      then \<lparr>h_name = conn_name c, h_url = conn_base_url c, h_status = ''BLOCKED (internal address)'', h_latency_ms = 0\<rparr>
      else case o_probe oc (conn_base_url c) of
             (None, elapsed) \<Rightarrow>
               \<lparr>h_name = conn_name c, h_url = conn_base_url c, h_status = ''UNREACHABLE'', h_latency_ms = elapsed\<rparr>
           | (Some st, elapsed) \<Rightarrow>
               \<lparr>h_name = conn_name c, h_url = conn_base_url c, h_status = ''OK (HTTP '' @ nat_to_string st @ '')'',
                h_latency_ms = elapsed\<rparr>)"

definition handleOperationalStats :: "gateway_env \<Rightarrow> outcome \<Rightarrow> api_handler" where
  "handleOperationalStats env oc r g =
     (if rq_method r \<noteq> ''GET'' then (http_text env 405, g)
      else db_reply (GetConnections (o_fault oc) (gw_now g) (gw_db g))
             (\<lambda>conns. http_json (JOpStats \<lparr>connected_users = o_sessions oc, active_queries = o_queries oc,
                        connections_health = Some (map (probe_health oc) conns)\<rparr>)) g)"

definition handleAuditLogs :: "gateway_env \<Rightarrow> outcome \<Rightarrow> api_handler" where
  "handleAuditLogs env oc r g =
     (if rq_method r \<noteq> ''GET'' then (http_text env 405, g)
      else case GetAuditLogs (rank_time (g_store env)) (o_fault oc) (gw_db g) of
             Inl e \<Rightarrow> (internal_error, g)
           | Inr logs \<Rightarrow> (http_json (JLogs (go_slice (map audit_log.truncate logs))), g))"

text \<open>The document itself is an argument of the model; the handler's reads and errors are its own.\<close>

definition handleOpenAPI :: "gateway_env \<Rightarrow> outcome \<Rightarrow> api_handler" where
  "handleOpenAPI env oc r g =
     (if rq_method r \<noteq> ''GET'' then (http_text env 405, g)
      else case GetConnections (o_fault oc) (gw_now g) (gw_db g) of
             (Inl e, d) \<Rightarrow> (internal_error, g\<lparr>gw_db := d\<rparr>)
           | (Inr conns, d) \<Rightarrow>
               db_reply (GetAllEndpoints (o_fault2 oc) (gw_now g) d) (\<lambda>eps. http_json (JSpec (o_spec oc conns eps))) g)"

definition handleTokens :: "gateway_env \<Rightarrow> outcome \<Rightarrow> api_handler" where
  "handleTokens env oc r g =
     (if rq_method r = ''GET'' then
        (case GetClientTokens (o_fault oc) (gw_db g) of
           Inl e \<Rightarrow> (internal_error, g)
         | Inr ts \<Rightarrow> (http_json (JTokens (go_slice ts)), g))
      else if rq_method r = ''POST'' then
        (case Option.bind (rq_body r) decode_token of
           None \<Rightarrow> (http_error 400 ''invalid payload'', g)
         | Some token0 \<Rightarrow>
             (if tok_client_name token0 = [] then (http_error 400 ''client_name is required'', g)
              else
                (let token = (if tok_token token0 = [] then token0\<lparr>tok_token := o_token oc\<rparr> else token0) in
                 db_reply (SaveClientToken (hash_token (g_store env)) (o_fault oc) token (gw_db g))
                   (\<lambda>_. http_json (JToken token)) g)))
      else if rq_method r = ''DELETE'' then
        (let q = url_query (rq_url r); name = Query_Get q ''client_name''; token = Query_Get q ''token'' in
         if name \<noteq> [] then
           (db_reply (DeleteClientTokenByName (o_fault oc) name (gw_db g)) (\<lambda>_. http_text env 204) g)
         else if token \<noteq> [] then
           (db_reply (DeleteClientToken (hash_token (g_store env)) (o_fault oc) token (gw_db g)) (\<lambda>_. http_text env 204) g)
         else (http_error 400 ''missing client_name parameter'', g))
      else (http_text env 405, g))"

definition import_response :: "gateway_env \<Rightarrow> import_reply \<Rightarrow> response" where
  "import_response env rep =
     (case rep of
        ImportFailed NotPost \<Rightarrow> http_text env 405
      | ImportFailed Unreadable \<Rightarrow> http_error 400 ''failed to read request body''
      | ImportFailed EmptyBody \<Rightarrow> http_error 400 ''request body is empty''
      | ImportFailed (NotParsed e) \<Rightarrow> http_error 400 (g_import_error env e)
      | ImportFailed NoTitle \<Rightarrow> http_error 400 ''OpenAPI spec is missing a usable info.title or servers[0].url''
      | ImportFailed NotSaved \<Rightarrow> internal_error
      | Preview pc \<Rightarrow>
          http_json (JPreview (pc_Name pc, pc_BaseURL pc, pc_AuthType pc)
            (map (\<lambda>e. (pe_ToolName e, pe_ToolDescription e, pe_Path e, pe_Method e, pe_ParametersSchema e)) (pc_Endpoints pc)))
      | Created cid name names \<Rightarrow> http_json (JImported cid name names))"

definition handle_import :: "gateway_env \<Rightarrow> outcome \<Rightarrow> api_handler" where
  "handle_import env oc r g =
     (let (rep, d) = handleOpenAPIImport (g_openapi env) (hash_def (g_store env)) (o_import oc) (rq_method r)
                       (url_query (rq_url r)) (o_document oc) (gw_db g)
      in (import_response env rep, g\<lparr>gw_db := d\<rparr>))"

subsection \<open>Routes\<close>

text \<open>The handler of a path behind the admin middleware, as \<^verbatim>\<open>RegisterRoutes\<close> registers them.\<close>

definition admin_route :: "gateway_env \<Rightarrow> outcome \<Rightarrow> string \<Rightarrow> api_handler option" where
  "admin_route env oc path =
     (if path = ''/api/connections'' \<or> prefix ''/api/connections/'' path then Some (handleConnections env oc path)
      else if path = ''/api/endpoints'' \<or> prefix ''/api/endpoints/'' path then Some (handleEndpoints env oc path)
      else if path = ''/api/import/openapi'' then Some (handle_import env oc)
      else if path = ''/api/vault'' then Some (handleVault env oc)
      else if path = ''/api/logs'' then Some (handleAuditLogs env oc)
      else if path = ''/api/settings'' then Some (handleSettings env)
      else if path = ''/api/operational-stats'' then Some (handleOperationalStats env oc)
      else if path = ''/api/tokens'' then Some (handleTokens env oc)
      else if path = ''/api/openapi.json'' then Some (handleOpenAPI env oc)
      else None)"

text \<open>\<^verbatim>\<open>http.ServeMux\<close> redirects a path with empty or dotted segments to its cleaned form; such requests, like those
  for static files, get the response \<open>o_static\<close>. So do the two routes of the sign-on, which have a theory of their own
  (\<^verbatim>\<open>Gateway_Sso\<close>) and change neither tables nor vault, and the two demo routes, which answer with fixed documents.\<close>

definition clean_path :: "string \<Rightarrow> bool" where
  "clean_path p =
     (let segs = drop 1 (go_Split p (CHR ''/'')) in
      list_all (\<lambda>seg. seg \<noteq> ''.'' \<and> seg \<noteq> ''..'') segs \<and> list_all (\<lambda>seg. seg \<noteq> []) (butlast segs))"

definition serve_metrics :: "gateway_env \<Rightarrow> outcome \<Rightarrow> request \<Rightarrow> response" where
  "serve_metrics env oc =
     metricsAuth (g_not_json env) (cfg_MetricsToken (g_config env)) (\<lambda>r. \<lparr>status = 200, body = Inr (JText (o_metrics oc))\<rparr>)"

definition gateway_serve :: "gateway_env \<Rightarrow> outcome \<Rightarrow> api_handler" where
  "gateway_serve env oc r g =
     (case url_path (rq_url r) of
        None \<Rightarrow> (http_text env 400, g)
      | Some path \<Rightarrow>
          (if \<not> clean_path path then (o_static oc, g)
           else if path = ''/api/auth/login'' then handleLogin env r g
           else if path = ''/metrics'' then (serve_metrics env oc r, g)
           else case admin_route env oc path of
                  Some h \<Rightarrow> AdminAuthMiddleware (g_lib env) (g_auth env) h r g
                | None \<Rightarrow> (o_static oc, g)))"

section \<open>Lemmas\<close>

subsection \<open>Handlers\<close>

text \<open>What a request leaves as it is: the tables stay well-formed, and a request without an admin session leaves the
  whole gateway alone.\<close>

lemma reply_db [simp]:
  "gw_db (snd (db_reply x ok g)) = snd x" "gw_db (snd (vault_reply y m res g)) = gw_db g"
  "gw_vault (snd (db_reply x ok g)) = gw_vault g" "gw_vault (snd (vault_reply y m res g)) = snd y"
  by (simp_all add: db_reply_def vault_reply_def)

lemma reads_wf:
  "tables_wf P d \<Longrightarrow> tables_wf P (snd (GetConnections f now d))" "tables_wf P d \<Longrightarrow> tables_wf P (snd (GetAllEndpoints f now d))"
  using reads_keep_tables db_wf_same_tables by blast+

lemmas methods_wf = reads_wf SaveConnection_wf DeleteConnection_wf SaveEndpoint_wf DeleteEndpoint_wf tokens_wf

lemma handleOpenAPI_wf: "db_wf H (gw_db g) \<Longrightarrow> db_wf H (gw_db (snd (handleOpenAPI env oc r g)))"
proof -
  assume wf: "db_wf H (gw_db g)"
  obtain x d where c: "GetConnections (o_fault oc) (gw_now g) (gw_db g) = (x, d)" by force
  with methods_wf(1) [OF wf, of "o_fault oc" "gw_now g"] have "db_wf H d" by simp
  with wf show ?thesis by (cases x) (simp_all add: handleOpenAPI_def c methods_wf)
qed

lemma handle_import_wf: "db_wf (hash_def (g_store env)) (gw_db g) \<Longrightarrow> db_wf (hash_def (g_store env)) (gw_db (snd (handle_import env oc r g)))"
  using handleOpenAPIImport_tables [of "pinned (hash_def (g_store env))" "gw_db g" "hash_def (g_store env)" "g_openapi env"
      "o_import oc" "rq_method r" "url_query (rq_url r)" "o_document oc"]
  by (simp add: handle_import_def split_beta)

lemma admin_route_wf:
  assumes "db_wf (hash_def (g_store env)) (gw_db g)" "admin_route env oc path = Some h"
  shows "db_wf (hash_def (g_store env)) (gw_db (snd (h r g)))"
proof -
  have "db_wf (hash_def (g_store env)) (gw_db (snd (handleConnections env oc path r g)))"
    "db_wf (hash_def (g_store env)) (gw_db (snd (handleEndpoints env oc path r g)))"
    "db_wf (hash_def (g_store env)) (gw_db (snd (handleVault env oc r g)))"
    "db_wf (hash_def (g_store env)) (gw_db (snd (handleSettings env r g)))"
    "db_wf (hash_def (g_store env)) (gw_db (snd (handleOperationalStats env oc r g)))"
    "db_wf (hash_def (g_store env)) (gw_db (snd (handleAuditLogs env oc r g)))"
    "db_wf (hash_def (g_store env)) (gw_db (snd (handleTokens env oc r g)))"
    using assms(1)
    by (simp_all add: handleConnections_def handleEndpoints_def handleVault_def handleSettings_def
        handleOperationalStats_def handleAuditLogs_def handleTokens_def Let_def methods_wf
        split: option.split sum.split)
  then show ?thesis
    using assms handleOpenAPI_wf handle_import_wf by (auto simp: admin_route_def split: if_splits)
qed

lemma handleLogin_state [simp]: "snd (handleLogin env r g) = g"
  by (simp add: handleLogin_def split: option.split)

lemma gateway_serve_wf:
  assumes "db_wf (hash_def (g_store env)) (gw_db g)"
  shows "db_wf (hash_def (g_store env)) (gw_db (snd (gateway_serve env oc r g)))"
  using assms admin_route_wf [OF assms]
  by (auto simp: gateway_serve_def AdminAuthMiddleware_def split: option.split sum.split)

text \<open>A request with no admin session.\<close>

lemma forbidden:
  assumes "session_role (g_lib env) (g_auth env) r \<noteq> Some ''admin''"
  shows "snd (gateway_serve env oc r g) = g"
    "url_path (rq_url r) = Some path \<Longrightarrow> clean_path path \<Longrightarrow> admin_route env oc path \<noteq> None \<Longrightarrow>
     status (fst (gateway_serve env oc r g)) \<in> {401, 403}"
proof -
  have a: "snd (AdminAuthMiddleware (g_lib env) (g_auth env) h r g) = g"
    "status (fst (AdminAuthMiddleware (g_lib env) (g_auth env) h r g)) \<in> {401, 403}" for h :: api_handler
    using admin_forbidden [OF assms, of h g] by auto
  show "snd (gateway_serve env oc r g) = g"
    by (simp add: gateway_serve_def a(1) split: option.split)
  show "status (fst (gateway_serve env oc r g)) \<in> {401, 403}"
    if p: "url_path (rq_url r) = Some path" "clean_path path" "admin_route env oc path \<noteq> None"
  proof -
    obtain h where h: "admin_route env oc path = Some h" using p(3) by blast
    then have "path \<noteq> ''/api/auth/login''" "path \<noteq> ''/metrics''" by (auto simp: admin_route_def)
    with p h a(2) [of h] show ?thesis by (simp add: gateway_serve_def)
  qed
qed

text \<open>Values for the examples: a library whose session tokens are the role and the name in plain text.\<close>

definition toy_lib :: auth_lib where
  "toy_lib =
     \<lparr>jwt_verify = (\<lambda>s t. let (a, b) = split_pair t in
         if a \<noteq> [] \<and> t = a @ CHR ''='' # b \<and> b \<noteq> [] then Some \<lparr>cl_username = butlast b, cl_role = tl a\<rparr> else None),
      jwt_sign = (\<lambda>s c. if CHR ''='' \<in> set (cl_role c) then None
         else Some (CHR ''j'' # cl_role c @ CHR ''='' # cl_username c @ [CHR ''.''])),
      sha256 = (\<lambda>s. s)\<rparr>"

lemma toy_lib_ok: "jwt_lib_ok toy_lib"
proof -
  have "split_pair (CHR ''j'' # r @ CHR ''='' # u @ [CHR ''.'']) = (CHR ''j'' # r, u @ [CHR ''.''])" if "CHR ''='' \<notin> set r" for r u
    using that split_pair_append [of "CHR ''j'' # r" "u @ [CHR ''.'']"] by simp
  moreover have "\<not> js_space (CHR ''j'')" "\<not> js_space (CHR ''.'')" by code_simp+
  ultimately show ?thesis by (auto simp: jwt_lib_ok_def toy_lib_def Let_def split: if_splits)
qed

definition toy_env :: gateway_env where
  "toy_env =
     \<lparr>g_config = \<lparr>cfg_Port = ''8080'', cfg_VaultProvider = ''local'', cfg_OIDCIssuer = ''https://idp.local'', cfg_TLSCertPath = [],
        cfg_TLSTerminatedAtProxy = True, cfg_ClientCAPath = [], cfg_MTLSMode = [], cfg_AdminUsername = ''admin'',
        cfg_AdminPassword = ''pw'', cfg_MetricsToken = ''scrape''\<rparr>,
      g_auth = \<lparr>jwtSecret = ''k'', gatewayToken = ''gw''\<rparr>, g_lib = toy_lib,
      g_store = \<lparr>hash_token = rev, integrity = toy_integrity, rank_time = (\<lambda>s. int (length s))\<rparr>,
      g_vlib = plain_lib, g_openapi = pet_lib, g_import_error = (\<lambda>e. ''not an OpenAPI document''), g_not_json = ''Unexpected token''\<rparr>"

definition toy_outcome :: outcome where
  "toy_outcome =
     \<lparr>o_fault = None, o_fault2 = None, o_uuid = ''u1'', o_token = ''mcp_x'', o_nonce = [], o_write = Written,
      o_internal = (\<lambda>_. False), o_probe = (\<lambda>_. (Some 200, 5)), o_sessions = 0, o_queries = 0, o_metrics = [],
      o_spec = (\<lambda>_ _. ''{}''), o_document = Some ''A'', o_import = import_now, o_static = \<lparr>status = 200, body = Inl []\<rparr>\<rparr>"

definition toy_gateway :: gateway where
  "toy_gateway =
     \<lparr>gw_now = 0, gw_db = EnableConfigCache 5 sample_db,
      gw_vault = snd (saveLocked plain_lib [] Written \<lparr>lv_secrets = [(''orders_key'', ''s3cret'')], lv_file = None\<rparr>)\<rparr>"

definition viewer_request :: request where
  "viewer_request =
     \<lparr>rq_url = ''/api/connections/c1'', rq_method = ''DELETE'',
      rq_headers = [(''Authorization'', ''Bearer jviewer=eve.'')], rq_body = None\<rparr>"

section \<open>Properties\<close>

text \<open>C4: Through the portal's API nothing can be changed, and nothing of the administration read, without an admin session: a
  request, whatever its path, method and body, whose bearer token is not a valid session token with the role admin
  leaves tables and vault exactly as they were, and on every route that \<^verbatim>\<open>RegisterRoutes\<close> registers for administration,
  the import of OpenAPI documents included, it is answered with 401 or 403.\<close>

theorem admin_session_required:
  assumes "session_role (g_lib env) (g_auth env) r \<noteq> Some ''admin''"
  shows "snd (gateway_serve env oc r g) = g \<and>
    (url_path (rq_url r) = Some path \<and> clean_path path \<and> admin_route env oc path \<noteq> None \<longrightarrow>
     status (fst (gateway_serve env oc r g)) \<in> {401, 403})"
  using forbidden [OF assms] by blast

theorem admin_session_required_witness:
  "snd (gateway_serve toy_env toy_outcome viewer_request toy_gateway) = toy_gateway \<and>
   status (fst (gateway_serve toy_env toy_outcome viewer_request toy_gateway)) \<in> {401, 403}"
proof -
  have "session_role (g_lib toy_env) (g_auth toy_env) viewer_request \<noteq> Some ''admin''"
    "url_path (rq_url viewer_request) = Some ''/api/connections/c1''" "clean_path ''/api/connections/c1''"
    by code_simp+
  moreover have "admin_route toy_env toy_outcome ''/api/connections/c1'' \<noteq> None"
    by (simp add: admin_route_def)
  ultimately show ?thesis using admin_session_required by blast
qed

end
