(* ===== verification/Portal_Gateway.thy ===== *)
theory Portal_Gateway
  imports Portal_Settle Gateway_Api
begin

text \<open>
  The portal and the gateway together: the requests that the portal's functions send are served by the
  gateway's handlers, and its responses are the answers the portal goes on with. The environment that
  the portal's event loop was proved against is discharged for the gateway, and what a user sees at
  the one end is related to what is stored at the other.
\<close>

section \<open>Definitions\<close>

text \<open>A page whose session token the gateway accepts as an administrator's.\<close>

definition admin_page :: "gateway_env \<Rightarrow> browser \<Rightarrow> bool" where
  "admin_page env b = (session_role (g_lib env) (g_auth env) (get_request [] b) = Some ''admin'')"

text \<open>The request a function of the portal sends first, and the gateway's response to it.\<close>

definition first_request :: "app_proc \<Rightarrow> browser \<Rightarrow> request" where
  "first_request p b = last (sent (fst (run p b)))"

definition respond :: "gateway_env \<Rightarrow> outcome \<Rightarrow> gateway \<Rightarrow> request \<Rightarrow> answer" where
  "respond env oc g r = AFetch (Resp (fst (gateway_serve env oc r g)))"

text \<open>What the connection dialog holds.\<close>

definition form_connection :: "browser \<Rightarrow> connection" where
  "form_connection b =
     \<lparr>conn_id = get_value b ''connection-id'', conn_name = get_value b ''conn-name'',
      conn_description = get_value b ''conn-desc'', conn_base_url = get_value b ''conn-url'',
      conn_auth_type = get_value b ''conn-auth'', conn_auth_secret_ref = get_value b ''conn-secret'',
      conn_enabled = is_checked b ''conn-enabled'', conn_tool_prefix = get_value b ''conn-prefix''\<rparr>"

text \<open>The connection that the gateway saves: a new one gets a fresh id.\<close>

definition submitted :: "outcome \<Rightarrow> browser \<Rightarrow> connection" where
  "submitted oc b =
     (if get_value b ''connection-id'' = [] then (form_connection b)\<lparr>conn_id := o_uuid oc\<rparr> else form_connection b)"

text \<open>A login form that was filled in, for the examples.\<close>

definition login_page :: browser where
  "login_page =
     sample_page\<lparr>dom := (dom sample_page)(
       ''username'' := (dom sample_page ''username'')\<lparr>val := ''admin''\<rparr>,
       ''password'' := (dom sample_page ''password'')\<lparr>val := ''pw''\<rparr>)\<rparr>"

text \<open>An administrator's page that knows the connection of \<open>toy_gateway\<close>, and a gateway with a client token.\<close>

definition toy_page :: browser where
  "toy_page =
     sample_page\<lparr>STATE := (STATE sample_page)\<lparr>st_token := ''jadmin=admin.'', st_connections := [sample_conn]\<rparr>,
       dom := (\<lambda>i. (dom sample_page i)\<lparr>options := [''none'', ''bearer'']\<rparr>)\<rparr>"

definition token_gateway :: gateway where
  "token_gateway = toy_gateway\<lparr>gw_db := (empty_db False)\<lparr>t_tokens := [sample_token\<lparr>tok_token := ''terces''\<rparr>]\<rparr>\<rparr>"

section \<open>Lemmas\<close>

subsection \<open>Routes\<close>

lemma session_role_headers: "rq_headers r = rq_headers r' \<Longrightarrow> session_role lib am r = session_role lib am r'"
  by (simp add: session_role_def authenticate_def bearerToken_def)

lemma admin_page_requests:
  assumes "admin_page env b"
  shows "session_role (g_lib env) (g_auth env) (get_request url b) = Some ''admin''"
    "session_role (g_lib env) (g_auth env) (delete_request url b) = Some ''admin''"
    "session_role (g_lib env) (g_auth env) (post_request url flds b) = Some ''admin''"
  using assms session_role_headers [of "get_request url b" "get_request [] b"]
    session_role_headers [of "delete_request url b" "get_request [] b"]
    session_role_headers [of "post_request url flds b" "get_request [] b"]
  by (simp_all add: admin_page_def get_request_def delete_request_def post_request_def)

lemma serve_admin:
  assumes "session_role (g_lib env) (g_auth env) r = Some ''admin''"
    and "url_path (rq_url r) = Some path" "clean_path path" "admin_route env oc path = Some h"
  shows "gateway_serve env oc r g = h r g"
proof -
  have "path \<noteq> ''/api/auth/login''" "path \<noteq> ''/metrics''" using assms(4) by (auto simp: admin_route_def)
  then show ?thesis using assms by (simp add: gateway_serve_def admin_allowed)
qed

lemma serve_admin_page:
  assumes "admin_page env b" "url_path url = Some path" "clean_path path" "admin_route env oc path = Some h"
  shows "gateway_serve env oc (get_request url b) g = h (get_request url b) g"
    "gateway_serve env oc (delete_request url b) g = h (delete_request url b) g"
    "gateway_serve env oc (post_request url flds b) g = h (post_request url flds b) g"
proof -
  have "rq_url (get_request url b) = url" "rq_url (delete_request url b) = url" "rq_url (post_request url flds b) = url"
    by (simp_all add: get_request_def delete_request_def post_request_def)
  then show "gateway_serve env oc (get_request url b) g = h (get_request url b) g"
    "gateway_serve env oc (delete_request url b) g = h (delete_request url b) g"
    "gateway_serve env oc (post_request url flds b) g = h (post_request url flds b) g"
    using admin_page_requests [OF assms(1)] assms(2-4) by (simp_all add: serve_admin)
qed

lemma plain_path:
  assumes "list_all (\<lambda>c. c \<noteq> CHR ''?'' \<and> c \<noteq> CHR ''+'' \<and> c \<noteq> CHR ''%'') p"
  shows "url_path p = Some p" "url_path (p @ CHR ''?'' # q) = Some p" "url_query (p @ CHR ''?'' # q) = q"
proof -
  have p: "takeWhile (\<lambda>c. c \<noteq> CHR ''?'') p = p" "dropWhile (\<lambda>c. c \<noteq> CHR ''?'') p = []" "unescape False p = Some p"
    using assms by (auto simp: list_all_iff takeWhile_eq_all_conv dropWhile_eq_Nil_conv intro!: unescape_id)
  have "\<forall>c \<in> set p. c \<noteq> CHR ''?''" using assms by (auto simp: list_all_iff)
  with p show "url_path p = Some p" "url_path (p @ CHR ''?'' # q) = Some p" "url_query (p @ CHR ''?'' # q) = q"
    unfolding url_path_def p(1) by (simp_all add: url_query_def takeWhile_append dropWhile_append)
qed

lemma api_paths:
  "url_path ''/api/connections'' = Some ''/api/connections''" "clean_path ''/api/connections''"
  "url_path ''/api/endpoints'' = Some ''/api/endpoints''" "clean_path ''/api/endpoints''"
  "url_path ''/api/logs'' = Some ''/api/logs''" "clean_path ''/api/logs''"
  "url_path ''/api/tokens'' = Some ''/api/tokens''" "clean_path ''/api/tokens''"
  "url_path ''/api/vault'' = Some ''/api/vault''" "clean_path ''/api/vault''"
  "url_path ''/api/settings'' = Some ''/api/settings''" "clean_path ''/api/settings''"
  "url_path ''/api/operational-stats'' = Some ''/api/operational-stats''" "clean_path ''/api/operational-stats''"
  "url_path ''/api/openapi.json'' = Some ''/api/openapi.json''" "clean_path ''/api/openapi.json''"
  "url_path ''/metrics'' = Some ''/metrics''" "clean_path ''/metrics''"
  "url_path ''/api/auth/login'' = Some ''/api/auth/login''" "clean_path ''/api/auth/login''"
  by code_simp+

lemma api_routes [simp]:
  "admin_route env oc ''/api/connections'' = Some (handleConnections env oc ''/api/connections'')"
  "admin_route env oc ''/api/endpoints'' = Some (handleEndpoints env oc ''/api/endpoints'')"
  "admin_route env oc ''/api/logs'' = Some (handleAuditLogs env oc)"
  "admin_route env oc ''/api/tokens'' = Some (handleTokens env oc)"
  "admin_route env oc ''/api/vault'' = Some (handleVault env oc)"
  "admin_route env oc ''/api/settings'' = Some (handleSettings env)"
  "admin_route env oc ''/api/operational-stats'' = Some (handleOperationalStats env oc)"
  "admin_route env oc ''/api/openapi.json'' = Some (handleOpenAPI env oc)"
  by (simp_all add: admin_route_def)

text \<open>Every route answers a GET with the payload the portal expects there, or with an error.\<close>

definition typed_reply :: "string \<Rightarrow> response \<Rightarrow> bool" where
  "typed_reply url res \<longleftrightarrow> (res_ok res \<longrightarrow> (case body res of Inl _ \<Rightarrow> True | Inr p \<Rightarrow> typed url p))"

lemma typed_error [simp]:
  "400 \<le> st \<Longrightarrow> typed_reply url (http_error st m)" "400 \<le> st \<Longrightarrow> typed_reply url (http_text env st)"
  "typed_reply url internal_error"
  by (simp_all add: typed_reply_def http_error_def http_text_def internal_error_def res_ok_def)

lemma typed_db_reply: "(\<And>x. typed_reply url (ok x)) \<Longrightarrow> typed_reply url (fst (db_reply r ok g))"
  by (simp add: db_reply_def split: sum.split)

lemma typed_middleware:
  assumes "\<And>g. typed_reply url (fst (h r g))"
  shows "typed_reply url (fst (AdminAuthMiddleware lib am h r g))"
  using assms by (auto simp: AdminAuthMiddleware_def authenticate_def Let_def split: sum.split option.split)

lemma typed_handlers:
  assumes "rq_method r = ''GET''"
  shows "typed_reply ''/api/connections'' (fst (handleConnections env oc ''/api/connections'' r g))"
    "typed_reply ''/api/endpoints'' (fst (handleEndpoints env oc ''/api/endpoints'' r g))"
    "typed_reply ''/api/logs'' (fst (handleAuditLogs env oc r g))"
    "typed_reply ''/api/tokens'' (fst (handleTokens env oc r g))"
    "typed_reply ''/api/vault'' (fst (handleVault env oc r g))"
    "typed_reply ''/api/settings'' (fst (handleSettings env r g))"
    "typed_reply ''/api/operational-stats'' (fst (handleOperationalStats env oc r g))"
    "typed_reply ''/metrics'' (serve_metrics env oc r)"
    "typed_reply ''/api/auth/login'' (fst (handleLogin env r g))"
  using assms
  by (auto simp: handleConnections_def handleEndpoints_def handleAuditLogs_def handleTokens_def handleVault_def
      handleSettings_def handleOperationalStats_def serve_metrics_def metricsAuth_def handleLogin_def Let_def
      intro!: typed_db_reply split: sum.split)
    (auto simp: typed_reply_def typed_def http_json_def res_ok_def)

lemma typed_openapi: "rq_method r = ''GET'' \<Longrightarrow> typed_reply ''/api/openapi.json'' (fst (handleOpenAPI env oc r g))"
  by (cases "GetConnections (o_fault oc) (gw_now g) (gw_db g)")
    (auto simp: handleOpenAPI_def typed_reply_def typed_def http_json_def internal_error_def http_error_def res_ok_def
      db_reply_def split: sum.split)

lemma gateway_typed:
  assumes "rq_method r = ''GET''" shows "typed_reply (rq_url r) (fst (gateway_serve env oc r g))"
proof (cases "rq_url r \<in> {''/api/connections'', ''/api/endpoints'', ''/api/logs'', ''/api/tokens'', ''/api/vault'',
    ''/api/settings'', ''/api/operational-stats'', ''/api/openapi.json'', ''/metrics'', ''/api/auth/login''}")
  case True
  then show ?thesis
    using typed_handlers [OF assms] typed_openapi [OF assms]
    by (auto simp: gateway_serve_def api_paths intro!: typed_middleware)
next
  case False
  then show ?thesis by (simp add: typed_reply_def typed_def split: sum.split)
qed

text \<open>The members of the settings: those that the gateway sends, and those that the portal reads and never gets.\<close>

definition settings_sent :: "config \<Rightarrow> settings \<Rightarrow> bool" where
  "settings_sent cfg d \<longleftrightarrow>
     port d = cfg_Port cfg \<and> vault_provider d = cfg_VaultProvider cfg \<and>
     tls_enabled d = Some (tls_mode d \<noteq> ''none'') \<and> (tls_mode d = ''pod'' \<longleftrightarrow> cfg_TLSCertPath cfg \<noteq> []) \<and>
     mtls_mode d = (if cfg_ClientCAPath cfg \<noteq> [] then ''pod'' else cfg_MTLSMode cfg)"

definition settings_missing :: "settings \<Rightarrow> bool" where
  "settings_missing d \<longleftrightarrow>
     list_all (\<lambda>member. member d = []) [database_path, vault_local_path, oidc_issuer, oidc_client_id, tls_cert_path, client_ca_path]"

lemma settings_reply:
  assumes "rq_method r = ''GET''" "rq_url r = ''/api/settings''" "body (fst (gateway_serve env oc r g)) = Inr (JSettings d)"
  shows "settings_sent (g_config env) d \<and> settings_missing d"
proof -
  have "body (fst (AdminAuthMiddleware (g_lib env) (g_auth env) (handleSettings env) r g)) = Inr (JSettings d)"
    using assms(2,3) by (simp add: gateway_serve_def api_paths)
  then have "body (fst (handleSettings env r g)) = Inr (JSettings d)"
    by (auto simp: AdminAuthMiddleware_def authenticate_def Let_def http_error_def split: sum.splits option.splits if_splits)
  with assms(1) show ?thesis
    by (auto simp: handleSettings_def http_json_def Let_def settings_sent_def settings_missing_def split: if_splits)
qed

subsection \<open>Bodies\<close>

definition lower :: "string \<Rightarrow> bool" where
  "lower s \<longleftrightarrow> js_toLowerCase s = s"

lemma field_values_lower:
  "list_all (\<lambda>(n, v). lower n) fs \<Longrightarrow> lower name \<Longrightarrow> field_values fs name = map snd (filter (\<lambda>(n, v). n = name) fs)"
  unfolding field_values_def
  by (intro arg_cong [where f = "map snd"] filter_cong) (auto simp: list_all_iff lower_def go_EqualFold_def)

text \<open>The names of the fields the portal sends are in lower case.\<close>

lemma lower_names:
  "list_all lower [''id'', ''name'', ''description'', ''tool_prefix'', ''base_url'', ''auth_type'', ''auth_secret_ref'',
     ''enabled'', ''connection_id'', ''tool_name'', ''tool_description'', ''path'', ''method'', ''parameters_schema'',
     ''template'', ''definition_hash'', ''version'', ''client_name'', ''token'', ''client_role'', ''scopes'', ''username'', ''password'']"
  by code_simp

lemmas lower_name = lower_names [unfolded list.pred_inject]

lemma field_str_lower:
  assumes "list_all (\<lambda>(n, v). lower n) fs" "lower name"
  shows "filter (\<lambda>(n, v). n = name) fs = [(name, JStr x)] \<Longrightarrow> field_str fs name = Some x"
    "filter (\<lambda>(n, v). n = name) fs = [(name, JBool y)] \<Longrightarrow> field_bool fs name = Some y"
  using field_values_lower [OF assms] by (simp_all add: field_str_def field_bool_def)

lemma decode_connection_json: "decode_connection (connection_json conn) = Some conn"
proof -
  let ?fs = "connection_json conn"
  have l: "list_all (\<lambda>(n, v). lower n) ?fs"
    using lower_name by (simp add: connection_json_def)
  have "field_str ?fs ''id'' = Some (conn_id conn)" "field_str ?fs ''name'' = Some (conn_name conn)"
    "field_str ?fs ''description'' = Some (conn_description conn)" "field_str ?fs ''base_url'' = Some (conn_base_url conn)"
    "field_str ?fs ''auth_type'' = Some (conn_auth_type conn)" "field_bool ?fs ''enabled'' = Some (conn_enabled conn)"
    "field_str ?fs ''auth_secret_ref'' = Some (conn_auth_secret_ref conn)"
    "field_str ?fs ''tool_prefix'' = Some (conn_tool_prefix conn)"
    by (rule field_str_lower [OF l], use lower_name in simp, simp add: connection_json_def)+
  then show ?thesis by (simp add: decode_connection_def)
qed

lemma loc_hash_submit: "loc_hash (fst (run submit_login b)) = loc_hash b"
  by (simp add: submit_login_def try_fetch_def fetch_def Let_def)

lemma connection_body_form: "connection_body b = connection_json (form_connection b)"
  by (simp add: connection_body_def connection_json_def form_connection_def)

lemma first_submit: "first_request submit_connection b = post_request ''/api/connections'' (connection_body b) b"
  by (simp add: first_request_def submit_connection_def try_fetch_def fetch_def Let_def)

text \<open>The gateway's side of a submitted connection dialog.\<close>

lemma serve_submit_connection:
  assumes "admin_page env b"
  shows "gateway_serve env oc (first_request submit_connection b) g =
    db_reply (SaveConnection (o_fault oc) (submitted oc b) (gw_db g)) (\<lambda>_. http_json (JConn (submitted oc b))) g"
proof -
  have "gateway_serve env oc (first_request submit_connection b) g =
      handleConnections env oc ''/api/connections'' (post_request ''/api/connections'' (connection_body b) b) g"
    unfolding first_submit by (rule serve_admin_page [OF assms api_paths(1,2) api_routes(1)])
  also have "\<dots> = db_reply (SaveConnection (o_fault oc) (submitted oc b) (gw_db g)) (\<lambda>_. http_json (JConn (submitted oc b))) g"
    by (simp add: handleConnections_def post_request_def connection_body_form decode_connection_json submitted_def
        form_connection_def Let_def)
  finally show ?thesis .
qed

lemma upsert_same: "find (\<lambda>x. key x = key r) xs = Some r \<Longrightarrow> upsert key r xs = xs"
  by (induction xs) (auto split: if_splits)

lemma serve_get_connections:
  assumes "admin_page env b"
  shows "gateway_serve env oc (get_request ''/api/connections'' b) g =
    db_reply (GetConnections (o_fault oc) (gw_now g) (gw_db g)) (\<lambda>conns. http_json (JConns (go_slice conns))) g"
proof -
  have "gateway_serve env oc (get_request ''/api/connections'' b) g =
      handleConnections env oc ''/api/connections'' (get_request ''/api/connections'' b) g"
    by (rule serve_admin_page [OF assms api_paths(1,2) api_routes(1)])
  then show ?thesis by (simp add: handleConnections_def get_request_def)
qed

lemma SaveConnection_ok:
  assumes "\<not> list_ex (\<lambda>c. conn_name c = conn_name conn \<and> conn_id c \<noteq> conn_id conn) (t_connections d)"
  shows "SaveConnection None conn d = (Inr (), invalidateCaches (d\<lparr>t_connections := upsert conn_id conn (t_connections d)\<rparr>))"
  using assms by (simp add: SaveConnection_def)

lemma GetConnections_fresh: "fresh d \<Longrightarrow> fst (GetConnections None t d) = Inr (t_connections d)"
  by (auto simp: GetConnections_def fresh_def split: option.split)

lemma mem_upsert: "r \<in> set (upsert key r xs)"
  by (induction xs) auto

lemma find_distinct: "distinct (map key xs) \<Longrightarrow> x \<in> set xs \<Longrightarrow> find (\<lambda>y. key y = key x) xs = Some x"
  by (induction xs) (auto simp: rev_image_eqI)

lemma stored_connection:
  assumes "db_wf H d" "conn \<in> set (t_connections d)"
  shows "upsert conn_id conn (t_connections d) = t_connections d"
    "\<not> list_ex (\<lambda>c. conn_name c = conn_name conn \<and> conn_id c \<noteq> conn_id conn) (t_connections d)"
  using assms find_distinct [of conn_id "t_connections d" conn] inj_onD [of conn_name "set (t_connections d)"]
  by (auto simp: tables_wf_def pinned_def distinct_map list_ex_iff intro!: upsert_same)

lemma headers_openConnectionModal [simp]: "getHeaders (openConnectionModal i b) = getHeaders b"
  by (simp add: getHeaders_def openConnectionModal_def Let_def class_remove_def fill_connection_def assign_value_def
      set_checked_def set_innerText_def split: option.split)

lemma form_openConnectionModal:
  assumes "i \<noteq> []" "find_connection (st_connections (STATE b)) i = Some conn"
    and "editable_connection (options (dom b ''conn-auth'')) conn"
  shows "form_connection (openConnectionModal i b) = conn"
proof -
  have "connection_json (form_connection (openConnectionModal i b)) = connection_json conn"
    using edit_connection_body [OF assms] by (simp only: connection_body_form)
  then show ?thesis by (metis decode_connection_json option.inject)
qed

lemma page_bearer: "header_get (rq_headers (get_request url b)) ''Authorization'' = ''Bearer '' @ st_token (STATE b)"
proof -
  have "\<not> go_EqualFold ''Content-Type'' ''Authorization''" "go_EqualFold ''Authorization'' ''Authorization''"
    by code_simp+
  then show ?thesis by (simp add: header_get_def get_request_def getHeaders_def)
qed

lemma admin_page_session: "admin_page env b \<Longrightarrow> has_session b"
proof (rule ccontr)
  assume a: "admin_page env b" "\<not> has_session b"
  then have "header_get (rq_headers (get_request [] b)) ''Authorization'' = ''Bearer '' @ []"
    by (simp add: page_bearer has_session_def)
  then have "bearerToken (get_request [] b) = []" by (rule bearer_header) simp
  with a(1) show False by (simp add: admin_page_def session_role_def authenticate_def)
qed

lemma not_login_url: "\<not> js_includes ''/metrics'' ''/api/auth/login''"
  by code_simp

subsection \<open>The composed system\<close>

text \<open>
  The page and the gateway, step by step: an event on the page, a request that is served and whose
  response reaches the page, a request that fails on the way (served or not), and the answers that
  need no server.
\<close>

inductive system :: "gateway_env \<Rightarrow> gateway \<Rightarrow> app_machine \<times> gateway \<Rightarrow> bool" for env g0 where
  start: "page_loaded b \<Longrightarrow> system env g0 (\<lparr>mem = b, waiting = []\<rparr>, g0)"
| event: "system env g0 (m, g) \<Longrightarrow> turn answers handler m (Event e) = Some m' \<Longrightarrow> system env g0 (m', g)"
| served: "system env g0 (m, g) \<Longrightarrow> i < length (waiting m) \<Longrightarrow> fst (waiting m ! i) = Fetch r \<Longrightarrow>
    gateway_serve env oc r g = (res, g') \<Longrightarrow> turn answers handler m (Resume i (AFetch (Resp res))) = Some m' \<Longrightarrow>
    system env g0 (m', g')"
| lost: "system env g0 (m, g) \<Longrightarrow> g' = g \<or> g' = snd (gateway_serve env oc r g) \<Longrightarrow>
    turn answers handler m (Resume i (AFetch (NetErr e))) = Some m' \<Longrightarrow> system env g0 (m', g')"
| decoded: "system env g0 (m, g) \<Longrightarrow> \<not> (\<exists>x. a = AFetch x) \<Longrightarrow> turn answers handler m (Resume i a) = Some m' \<Longrightarrow>
    system env g0 (m', g)"
| passed: "system env g0 (m, g) \<Longrightarrow> system env g0 (m, g\<lparr>gw_now := gw_now g + int n\<rparr>)"

lemma answers_respond: "answers (Fetch r) (respond env oc g r)"
  using gateway_typed [of r env oc g] by (auto simp: respond_def typed_reply_def)

text \<open>The gateway's response is an answer the portal may get, so that the step with it is not blocked.\<close>

lemma respond_enabled:
  assumes "i < length (waiting m)" "fst (waiting m ! i) = Fetch r"
  shows "\<exists>m'. turn answers handler m (Resume i (respond env oc g r)) = Some m'"
  using assms answers_respond [of r env oc g] by (auto simp: split_beta)

lemma system_reach: "system env g0 (m, g) \<Longrightarrow> portal_reach m"
proof (induction "(m, g)" arbitrary: m g rule: system.induct)
  case (start b)
  then show ?case by (rule reach.start)
qed (blast intro: reach.step)+

lemma system_wf:
  "system env g0 (m, g) \<Longrightarrow> db_wf (hash_def (g_store env)) (gw_db g0) \<Longrightarrow> db_wf (hash_def (g_store env)) (gw_db g)"
proof (induction "(m, g)" arbitrary: m g rule: system.induct)
  case (served m g i r oc res g' m')
  with gateway_serve_wf [of env g oc r] show ?case by simp
next
  case (lost m g g' oc r i e m')
  with gateway_serve_wf [of env g oc r] show ?case by auto
qed auto

text \<open>The examples are what they are meant to be.\<close>

lemma toy_gateway_wf: "db_wf (hash_def (g_store toy_env)) (gw_db toy_gateway)"
proof -
  have "db_wf (hash_def (g_store toy_env)) sample_db"
    unfolding sample_db_def toy_env_def by (simp add: hash_def_def SaveEndpoint_wf SaveConnection_wf empty_db_wf)
  then show ?thesis by (simp add: toy_gateway_def EnableConfigCache_def tables_wf_def pinned_def)
qed

lemma toy_page_admin: "admin_page toy_env toy_page"
proof -
  have "GenerateJWT toy_lib (g_auth toy_env) ''admin'' ''admin'' = Some ''jadmin=admin.''" by code_simp
  from signed_session [OF toy_lib_ok this, of "get_request [] toy_page"] show ?thesis
    by (simp add: admin_page_def session_role_def page_bearer toy_page_def toy_env_def)
qed

section \<open>Properties\<close>

text \<open>C11: Every response of the gateway is of a kind the portal is prepared for: on each route that the portal reads, the
  payload of a successful answer is of the kind that the portal takes apart there (a list of connections, the settings,
  and so on). The assumption about the server under which the event loop of the portal was verified therefore holds of
  the gateway. It is about kinds of payload, not about every member of them: of the settings, the gateway never sends
  the paths, the OIDC issuer and the OIDC client that the portal shows, which read as missing, and what it sends is the
  configuration.\<close>

theorem gateway_meets_contract:
  "answers (Fetch r) (respond env oc g r) \<and>
   (rq_method r = ''GET'' \<and> rq_url r = ''/api/settings'' \<and> body (fst (gateway_serve env oc r g)) = Inr (JSettings d) \<longrightarrow>
      settings_sent (g_config env) d \<and> settings_missing d)"
  using answers_respond settings_reply by blast

theorem gateway_meets_contract_witness:
  "\<exists>d. body (fst (gateway_serve toy_env toy_outcome (get_request ''/api/settings'' toy_page) toy_gateway)) = Inr (JSettings d) \<and>
     settings_sent (g_config toy_env) d \<and> settings_missing d"
proof -
  let ?r = "get_request ''/api/settings'' toy_page"
  have "gateway_serve toy_env toy_outcome ?r toy_gateway = handleSettings toy_env ?r toy_gateway"
    by (rule serve_admin_page(1) [OF toy_page_admin api_paths(11,12) api_routes(6)])
  then obtain d where "body (fst (gateway_serve toy_env toy_outcome ?r toy_gateway)) = Inr (JSettings d)"
    by (simp add: handleSettings_def get_request_def http_json_def Let_def)
  moreover have "rq_method ?r = ''GET''" "rq_url ?r = ''/api/settings''" by (simp_all add: get_request_def)
  ultimately show ?thesis using gateway_meets_contract by blast
qed

text \<open>C3: Page and gateway composed, in every state they reach together, from well-formed tables, with any faults and
  lost requests: the page only ever sent authorized requests, uses its stored token and shows at most one section, and
  the gateway's tables are well-formed.\<close>

theorem system_safe:
  assumes "system env g0 (m, g)" "db_wf (hash_def (g_store env)) (gw_db g0)"
  shows "portal_ok (mem m) \<and> db_wf (hash_def (g_store env)) (gw_db g)"
  using portal.reach_inv [OF system_reach [OF assms(1)]] system_wf [OF assms] by blast

theorem system_safe_witness:
  "portal_ok (load_page sample_env) \<and> db_wf (hash_def (g_store toy_env)) (gw_db toy_gateway)"
proof -
  have "page_loaded (load_page sample_env)" by (auto simp: page_loaded_def)
  let ?m = "\<lparr>mem = load_page sample_env, waiting = []\<rparr> :: app_machine"
  from \<open>page_loaded _\<close> have "system toy_env toy_gateway (?m, toy_gateway)"
    by (rule system.start)
  moreover note toy_gateway_wf
  ultimately have "portal_ok (mem ?m) \<and> db_wf (hash_def (g_store toy_env)) (gw_db toy_gateway)"
    by (rule system_safe)
  then show ?thesis by simp
qed

text \<open>C12: Logging in works end to end: when the form holds the configured name and password, the gateway's answer to
  the portal's request opens the application, and every request the page then sends is accepted as an
  administrator's.\<close>

theorem login_end_to_end:
  assumes "jwt_lib_ok (g_lib env)" "cfg_AdminPassword (g_config env) \<noteq> []"
    and "get_value b ''username'' = cfg_AdminUsername (g_config env)" "get_value b ''password'' = cfg_AdminPassword (g_config env)"
    and "GenerateJWT (g_lib env) (g_auth env) (cfg_AdminUsername (g_config env)) ''admin'' = Some t"
    and "\<not> js_startsWith (loc_hash b) ''#token=''"
  shows "let res = fst (gateway_serve env oc (first_request submit_login b) g);
      c = drive submit_login b [(id, AFetch (Resp res)), (id, AJson (body res))]
    in app_visible c \<and> stored c token_key = t \<and> admin_page env c"
proof -
  define res where "res = fst (gateway_serve env oc (first_request submit_login b) g)"
  have "first_request submit_login b = login_request b"
    by (simp add: first_request_def submit_login_def try_fetch_def fetch_def Let_def)
  moreover have "field_str [(''username'', JStr u), (''password'', JStr p)] ''username'' = Some u"
    "field_str [(''username'', JStr u), (''password'', JStr p)] ''password'' = Some p" for u p
    using lower_name by (simp_all add: field_str_def field_values_lower)
  ultimately have res: "res = http_json (JLogin t (cfg_AdminUsername (g_config env)))"
    using assms(2-5)
    by (simp add: res_def gateway_serve_def login_request_def api_paths handleLogin_def)
  have t: "t \<noteq> []" using assms(1,5) by (simp add: jwt_lib_ok_def GenerateJWT_def)
  define c where "c = drive submit_login b [(id, AFetch (Resp res)), (id, AJson (body res))]"
  have c: "app_visible c \<and> st_token (STATE c) = t \<and> stored c token_key = t"
    unfolding c_def using t assms(6) by (intro drive_login) (simp_all add: res http_json_def res_ok_def loc_hash_submit)
  moreover have "header_get (rq_headers (get_request [] c)) ''Authorization'' = ''Bearer '' @ t"
    using c by (simp add: page_bearer)
  from signed_session [OF assms(1,5) this] have "admin_page env c"
    by (simp add: admin_page_def session_role_def)
  ultimately show ?thesis by (simp only: Let_def res_def [symmetric] c_def [symmetric])
qed

theorem login_end_to_end_witness:
  "app_visible (drive submit_login login_page
     [(id, AFetch (Resp (fst (gateway_serve toy_env toy_outcome (first_request submit_login login_page) toy_gateway)))),
      (id, AJson (body (fst (gateway_serve toy_env toy_outcome (first_request submit_login login_page) toy_gateway))))])"
proof -
  have "jwt_lib_ok (g_lib toy_env)" by (simp add: toy_env_def toy_lib_ok)
  moreover have "cfg_AdminPassword (g_config toy_env) \<noteq> []"
    "get_value login_page ''username'' = cfg_AdminUsername (g_config toy_env)"
    "get_value login_page ''password'' = cfg_AdminPassword (g_config toy_env)"
    "\<not> js_startsWith (loc_hash login_page) ''#token=''"
    by (simp_all add: toy_env_def login_page_def get_value_def sample_page_def js_startsWith_def)
  moreover have "GenerateJWT (g_lib toy_env) (g_auth toy_env) (cfg_AdminUsername (g_config toy_env)) ''admin'' = Some ''jadmin=admin.''"
    by code_simp
  ultimately show ?thesis
    using login_end_to_end [of toy_env login_page "''jadmin=admin.''" toy_outcome toy_gateway] by (simp only: Let_def) blast
qed

text \<open>C14: Saving a connection that was not changed changes nothing, provided that the dialog can hold it: its authentication
  type is one of those the dialog's selection offers, its fields have no line breaks and its URL no spaces around it.
  When the dialog is opened for such a connection that the gateway has as the page knows it, and submitted as it is, the
  gateway answers with success and its tables are the same. (A connection of another authentication type, such as
  \<^verbatim>\<open>oauth2\<close>, is outside of this: its type is lost.)\<close>

theorem unchanged_edit_is_identity:
  assumes "admin_page env b" "db_wf H (gw_db g)" "o_fault oc = None"
    and "i \<noteq> []" "find_connection (st_connections (STATE b)) i = Some conn" "conn \<in> set (t_connections (gw_db g))"
    and "editable_connection (options (dom b ''conn-auth'')) conn"
  shows "case gateway_serve env oc (first_request submit_connection (openConnectionModal i b)) g of
    (res, g') \<Rightarrow> res_ok res \<and> same_tables (gw_db g') (gw_db g) \<and> gw_vault g' = gw_vault g"
proof -
  define c where "c = openConnectionModal i b"
  have "admin_page env c"
    using assms(1) session_role_headers [of "get_request [] c" "get_request [] b"]
    by (simp add: admin_page_def c_def get_request_def)
  moreover have "form_connection c = conn"
    unfolding c_def using assms(4,5,7) by (rule form_openConnectionModal)
  then have "submitted oc c = conn"
    using find_connection_id [OF assms(5)] assms(4) by (auto simp: submitted_def form_connection_def)
  ultimately show ?thesis
    using assms(3) stored_connection [OF assms(2,6)]
    by (simp add: serve_submit_connection SaveConnection_ok db_reply_def http_json_def res_ok_def same_tables_def
        invalidateCaches_def c_def)
qed

theorem unchanged_edit_is_identity_witness:
  "case gateway_serve toy_env toy_outcome (first_request submit_connection (openConnectionModal ''c1'' toy_page)) toy_gateway of
     (res, g') \<Rightarrow> res_ok res \<and> same_tables (gw_db g') (gw_db toy_gateway) \<and> gw_vault g' = gw_vault toy_gateway"
  by (rule unchanged_edit_is_identity [OF toy_page_admin toy_gateway_wf, where conn = sample_conn])
    (simp_all add: toy_page_def toy_outcome_def toy_gateway_def EnableConfigCache_def sample_db_def find_connection_def
      SaveEndpoint_def SaveConnection_def empty_db_def sample_conn_def Let_def invalidateCaches_def
      editable_connection_def one_line_def trimmed_def ascii_space_def)

text \<open>C13: A connection that is submitted is saved and then shown: the gateway accepts it under its id or a fresh one
  (unless its name belongs to another connection), and when the page loads the connections next, at any time and
  whatever was cached, it shows the stored ones with this one added, or replaced if the id was known.\<close>

theorem saved_connection_listed:
  assumes "admin_page env b" "o_fault oc = None" "o_fault oc2 = None"
    and "\<not> list_ex (\<lambda>c. conn_name c = conn_name (submitted oc b) \<and> conn_id c \<noteq> conn_id (submitted oc b))
          (t_connections (gw_db g))"
    and "gateway_serve env oc (first_request submit_connection b) g = (res, g1)"
    and "gateway_serve env oc2 (first_request loadConnections b) (g1\<lparr>gw_now := t\<rparr>) = (res2, g2)"
    and "c = drive loadConnections b [(id, AFetch (Resp res2)), (id, AJson (body res2))]"
  shows "res_ok res \<and> st_connections (STATE c) = upsert conn_id (submitted oc b) (t_connections (gw_db g)) \<and>
    content (dom c ''connections-grid'') =
      conn_nodes (st_endpoints (STATE c)) (upsert conn_id (submitted oc b) (t_connections (gw_db g)))"
proof -
  let ?cs = "upsert conn_id (submitted oc b) (t_connections (gw_db g))"
  let ?d = "invalidateCaches ((gw_db g)\<lparr>t_connections := ?cs\<rparr>)"
  have 1: "res = http_json (JConn (submitted oc b))" "g1 = g\<lparr>gw_db := ?d\<rparr>"
    using assms(5) unfolding serve_submit_connection [OF assms(1)] assms(2) SaveConnection_ok [OF assms(4)]
    by (simp_all add: db_reply_def)
  have s: "has_session b" by (rule admin_page_session [OF assms(1)])
  then have "first_request loadConnections b = get_request ''/api/connections'' b"
    by (simp add: first_request_def conns.request_sent)
  moreover have "fst (GetConnections None t ?d) = Inr ?cs"
    using GetConnections_fresh [OF fresh_invalidate, of t "(gw_db g)\<lparr>t_connections := ?cs\<rparr>"]
    by (simp add: invalidateCaches_def)
  moreover have "?cs \<noteq> []" using mem_upsert [of "submitted oc b" conn_id "t_connections (gw_db g)"] by auto
  ultimately have 2: "res2 = http_json (JConns (Some ?cs))"
    using assms(3,6) by (simp add: serve_get_connections [OF assms(1)] 1(2) db_reply_def go_slice_def split: sum.splits)
  then have "res_ok res2" "body res2 = Inr (JConns (Some ?cs))" by (simp_all add: http_json_def res_ok_def)
  from connections_view [OF s this assms(7)] show ?thesis by (simp add: 1(1) http_json_def res_ok_def)
qed

theorem saved_connection_listed_witness:
  "res_ok (fst (gateway_serve toy_env toy_outcome (first_request submit_connection toy_page) toy_gateway))"
proof -
  have "\<not> list_ex (\<lambda>c. conn_name c = conn_name (submitted toy_outcome toy_page) \<and> conn_id c \<noteq> conn_id (submitted toy_outcome toy_page))
      (t_connections (gw_db toy_gateway))"
    by (simp add: submitted_def form_connection_def get_value_def toy_page_def toy_gateway_def EnableConfigCache_def
        sample_page_def sample_db_def SaveEndpoint_def SaveConnection_def empty_db_def sample_conn_def Let_def
        invalidateCaches_def)
  from saved_connection_listed [OF toy_page_admin _ _ this prod.collapse [symmetric] prod.collapse [symmetric] refl, of toy_outcome 0]
  show ?thesis by (simp add: toy_outcome_def)
qed

text \<open>C37: No client token can be deleted from the page: the gateway lists tokens without their secret, the page asks
  for the deletion by that (empty) secret, and the gateway refuses the request and keeps the token.\<close>

theorem tokens_not_deletable:
  assumes "admin_page env b" "GetClientTokens None (gw_db g) = Inr ts" "t \<in> set ts"
  shows "gateway_serve env oc (first_request (deleteClientToken (tok_token t) True) b) g =
    (http_error 400 ''missing client_name parameter'', g)"
proof -
  have t: "tok_token t = []" using assms(2,3) by (auto simp: GetClientTokens_def)
  let ?url = "''/api/tokens'' @ CHR ''?'' # ''token='' @ encodeURIComponent []"
  have "first_request (deleteClientToken (tok_token t) True) b = delete_request ?url b"
    by (simp add: first_request_def deleteClientToken_def try_fetch_def fetch_def Let_def t)
  moreover have path: "url_path ?url = Some ''/api/tokens''" "url_query ?url = ''token='' @ encodeURIComponent []"
    using plain_path(2,3) [of "''/api/tokens''" "''token='' @ encodeURIComponent []"] by simp_all
  moreover have "Query_Get (''token='' @ encodeURIComponent []) ''token'' = []"
    "Query_Get (''token='' @ encodeURIComponent []) ''client_name'' = []"
    using Query_Get_encoded(1) [of "''token''" "[]"] Query_Get_encoded(2) [of "''token''" "''client_name''" "[]"] by simp_all
  ultimately show ?thesis
    using serve_admin_page(2) [OF assms(1) path(1) api_paths(8) api_routes(4)]
    by (simp add: handleTokens_def delete_request_def Let_def)
qed

theorem tokens_not_deletable_witness:
  "gateway_serve toy_env toy_outcome
     (first_request (deleteClientToken (tok_token (sample_token\<lparr>tok_token := []\<rparr>)) True) toy_page) token_gateway =
   (http_error 400 ''missing client_name parameter'', token_gateway)"
proof -
  have "GetClientTokens None (gw_db token_gateway) = Inr [sample_token\<lparr>tok_token := []\<rparr>]"
    by (simp add: GetClientTokens_def token_gateway_def sample_token_def)
  then show ?thesis by (rule tokens_not_deletable [OF toy_page_admin]) (simp only: list.set insertI1)
qed

text \<open>Deleting a secret on the page deletes that secret and no other: the gateway removes exactly the key that was
  clicked, whatever characters it has, saves the vault and leaves the tables alone.\<close>

theorem secret_deleted:
  assumes "admin_page env b" "key \<noteq> []" "o_write oc = Written"
    and "gateway_serve env oc (first_request (deleteVaultSecret key True) b) g = (res, g1)"
  shows "res_ok res \<and> gw_db g1 = gw_db g \<and>
    GetSecret k (gw_vault g1) =
      (if k = key then Inl (''secret '' @ key @ '' not found in local vault'') else GetSecret k (gw_vault g))"
proof -
  let ?url = "''/api/vault'' @ CHR ''?'' # ''key='' @ encodeURIComponent key"
  have rq: "first_request (deleteVaultSecret key True) b = delete_request ?url b"
    by (simp add: first_request_def deleteVaultSecret_def try_fetch_def fetch_def Let_def)
  have path: "url_path ?url = Some ''/api/vault''" "url_query ?url = ''key='' @ encodeURIComponent key"
    using plain_path(2,3) [of "''/api/vault''" "''key='' @ encodeURIComponent key"] by simp_all
  moreover have "Query_Get (''key='' @ encodeURIComponent key) ''key'' = key"
    using Query_Get_encoded(1) [of "''key''" key] by simp
  ultimately have "(res, g1) = vault_reply (DeleteSecret (g_vlib env) (o_nonce oc) Written key (gw_vault g))
      ''failed to delete secret'' (http_text env 204) g"
    using serve_admin_page(2) [OF assms(1) path(1) api_paths(10) api_routes(5)] assms(2-4)
    by (simp add: handleVault_def delete_request_def Let_def rq)
  then show ?thesis
    by (auto simp: vault_reply_def DeleteSecret_def saveLocked_def http_text_def res_ok_def GetSecret_def delete_conv')
qed

theorem secret_deleted_witness:
  "GetSecret ''orders_key'' (gw_vault (snd (gateway_serve toy_env toy_outcome
      (first_request (deleteVaultSecret ''orders_key'' True) toy_page) toy_gateway))) =
   Inl ''secret orders_key not found in local vault''"
proof -
  have "o_write toy_outcome = Written" by (simp add: toy_outcome_def)
  from secret_deleted [OF toy_page_admin _ this prod.collapse [symmetric], of "''orders_key''" toy_gateway "''orders_key''"]
  show ?thesis by simp
qed

text \<open>With a metrics token configured, the telemetry page ends the session: the page asks for the metrics with its
  session token, which is not the metrics token, and the interceptor takes the 401 for an expired session, forgets the
  token and reloads the page.\<close>

theorem metrics_token_ends_session:
  assumes "has_session b" "cfg_MetricsToken (g_config env) \<noteq> []" "cfg_MetricsToken (g_config env) \<noteq> st_token (STATE b)"
    and "c = drive loadTelemetry b [(id, respond env oc g (first_request loadTelemetry b))]"
  shows "reloading c \<and> stored c token_key = []"
proof -
  have rq: "first_request loadTelemetry b = get_request ''/metrics'' b"
    using assms(1) by (simp add: first_request_def loadTelemetry_def if_token_def has_session_def try_fetch_def fetch_def Let_def)
  have "go_EqualFold ''Bearer '' ''bearer ''" by code_simp
  then have "status (serve_metrics env oc (get_request ''/metrics'' b)) = 401"
    using assms(1-3) by (simp add: serve_metrics_def metricsAuth_def page_bearer Let_def has_session_def)
  then have "respond env oc g (first_request loadTelemetry b) = AFetch (Resp (serve_metrics env oc (get_request ''/metrics'' b)))"
    by (simp add: respond_def rq gateway_serve_def api_paths get_request_def)
  moreover note \<open>status _ = 401\<close>
  moreover have "rq_url (get_request ''/metrics'' b) = ''/metrics''" by (simp add: get_request_def)
  ultimately show ?thesis
    unfolding assms(4) using assms(1)
    by (simp add: loadTelemetry_def if_token_def has_session_def try_fetch_def fetch_def intercept_def Let_def
        not_login_url res_ok_def load_log_charts_def session_expired_def stored_def token_key_def username_key_def
        del: js_includes.simps)
qed

theorem metrics_token_ends_session_witness:
  "reloading (drive loadTelemetry toy_page [(id, respond toy_env toy_outcome toy_gateway (first_request loadTelemetry toy_page))])"
  using metrics_token_ends_session [of toy_page toy_env, OF _ _ _ refl]
  by (simp add: toy_page_def has_session_def toy_env_def)

text \<open>The settings page always reports single sign-on as disabled, also when the gateway has it configured: the
  gateway does not send the issuer that the page looks for.\<close>

theorem settings_hide_sso:
  assumes "admin_page env b" "gateway_serve env oc (first_request loadSettingsConfig b) g = (res, g1)"
    and "c = drive loadSettingsConfig b [(id, AFetch (Resp res)), (id, AJson (body res))]"
  shows "content (dom c ''settings-oidc-status'') =
    [HtmlNode (''<span class='' @ dq ''badge-status disabled'' @ ''>SSO Disabled</span> (Using default Admin credentials)'')]"
proof -
  have s: "st_token (STATE b) \<noteq> []" using admin_page_session [OF assms(1)] by (simp add: has_session_def)
  then have "first_request loadSettingsConfig b = get_request ''/api/settings'' b"
    by (simp add: first_request_def loadSettingsConfig_def if_token_def try_fetch_def fetch_def Let_def)
  then have "(res, g1) = handleSettings env (get_request ''/api/settings'' b) g"
    using assms(2) serve_admin_page(1) [OF assms(1) api_paths(11,12) api_routes(6)] by simp
  then obtain st where "res = http_json (JSettings st)" "oidc_issuer st = []"
    by (auto simp: handleSettings_def get_request_def Let_def)
  then show ?thesis
    unfolding assms(3) using s
    by (simp add: loadSettingsConfig_def if_token_def try_fetch_def fetch_def intercept_ok http_json_def res_ok_def
        try_json_def Let_def show_settings_def oidc_status_html_def set_innerHTML_def)
qed

theorem settings_hide_sso_witness:
  "content (dom (drive loadSettingsConfig toy_page
      [(id, AFetch (Resp (fst (gateway_serve toy_env toy_outcome (first_request loadSettingsConfig toy_page) toy_gateway)))),
       (id, AJson (body (fst (gateway_serve toy_env toy_outcome (first_request loadSettingsConfig toy_page) toy_gateway))))])
     ''settings-oidc-status'') =
   [HtmlNode (''<span class='' @ dq ''badge-status disabled'' @ ''>SSO Disabled</span> (Using default Admin credentials)'')]"
  by (rule settings_hide_sso [OF toy_page_admin prod.collapse [symmetric] refl])

end
