(* ===== verification/Gateway_Limiter.thy ===== *)
theory Gateway_Limiter
  imports Gateway_Auth Portal_Uri Portal_Double
begin

text \<open>
  The rate limiter in front of all routes, \<^verbatim>\<open>ipRateLimiter\<close> of \<^verbatim>\<open>main.go\<close>: one bucket of tokens per client
  address, refilled with time up to the burst, and a sweeper that forgets buckets that were idle for a while.
  Instants and durations are nanoseconds; \<^verbatim>\<open>float64\<close> arithmetic is rounded as in \<^verbatim>\<open>Portal_Double\<close>. Every method
  holds the lock, so that a run is a sequence of calls. The clock is monotonic.
\<close>

section \<open>Definitions\<close>

record bucket =
  bk_tokens :: rat
  bk_last :: int

record limiter =
  visitors :: "string \<rightharpoonup> bucket"
  lm_rate :: rat
  lm_burst :: rat

definition newIPRateLimiter :: "rat \<Rightarrow> rat \<Rightarrow> limiter" where
  "newIPRateLimiter r b = \<lparr>visitors = Map.empty, lm_rate = r, lm_burst = b\<rparr>"

text \<open>\<^verbatim>\<open>Duration.Seconds\<close>: whole seconds and the fraction are converted on their own and added.\<close>

definition Seconds :: "int \<Rightarrow> rat" where
  "Seconds d = js_add (fl (of_int (d div 10 ^ 9))) (js_div (of_int (d mod 10 ^ 9)) (10 ^ 9))"

definition refill :: "limiter \<Rightarrow> int \<Rightarrow> bucket \<Rightarrow> rat" where
  "refill l t b =
     (let tk = js_add (bk_tokens b) (js_mul (Seconds (t - bk_last b)) (lm_rate l)) in
      if lm_burst l < tk then lm_burst l else tk)"

definition allow :: "int \<Rightarrow> string \<Rightarrow> limiter \<Rightarrow> bool \<times> limiter" where
  "allow t ip l =
     (case visitors l ip of
        None \<Rightarrow> (True, l\<lparr>visitors := (visitors l)(ip \<mapsto> \<lparr>bk_tokens = js_sub (lm_burst l) 1, bk_last = t\<rparr>)\<rparr>)
      | Some b \<Rightarrow>
          (let tk = refill l t b in
           if tk < 1 then (False, l\<lparr>visitors := (visitors l)(ip \<mapsto> \<lparr>bk_tokens = tk, bk_last = t\<rparr>)\<rparr>)
           else (True, l\<lparr>visitors := (visitors l)(ip \<mapsto> \<lparr>bk_tokens = js_sub tk 1, bk_last = t\<rparr>)\<rparr>)))"

text \<open>One round of the sweeper.\<close>

definition sweep :: "int \<Rightarrow> int \<Rightarrow> limiter \<Rightarrow> limiter" where
  "sweep t ttl l =
     l\<lparr>visitors := (\<lambda>ip. case visitors l ip of
         None \<Rightarrow> None | Some b \<Rightarrow> (if bk_last b < t - ttl then None else Some b))\<rparr>"

definition visitorTTL :: int where
  "visitorTTL = 10 * 60 * 10 ^ 9"

definition globalLimiter :: limiter where
  "globalLimiter = newIPRateLimiter 50 100"

text \<open>\<open>hostPart\<close> is the host part of \<^verbatim>\<open>RemoteAddr\<close>, if it has one.\<close>

definition clientIP :: "(string \<Rightarrow> string option) \<Rightarrow> string \<Rightarrow> (string \<times> string) list \<Rightarrow> string" where
  "clientIP hostPart remoteAddr hs =
     (let xff = header_get hs ''X-Forwarded-For'';
          ip = go_TrimSpace (hd (go_Split xff (CHR '','')));
          xri = go_TrimSpace (header_get hs ''X-Real-IP'')
      in if xff \<noteq> [] \<and> ip \<noteq> [] then ip
         else if xri \<noteq> [] then xri
         else case hostPart remoteAddr of Some h \<Rightarrow> h | None \<Rightarrow> remoteAddr)"

text \<open>The middleware: \<open>nxt\<close> is what the handler behind it answers.\<close>

definition rateLimit ::
  "int \<Rightarrow> (string \<Rightarrow> string option) \<Rightarrow> string \<Rightarrow> (string \<times> string) list \<Rightarrow> response \<Rightarrow> limiter \<Rightarrow> response \<times> limiter" where
  "rateLimit t hostPart remoteAddr hs nxt l =
     (let (ok, l') = allow t (clientIP hostPart remoteAddr hs) l in
      (if \<not> ok then \<lparr>status = 429, body = Inl ''rate limit exceeded''\<rparr> else nxt, l'))"

text \<open>The limiter at work: requests of clients, rounds of the sweeper, and time that passes.\<close>

datatype limiter_op = Request string | Round | Wait nat

fun limiter_step :: "limiter_op \<Rightarrow> int \<times> limiter \<Rightarrow> bool \<times> (int \<times> limiter)" where
  "limiter_step (Request ip) (t, l) = (let (ok, l') = allow t ip l in (ok, t, l'))"
| "limiter_step Round (t, l) = (False, t, sweep t visitorTTL l)"
| "limiter_step (Wait n) (t, l) = (False, t + int n, l)"

primrec limiter_run :: "limiter_op list \<Rightarrow> int \<times> limiter \<Rightarrow> int \<times> limiter" where
  "limiter_run [] s = s"
| "limiter_run (x # xs) s = limiter_run xs (snd (limiter_step x s))"

section \<open>Reference notions\<close>

text \<open>How many requests of one address a run lets through, how many there are, and how long the run takes.\<close>

primrec admitted :: "string \<Rightarrow> limiter_op list \<Rightarrow> int \<times> limiter \<Rightarrow> nat" where
  "admitted ip [] s = 0"
| "admitted ip (x # xs) s =
     (if x = Request ip \<and> fst (limiter_step x s) then 1 else 0) + admitted ip xs (snd (limiter_step x s))"

definition attempts :: "string \<Rightarrow> limiter_op list \<Rightarrow> nat" where
  "attempts ip xs = length (filter (\<lambda>x. x = Request ip) xs)"

primrec op_time :: "limiter_op \<Rightarrow> nat" where
  "op_time (Request ip) = 0"
| "op_time Round = 0"
| "op_time (Wait n) = n"

definition elapsed :: "limiter_op list \<Rightarrow> nat" where
  "elapsed xs = sum_list (map op_time xs)"

section \<open>Lemmas\<close>

subsection \<open>Amortized bounds\<close>

text \<open>
  A potential that never gets negative and never exceeds a capacity, that a paid step lowers by what it pays and
  any step raises by at most what it gains: then a run pays at most the capacity and what was gained.
\<close>

locale budget =
  fixes step :: "'op \<Rightarrow> 's \<Rightarrow> 's"
    and valid :: "'s \<Rightarrow> bool"
    and paid :: "'op \<Rightarrow> 's \<Rightarrow> rat"
    and gain :: "'op \<Rightarrow> rat"
    and potential :: "'s \<Rightarrow> rat"
    and capacity :: rat
  assumes valid_step: "valid s \<Longrightarrow> valid (step x s)"
    and potential_bounds: "valid s \<Longrightarrow> 0 \<le> potential s \<and> potential s \<le> capacity"
    and pays: "valid s \<Longrightarrow> paid x s + potential (step x s) \<le> potential s + gain x"
begin

primrec total :: "'op list \<Rightarrow> 's \<Rightarrow> rat" where
  "total [] s = 0"
| "total (x # xs) s = paid x s + total xs (step x s)"

lemma total_bound: "valid s \<Longrightarrow> total xs s \<le> potential s + sum_list (map gain xs)"
proof (induction xs arbitrary: s)
  case Nil
  then show ?case using potential_bounds by simp
next
  case (Cons x xs)
  then show ?case using pays [of s x] Cons.IH [OF valid_step [of s x]] by simp
qed

lemma total_capacity: "valid s \<Longrightarrow> total xs s \<le> capacity + sum_list (map gain xs)"
  using total_bound [of s xs] potential_bounds [of s] by simp

end

subsection \<open>Rounding\<close>

lemma fl_upper: "0 \<le> x \<Longrightarrow> fl x \<le> x * (1 + 1 / 2 ^ 53)"
  using fl_error [of x] by (cases "x = 0") (simp_all only: abs_le_iff, simp_all add: algebra_simps)

lemma Seconds_upper:
  assumes "0 \<le> d"
  shows "0 \<le> Seconds d \<and> Seconds d \<le> of_int d / 10 ^ 9 * (1 + 1 / 2 ^ 53) ^ 2"
proof -
  let ?u = "1 + 1 / 2 ^ 53 :: rat" and ?q = "of_int (d div 10 ^ 9) :: rat" and ?r = "of_int (d mod 10 ^ 9) / 10 ^ 9 :: rat"
  have q: "0 \<le> ?q" and r: "0 \<le> ?r" using assms by (simp_all add: pos_imp_zdiv_nonneg_iff)
  have "of_int d = (of_int (d div 10 ^ 9 * 10 ^ 9 + d mod 10 ^ 9) :: rat)" by simp
  then have d: "of_int d / 10 ^ 9 = ?q + ?r" by (simp only: of_int_add of_int_mult) (simp add: add_divide_distrib)
  have "fl ?q + fl ?r \<le> (?q + ?r) * ?u"
    using fl_upper [OF q] fl_upper [OF r] by (simp only: distrib_right)
  moreover have "fl (fl ?q + fl ?r) \<le> (fl ?q + fl ?r) * ?u"
    using fl_nonneg [OF q] fl_nonneg [OF r] by (intro fl_upper) simp
  moreover have "(fl ?q + fl ?r) * ?u \<le> ((?q + ?r) * ?u) * ?u"
    using calculation(1) by (intro mult_right_mono) simp_all
  ultimately have "fl (fl ?q + fl ?r) \<le> of_int d / 10 ^ 9 * ?u ^ 2"
    unfolding d by (simp only: power2_eq_square mult.assoc)
  moreover have "0 \<le> fl (fl ?q + fl ?r)"
    using fl_nonneg [OF q] fl_nonneg [OF r] by (intro fl_nonneg) simp
  ultimately show ?thesis by (simp add: Seconds_def js_add_def js_div_def)
qed

subsection \<open>Buckets\<close>

text \<open>What a bucket would hold without rounding.\<close>

definition fullness :: "int \<Rightarrow> limiter \<Rightarrow> bucket \<Rightarrow> rat" where
  "fullness t l b = min (lm_burst l) (bk_tokens b + lm_rate l * (of_int (t - bk_last b) / 10 ^ 9))"

definition bucket_ok :: "int \<Rightarrow> limiter \<Rightarrow> bucket \<Rightarrow> bool" where
  "bucket_ok t l b \<longleftrightarrow> 0 \<le> bk_tokens b \<and> bk_tokens b \<le> lm_burst l \<and> bk_last b \<le> t"

lemma fullness_bounds:
  "bucket_ok t l b \<Longrightarrow> 0 \<le> lm_rate l \<Longrightarrow> bk_tokens b \<le> fullness t l b \<and> fullness t l b \<le> lm_burst l"
  by (simp add: bucket_ok_def fullness_def)

lemma refill_bounds:
  assumes "bucket_ok t l b" "0 \<le> lm_rate l"
  shows "0 \<le> refill l t b \<and> refill l t b \<le> lm_burst l \<and> refill l t b \<le> fullness t l b * (1 + 1 / 2 ^ 53) ^ 4"
proof -
  let ?u = "1 + 1 / 2 ^ 53 :: rat" and ?D = "of_int (t - bk_last b) / 10 ^ 9 :: rat" and ?S = "Seconds (t - bk_last b)"
  let ?x = "js_mul ?S (lm_rate l)" and ?s = "bk_tokens b + lm_rate l * (of_int (t - bk_last b) / 10 ^ 9)"
  have b: "0 \<le> bk_tokens b" "bk_tokens b \<le> lm_burst l" "0 \<le> t - bk_last b" using assms(1) by (simp_all add: bucket_ok_def)
  have S: "0 \<le> ?S" "?S \<le> ?D * ?u ^ 2" using Seconds_upper [OF b(3)] by simp_all
  have "?S * lm_rate l \<le> ?D * ?u ^ 2 * lm_rate l" using S(2) assms(2) by (rule mult_right_mono)
  then have "?S * lm_rate l * ?u \<le> ?D * ?u ^ 2 * lm_rate l * ?u" by (rule mult_right_mono) simp
  moreover have "?x \<le> ?S * lm_rate l * ?u" unfolding js_mul_def using S(1) assms(2) by (intro fl_upper) simp
  ultimately have x: "0 \<le> ?x" "?x \<le> lm_rate l * ?D * ?u ^ 3"
    using S(1) assms(2) by (auto simp: js_mul_def fl_nonneg power3_eq_cube power2_eq_square mult_ac)
  have "bk_tokens b * 1 \<le> bk_tokens b * ?u ^ 3" using b(1) by (intro mult_left_mono) simp_all
  with x(2) have "bk_tokens b + ?x \<le> ?s * ?u ^ 3" by (simp only: distrib_right mult_1_right)
  then have "(bk_tokens b + ?x) * ?u \<le> ?s * ?u ^ 3 * ?u" by (rule mult_right_mono) simp
  moreover have "js_add (bk_tokens b) ?x \<le> (bk_tokens b + ?x) * ?u"
    unfolding js_add_def using b(1) x(1) by (intro fl_upper) simp
  ultimately have add: "js_add (bk_tokens b) ?x \<le> ?s * ?u ^ 4" by (simp only: mult.assoc power_Suc2 [symmetric]) simp
  have "lm_burst l * 1 \<le> lm_burst l * ?u ^ 4" using b(1,2) by (intro mult_left_mono) simp_all
  with add b x show ?thesis
    by (auto simp: refill_def Let_def fullness_def min_def js_add_def fl_nonneg)
qed

lemma pay_bounds:
  assumes "1 \<le> x" shows "0 \<le> js_sub x 1 \<and> js_sub x 1 + 1 \<le> x * (1 + 1 / 2 ^ 53)"
  using fl_upper [of "x - 1"] fl_nonneg [of "x - 1"] assms by (simp add: js_sub_def algebra_simps)

lemma small_power: "(1 + 1 / 2 ^ 53) ^ 5 \<le> (1 + 1 / 2 ^ 50 :: rat)"
  by (simp add: power_divide)

lemma fullness_slack:
  assumes "0 \<le> f" "f \<le> b" shows "f * (1 + 1 / 2 ^ 53) ^ 5 \<le> f + b / (2 ^ 50 :: rat)"
proof -
  have "f * (1 + 1 / 2 ^ 53) ^ 5 \<le> f * (1 + 1 / 2 ^ 50)" using small_power assms(1) by (rule mult_left_mono)
  also have "\<dots> \<le> f + b / 2 ^ 50" using assms by (simp add: distrib_left)
  finally show ?thesis .
qed

subsection \<open>The limiter of the gateway\<close>

definition limiter_ok :: "int \<times> limiter \<Rightarrow> bool" where
  "limiter_ok s \<longleftrightarrow>
     lm_rate (snd s) = 50 \<and> lm_burst (snd s) = 100 \<and> (\<forall>ip b. visitors (snd s) ip = Some b \<longrightarrow> bucket_ok (fst s) (snd s) b)"

definition available :: "string \<Rightarrow> int \<times> limiter \<Rightarrow> rat" where
  "available ip s = (case visitors (snd s) ip of None \<Rightarrow> lm_burst (snd s) | Some b \<Rightarrow> fullness (fst s) (snd s) b)"

definition gain :: "string \<Rightarrow> limiter_op \<Rightarrow> rat" where
  "gain ip x = 50 * (of_nat (op_time x) / 10 ^ 9) + (if x = Request ip then 1 / 2 ^ 43 else 0)"

definition admits :: "string \<Rightarrow> limiter_op \<Rightarrow> int \<times> limiter \<Rightarrow> rat" where
  "admits ip x s = (if x = Request ip \<and> fst (limiter_step x s) then 1 else 0)"

lemma limiter_ok_step: "limiter_ok s \<Longrightarrow> limiter_ok (snd (limiter_step x s))"
proof -
  assume ok: "limiter_ok s"
  obtain t l where s: "s = (t, l)" by force
  have r: "lm_rate l = 50" "lm_burst l = 100" and b: "\<And>ip b. visitors l ip = Some b \<Longrightarrow> bucket_ok t l b"
    using ok by (auto simp: s limiter_ok_def)
  show ?thesis
  proof (cases x)
    case (Request ip)
    have "bucket_ok t l \<lparr>bk_tokens = js_sub (lm_burst l) 1, bk_last = t\<rparr>"
      using pay_bounds [of 100] r by (simp add: bucket_ok_def js_sub_def fl_of_int [of 99, simplified])
    moreover have "bucket_ok t l \<lparr>bk_tokens = refill l t c, bk_last = t\<rparr>" "1 \<le> refill l t c \<Longrightarrow> bucket_ok t l \<lparr>bk_tokens = js_sub (refill l t c) 1, bk_last = t\<rparr>"
      if "visitors l ip = Some c" for c
    proof -
      have c: "0 \<le> refill l t c" "refill l t c \<le> 100" using refill_bounds [OF b [OF that]] r by simp_all
      then show "bucket_ok t l \<lparr>bk_tokens = refill l t c, bk_last = t\<rparr>" by (simp add: bucket_ok_def r)
      assume "1 \<le> refill l t c"
      moreover have "js_sub (refill l t c) 1 \<le> 100" using fl_le [of "refill l t c - 1" 100] c by (simp add: js_sub_def)
      ultimately show "bucket_ok t l \<lparr>bk_tokens = js_sub (refill l t c) 1, bk_last = t\<rparr>"
        using pay_bounds [of "refill l t c"] by (simp add: bucket_ok_def r)
    qed
    ultimately show ?thesis
      using r b by (auto simp: s Request limiter_ok_def allow_def bucket_ok_def Let_def not_less split: option.split)
  qed (use r b in \<open>auto simp: s limiter_ok_def sweep_def bucket_ok_def split: option.splits if_splits, fastforce+\<close>)
qed

lemma available_bounds: "limiter_ok s \<Longrightarrow> 0 \<le> available ip s \<and> available ip s \<le> 100"
  using fullness_bounds [of "fst s" "snd s"]
  by (fastforce simp: limiter_ok_def available_def bucket_ok_def split: option.split)

lemma available_step:
  assumes "limiter_ok s"
  shows "admits ip x s + available ip (snd (limiter_step x s)) \<le> available ip s + gain ip x"
proof -
  obtain t l where s: "s = (t, l)" by force
  have r: "lm_rate l = 50" "lm_burst l = 100" and b: "\<And>ip b. visitors l ip = Some b \<Longrightarrow> bucket_ok t l b"
    using assms by (auto simp: s limiter_ok_def)
  show ?thesis
  proof (cases x)
    case (Request i)
    show ?thesis
    proof (cases "i = ip")
      case False
      then show ?thesis
        by (auto simp: s Request admits_def available_def gain_def allow_def fullness_def Let_def split: option.split)
    next
      case True
      show ?thesis
      proof (cases "visitors l ip")
        case None
        have "js_sub 100 1 = (99 :: rat)" by (simp add: js_sub_def fl_of_int [of 99, simplified])
        then show ?thesis
          using None True r by (simp add: s Request admits_def available_def gain_def allow_def fullness_def)
      next
        case (Some c)
        let ?f = "fullness t l c" and ?u = "1 + 1 / 2 ^ 53 :: rat"
        have f: "0 \<le> ?f" "?f \<le> 100" using fullness_bounds [OF b [OF Some]] b [OF Some] r by (auto simp: bucket_ok_def)
        have c: "refill l t c \<le> ?f * ?u ^ 4" "0 \<le> refill l t c" "refill l t c \<le> 100"
          using refill_bounds [OF b [OF Some]] r by simp_all
        have "refill l t c * ?u \<le> ?f * ?u ^ 4 * ?u" using c(1) by (rule mult_right_mono) simp
        then have slack: "refill l t c * ?u \<le> ?f + 1 / 2 ^ 43"
          using fullness_slack [OF f] by (simp only: mult.assoc power_Suc2 [symmetric]) simp
        have "refill l t c * 1 \<le> refill l t c * ?u" using c(2) by (intro mult_left_mono) simp_all
        with slack have deny: "refill l t c \<le> ?f + 1 / 2 ^ 43" by simp
        have pay: "1 + js_sub (refill l t c) 1 \<le> ?f + 1 / 2 ^ 43" if "1 \<le> refill l t c"
          using pay_bounds [OF that] slack by linarith
        have m: "min 100 y \<le> y" for y :: rat by simp
        show ?thesis
          using Some True deny pay m [of "refill l t c"] m [of "js_sub (refill l t c) 1"]
          by (auto simp: s Request admits_def available_def gain_def allow_def fullness_def [of t] r Let_def not_less)
      qed
    qed
  next
    case Round
    have "fullness t l c = 100" if "visitors l ip = Some c" "bk_last c < t - visitorTTL" for c
    proof -
      have "(of_int visitorTTL :: rat) \<le> of_int (t - bk_last c)" using that(2) by (simp only: of_int_le_iff)
      then have "(600 :: rat) \<le> of_int (t - bk_last c) / 10 ^ 9" by (simp add: visitorTTL_def)
      moreover have "0 \<le> bk_tokens c" using b [OF that(1)] by (simp add: bucket_ok_def)
      ultimately have "100 \<le> bk_tokens c + 50 * (of_int (t - bk_last c) / 10 ^ 9)" by linarith
      then show ?thesis unfolding fullness_def r by (rule min_absorb1)
    qed
    then show ?thesis
      by (auto simp: s Round admits_def available_def gain_def sweep_def r fullness_def split: option.split)
  next
    case (Wait n)
    have "min 100 (tk + 50 * (of_int (t + int n - la) / 10 ^ 9)) \<le> min 100 (tk + 50 * (of_int (t - la) / 10 ^ 9)) + 50 * (of_nat n / 10 ^ 9)"
      for tk :: rat and la
      by (auto simp: min_def add_divide_distrib diff_divide_distrib algebra_simps)
    then show ?thesis
      by (auto simp: s Wait admits_def available_def gain_def fullness_def r split: option.split)
  qed
qed

interpretation bucket: budget "\<lambda>x s. snd (limiter_step x s)" limiter_ok "admits ip" "gain ip" "available ip" 100 for ip
  by unfold_locales (simp_all add: limiter_ok_step available_bounds available_step)

lemma admitted_total: "of_nat (admitted ip xs s) = bucket.total ip xs s"
  by (induction xs arbitrary: s) (auto simp: admits_def)

lemma gain_total: "sum_list (map (gain ip) xs) = 50 * (of_nat (elapsed xs) / 10 ^ 9) + of_nat (attempts ip xs) / 2 ^ 43"
  by (induction xs) (simp_all add: gain_def elapsed_def attempts_def add_divide_distrib distrib_left)

lemma limiter_run_ok: "limiter_ok s \<Longrightarrow> limiter_ok (limiter_run xs s)"
  by (induction xs arbitrary: s) (simp_all add: limiter_ok_step)

lemma globalLimiter_ok: "limiter_ok (t, globalLimiter)"
  by (simp add: limiter_ok_def globalLimiter_def newIPRateLimiter_def)

text \<open>Requests from addresses the limiter does not know are let through.\<close>

lemma fresh_addresses:
  "distinct ips \<Longrightarrow> \<forall>ip \<in> set ips. visitors l ip = None \<Longrightarrow>
   outputs limiter_step (t, l) (map Request ips) = replicate (length ips) True"
proof (induction ips arbitrary: l)
  case (Cons ip ips)
  then have "outputs limiter_step (t, snd (allow t ip l)) (map Request ips) = replicate (length ips) True"
    by (intro Cons.IH) (auto simp: allow_def)
  with Cons.prems show ?case by (simp add: allow_def)
qed simp

lemma forwarded_address:
  assumes "f \<noteq> []" "CHR '','' \<notin> set f" "\<not> js_space (hd f)" "\<not> js_space (last f)"
  shows "clientIP hostPart remoteAddr [(''X-Forwarded-For'', f)] = f"
proof -
  have "go_EqualFold ''X-Forwarded-For'' ''X-Forwarded-For''" by code_simp
  then show ?thesis
    using assms js_split_no_delim [of "CHR '',''" f] go_TrimSpace_id [of f]
    by (simp add: clientIP_def header_get_def go_Split_def)
qed

section \<open>Properties\<close>

text \<open>C15: The rate limit holds: in any stretch of any run, however requests, sweeps and pauses alternate, the limiter
  lets through at most 100 requests of one address plus 50 for every second that passes, up to a rounding error of
  \<^term>\<open>1 / 2 ^ 43 :: rat\<close> per request. The sweeper does not weaken the limit.\<close>

theorem rate_limit_holds:
  "of_nat (admitted ip xs (limiter_run ys (t, globalLimiter))) \<le>
     (100 + 50 * (of_nat (elapsed xs) / 10 ^ 9) + of_nat (attempts ip xs) / 2 ^ 43 :: rat)"
  using bucket.total_capacity [OF limiter_run_ok [OF globalLimiter_ok], of ip xs ys t]
  by (simp add: admitted_total gain_total)

text \<open>The limit can be evaded: the address is taken from the header \<^verbatim>\<open>X-Forwarded-For\<close>, which the client chooses; any
  number of requests at one instant are let through if their headers differ.\<close>

theorem forwarded_for_evades_limit:
  assumes "distinct fs" "list_all (\<lambda>f. f \<noteq> [] \<and> CHR '','' \<notin> set f \<and> \<not> js_space (hd f) \<and> \<not> js_space (last f)) fs"
  shows "outputs limiter_step (t, globalLimiter)
      (map (\<lambda>f. Request (clientIP hostPart remoteAddr [(''X-Forwarded-For'', f)])) fs) = replicate (length fs) True"
proof -
  have eq: "map (\<lambda>f. Request (clientIP hostPart remoteAddr [(''X-Forwarded-For'', f)])) fs = map Request fs"
    using assms(2) by (auto simp: list_all_iff forwarded_address)
  show ?thesis unfolding eq
    by (rule fresh_addresses [OF assms(1)]) (simp add: globalLimiter_def newIPRateLimiter_def)
qed

end
