(* ===== verification/Gateway_Egress.thy ===== *)
theory Gateway_Egress
  imports Gateway_Prelude "HOL-Library.Word"
begin

text \<open>
  Where the gateway may connect to, \<^verbatim>\<open>pkg/gateway/client.go\<close>: the addresses that are never reachable, the check of a
  URL before a call, and the check of the address at the moment a connection is made. An address of \<^verbatim>\<open>netip\<close> is a word
  of 32 or of 128 bits. The answers of name resolution are an argument, asked anew each time: an answer at the moment of
  dialling has nothing to do with the one that the URL was checked with.
\<close>

section \<open>Definitions\<close>

subsection \<open>Addresses\<close>

datatype addr = V4 "32 word" | V6 "128 word"

text \<open>The methods of \<^verbatim>\<open>netip.Addr\<close>; \<open>v4_byte\<close> numbers the bytes of an address of the fourth version from the left, \<open>v6_word\<close>
  the groups of 16 bits of one of the sixth.\<close>

definition v4_byte :: "32 word \<Rightarrow> nat \<Rightarrow> nat" where
  "v4_byte a i = unat (drop_bit (24 - 8 * i) a) mod 256"

definition v6_group :: "128 word \<Rightarrow> nat \<Rightarrow> nat" where
  "v6_group a i = unat (drop_bit (112 - 16 * i) a) mod 65536"

fun Unmap :: "addr \<Rightarrow> addr" where
  "Unmap (V4 a) = V4 a"
| "Unmap (V6 a) = (if drop_bit 32 a = 0xFFFF then V4 (ucast a) else V6 a)"

fun IsLoopback :: "addr \<Rightarrow> bool" where
  "IsLoopback (V4 a) = (v4_byte a 0 = 127)"
| "IsLoopback (V6 a) = (a = 1)"

fun IsPrivate :: "addr \<Rightarrow> bool" where
  "IsPrivate (V4 a) =
     (v4_byte a 0 = 10 \<or> (v4_byte a 0 = 172 \<and> v4_byte a 1 div 16 = 1) \<or> (v4_byte a 0 = 192 \<and> v4_byte a 1 = 168))"
| "IsPrivate (V6 a) = (v6_group a 0 div 512 = 0x7E)"

fun IsLinkLocalUnicast :: "addr \<Rightarrow> bool" where
  "IsLinkLocalUnicast (V4 a) = (v4_byte a 0 = 169 \<and> v4_byte a 1 = 254)"
| "IsLinkLocalUnicast (V6 a) = (v6_group a 0 div 64 = 0x3FA)"

fun IsLinkLocalMulticast :: "addr \<Rightarrow> bool" where
  "IsLinkLocalMulticast (V4 a) = (v4_byte a 0 = 224 \<and> v4_byte a 1 = 0 \<and> v4_byte a 2 = 0)"
| "IsLinkLocalMulticast (V6 a) = (v6_group a 0 div 256 = 0xFF \<and> v6_group a 0 mod 16 = 2)"

fun IsUnspecified :: "addr \<Rightarrow> bool" where
  "IsUnspecified (V4 a) = (a = 0)"
| "IsUnspecified (V6 a) = (a = 0)"

definition isDisallowedIP :: "addr \<Rightarrow> bool" where
  "isDisallowedIP a =
     (let a = Unmap a in
      IsLoopback a \<or> IsPrivate a \<or> IsLinkLocalUnicast a \<or> IsLinkLocalMulticast a \<or> IsUnspecified a)"

subsection \<open>The policy\<close>

record EgressPolicy =
  Allowlist :: "string list"
  AllowPrivate :: bool

text \<open>A parsed URL: what \<^verbatim>\<open>Hostname()\<close> gives, the address with its port that the transport dials, and the parts that are
  not looked at.\<close>

record url =
  u_scheme :: string
  u_hostname :: string
  u_addr :: string
  u_path :: string
  u_rawquery :: string

datatype egress_error =
    BadScheme string
  | EmptyHost
  | NotAllowlisted string
  | Unresolved string string
  | NonPublic addr string
  | NoAddresses string
  | BadAddress string

type_synonym resolver = "string \<Rightarrow> string + addr list"

definition validateEgress :: "EgressPolicy \<Rightarrow> resolver \<Rightarrow> url \<Rightarrow> egress_error + unit" where
  "validateEgress pol LookupIP u =
     (if u_scheme u \<noteq> ''http'' \<and> u_scheme u \<noteq> ''https'' then Inl (BadScheme (u_scheme u))
      else let host = u_hostname u in
      if host = [] then Inl EmptyHost
      else if 0 < length (Allowlist pol) \<and> \<not> list_ex (\<lambda>h. go_EqualFold h host) (Allowlist pol)
      then Inl (NotAllowlisted host)
      else if AllowPrivate pol then Inr ()
      else case LookupIP host of
             Inl e \<Rightarrow> Inl (Unresolved host e)
           | Inr ips \<Rightarrow>
               (case find isDisallowedIP ips of Some a \<Rightarrow> Inl (NonPublic (Unmap a) host) | None \<Rightarrow> Inr ()))"

subsection \<open>Dialling\<close>

text \<open>\<^verbatim>\<open>net.SplitHostPort\<close> and \<^verbatim>\<open>netip.ParseAddr\<close>.\<close>

record net_lib =
  nl_split :: "string \<Rightarrow> string + string \<times> string"
  nl_parse_addr :: "string \<Rightarrow> addr option"

text \<open>What is connected to: a name that the dialer resolves itself, or an address.\<close>

datatype target = ByName string | ByAddr addr string

definition DialContext :: "EgressPolicy \<Rightarrow> net_lib \<Rightarrow> resolver \<Rightarrow> string \<Rightarrow> egress_error + target" where
  "DialContext pol lib LookupNetIP ad =
     (case nl_split lib ad of
        Inl e \<Rightarrow> Inl (BadAddress e)
      | Inr (host, port) \<Rightarrow>
          if AllowPrivate pol then Inr (ByName ad)
          else case nl_parse_addr lib host of
                 Some ip \<Rightarrow> (if isDisallowedIP ip then Inl (NonPublic (Unmap ip) host) else Inr (ByAddr ip port))
               | None \<Rightarrow>
                   (case LookupNetIP host of
                      Inl e \<Rightarrow> Inl (Unresolved host e)
                    | Inr ips \<Rightarrow>
                        if length ips = 0 then Inl (NoAddresses host)
                        else (case find isDisallowedIP ips of
                                Some a \<Rightarrow> Inl (NonPublic (Unmap a) host)
                              | None \<Rightarrow> Inr (ByAddr (hd ips) port))))"

section \<open>Reference notions\<close>

text \<open>A block of addresses in the notation of CIDR: those that agree with its first address in all but the last \<open>n\<close> bits.\<close>

definition in_block :: "nat \<Rightarrow> nat \<Rightarrow> nat \<Rightarrow> bool" where
  "in_block base n x \<longleftrightarrow> base \<le> x \<and> x < base + 2 ^ n"

definition private_blocks_v4 :: "(nat \<times> nat) list" where
  "private_blocks_v4 =
     [(0x7F000000, 24), (0x0A000000, 24), (0xAC100000, 20), (0xC0A80000, 16), (0xA9FE0000, 16), (0xE0000000, 8), (0, 0)]"

definition private_blocks_v6 :: "(nat \<times> nat) list" where
  "private_blocks_v6 = [(1, 0), (0xFC * 2 ^ 120, 121), (0xFE8 * 2 ^ 116, 118), (0, 0)]"

fun in_private_block :: "addr \<Rightarrow> bool" where
  "in_private_block (V4 a) = list_ex (\<lambda>(b, n). in_block b n (unat a)) private_blocks_v4"
| "in_private_block (V6 a) =
     (list_ex (\<lambda>(b, n). in_block b n (unat a)) private_blocks_v6 \<or>
      list_ex (\<lambda>f. in_block ((0xFF02 + 16 * f) * 2 ^ 112) 112 (unat a)) [0..<16] \<or>
      (in_block (0xFFFF * 2 ^ 32) 32 (unat a) \<and>
       list_ex (\<lambda>(b, n). in_block b n (unat a - 0xFFFF * 2 ^ 32)) private_blocks_v4))"

fun public_target :: "EgressPolicy \<Rightarrow> target \<Rightarrow> bool" where
  "public_target pol (ByName n) \<longleftrightarrow> AllowPrivate pol"
| "public_target pol (ByAddr a p) \<longleftrightarrow> \<not> in_private_block a"

section \<open>Lemmas\<close>

lemma div_block: "0 < d \<Longrightarrow> x div d = c \<longleftrightarrow> c * d \<le> x \<and> x < c * d + (d :: nat)"
  by (metis add.commute div_nat_eqI div_times_less_eq_dividend dividend_less_div_times mult.commute mult_Suc)

lemma in_block_div: "x div 2 ^ n = c \<longleftrightarrow> in_block (c * 2 ^ n) n x"
  by (simp add: in_block_def div_block)

lemma div_mod_digits: "b < m \<Longrightarrow> q div m = a \<and> q mod m = b \<longleftrightarrow> q = a * m + (b :: nat)"
  by (metis add.commute add.right_neutral div_less div_mult_mod_eq div_mult_self1 less_nat_zero_code mod_less mod_mult_self1
      gr_implies_not0)

lemma unat_drop: "unat (drop_bit n (w :: 'a :: len word)) = unat w div 2 ^ n"
  by (subst unat_drop_bit_eq) (simp add: drop_bit_eq_div)

text \<open>The bytes and groups of an address in terms of its number.\<close>

lemma v4_bytes:
  "v4_byte a 0 = unat a div 2 ^ 24" "v4_byte a (Suc 0) = unat a div 2 ^ 16 mod 256" "v4_byte a 2 = unat a div 2 ^ 8 mod 256"
proof -
  have "unat a < 2 ^ 32" using unsigned_less [of a] by simp
  then have "unat a div 2 ^ 24 < 256" by (simp add: less_mult_imp_div_less)
  then show "v4_byte a 0 = unat a div 2 ^ 24" by (simp add: v4_byte_def unat_drop)
qed (simp_all add: v4_byte_def unat_drop)

lemma v6_group_0: "v6_group a 0 = unat a div 2 ^ 112"
proof -
  have "unat a < 2 ^ 128" using unsigned_less [of a] by simp
  then have "unat a div 2 ^ 112 < 65536" by (simp add: less_mult_imp_div_less)
  then show ?thesis by (simp add: v6_group_def unat_drop)
qed

lemma disallowed_v4:
  "IsLoopback (V4 a) \<longleftrightarrow> in_block 0x7F000000 24 (unat a)"
  "IsPrivate (V4 a) \<longleftrightarrow>
     in_block 0x0A000000 24 (unat a) \<or> in_block 0xAC100000 20 (unat a) \<or> in_block 0xC0A80000 16 (unat a)"
  "IsLinkLocalUnicast (V4 a) \<longleftrightarrow> in_block 0xA9FE0000 16 (unat a)"
  "IsLinkLocalMulticast (V4 a) \<longleftrightarrow> in_block 0xE0000000 8 (unat a)"
  "IsUnspecified (V4 a) \<longleftrightarrow> in_block 0 0 (unat a)"
proof -
  let ?x = "unat a"
  have p16: "?x div 2 ^ 24 = i \<and> ?x div 2 ^ 16 mod 256 = j \<longleftrightarrow> ?x div 2 ^ 16 = i * 256 + j" if "j < 256" for i j
    using div_mod_digits [OF that, of "?x div 2 ^ 16" i] by (simp add: div_mult2_eq [symmetric])
  have p20: "?x div 2 ^ 24 = i \<and> ?x div 2 ^ 20 mod 16 = j \<longleftrightarrow> ?x div 2 ^ 20 = i * 16 + j" if "j < 16" for i j
    using div_mod_digits [OF that, of "?x div 2 ^ 20" i] by (simp add: div_mult2_eq [symmetric])
  have p8: "?x div 2 ^ 16 = i \<and> ?x div 2 ^ 8 mod 256 = j \<longleftrightarrow> ?x div 2 ^ 8 = i * 256 + j" if "j < 256" for i j
    using div_mod_digits [OF that, of "?x div 2 ^ 8" i] by (simp add: div_mult2_eq [symmetric])
  have n: "?x div 2 ^ 16 mod 256 div 16 = ?x div 2 ^ 20 mod 16"
    using div_mult2_eq [of ?x "2 ^ 16" 16] mod_mult2_eq [of "?x div 2 ^ 16" 16 16] by simp
  show "IsLoopback (V4 a) \<longleftrightarrow> in_block 0x7F000000 24 ?x"
    using in_block_div [of ?x 24 127] by (simp add: v4_bytes)
  show "IsPrivate (V4 a) \<longleftrightarrow> in_block 0x0A000000 24 ?x \<or> in_block 0xAC100000 20 ?x \<or> in_block 0xC0A80000 16 ?x"
    using in_block_div [of ?x 24 10] in_block_div [of ?x 20 "172 * 16 + 1"] in_block_div [of ?x 16 "192 * 256 + 168"]
      p16 [of 168 192] p20 [of 1 172] n by (simp add: v4_bytes)
  show "IsLinkLocalUnicast (V4 a) \<longleftrightarrow> in_block 0xA9FE0000 16 ?x"
    using in_block_div [of ?x 16 "169 * 256 + 254"] p16 [of 254 169] by (simp add: v4_bytes)
  show "IsLinkLocalMulticast (V4 a) \<longleftrightarrow> in_block 0xE0000000 8 ?x"
    using in_block_div [of ?x 8 "(224 * 256 + 0) * 256 + 0"] p16 [of 0 224] p8 [of 0 "224 * 256 + 0"]
    by (simp add: v4_bytes conj_assoc [symmetric])
  show "IsUnspecified (V4 a) \<longleftrightarrow> in_block 0 0 ?x"
    by (simp add: in_block_def unat_eq_0)
qed

lemma disallowed_v6:
  "IsLoopback (V6 a) \<longleftrightarrow> in_block 1 0 (unat a)"
  "IsPrivate (V6 a) \<longleftrightarrow> in_block (0xFC * 2 ^ 120) 121 (unat a)"
  "IsLinkLocalUnicast (V6 a) \<longleftrightarrow> in_block (0xFE8 * 2 ^ 116) 118 (unat a)"
  "IsLinkLocalMulticast (V6 a) \<longleftrightarrow> list_ex (\<lambda>f. in_block ((0xFF02 + 16 * f) * 2 ^ 112) 112 (unat a)) [0..<16]"
  "IsUnspecified (V6 a) \<longleftrightarrow> in_block 0 0 (unat a)"
proof -
  let ?x = "unat a"
  show "IsLoopback (V6 a) \<longleftrightarrow> in_block 1 0 ?x"
    by (auto simp: in_block_def word_unat_eq_iff)
  show "IsPrivate (V6 a) \<longleftrightarrow> in_block (0xFC * 2 ^ 120) 121 ?x"
    using in_block_div [of ?x 121 "0x7E"] div_mult2_eq [of ?x "2 ^ 112" 512] by (simp add: v6_group_0)
  show "IsLinkLocalUnicast (V6 a) \<longleftrightarrow> in_block (0xFE8 * 2 ^ 116) 118 ?x"
    using in_block_div [of ?x 118 "0x3FA"] div_mult2_eq [of ?x "2 ^ 112" 64] by (simp add: v6_group_0)
  have "g div 256 = 0xFF \<and> g mod 16 = 2 \<longleftrightarrow> (\<exists>f \<in> {0..<16}. g = 0xFF02 + 16 * f)" for g :: nat
  proof -
    have "g div 256 = 0xFF \<longleftrightarrow> 65280 \<le> g \<and> g < 65536" using div_block [of 256 g 255] by simp
    moreover have "65280 \<le> g \<and> g < 65536 \<and> g mod 16 = 2 \<longleftrightarrow> (\<exists>f. f < 16 \<and> g = 65282 + 16 * f)" by presburger
    ultimately show ?thesis by auto
  qed
  then show "IsLinkLocalMulticast (V6 a) \<longleftrightarrow> list_ex (\<lambda>f. in_block ((0xFF02 + 16 * f) * 2 ^ 112) 112 ?x) [0..<16]"
    by (simp only: IsLinkLocalMulticast.simps v6_group_0 in_block_div [symmetric] list_ex_iff set_upt)
  show "IsUnspecified (V6 a) \<longleftrightarrow> in_block 0 0 ?x"
    by (simp add: in_block_def unat_eq_0)
qed

lemma mapped_v6:
  "drop_bit 32 (a :: 128 word) = 0xFFFF \<longleftrightarrow> in_block (0xFFFF * 2 ^ 32) 32 (unat a)"
  "in_block (0xFFFF * 2 ^ 32) 32 (unat a) \<Longrightarrow> unat (ucast a :: 32 word) = unat a - 0xFFFF * 2 ^ 32"
proof -
  show "drop_bit 32 (a :: 128 word) = 0xFFFF \<longleftrightarrow> in_block (0xFFFF * 2 ^ 32) 32 (unat a)"
    unfolding in_block_div [symmetric] unat_drop [symmetric] by (simp add: word_unat_eq_iff)
  have "unat (ucast a :: 32 word) = unat a mod 2 ^ 32"
    by (simp add: unsigned_ucast_eq take_bit_eq_mod)
  moreover assume "in_block (0xFFFF * 2 ^ 32) 32 (unat a)"
  then have "unat a div 2 ^ 32 = 0xFFFF" by (simp only: in_block_div)
  ultimately show "unat (ucast a :: 32 word) = unat a - 0xFFFF * 2 ^ 32"
    using minus_div_mult_eq_mod [of "unat a" "2 ^ 32"] by (simp add: mult.commute)
qed

lemmas disallowed_blocks = disallowed_v4 disallowed_v6

lemma isDisallowedIP_blocks: "isDisallowedIP a \<longleftrightarrow> in_private_block a"
proof -
  have v4: "isDisallowedIP (V4 b) \<longleftrightarrow> in_private_block (V4 b)" for b
    unfolding isDisallowedIP_def Let_def Unmap.simps disallowed_v4 private_blocks_v4_def in_private_block.simps list_ex_Nil_iff list_ex_Cons_iff
      prod.case by blast
  show ?thesis
  proof (cases a)
    case (V6 b)
    show ?thesis
    proof (cases "in_block (0xFFFF * 2 ^ 32) 32 (unat b)")
      case True
      then have "\<not> list_ex (\<lambda>(c, n). in_block c n (unat b)) private_blocks_v6"
        "\<not> list_ex (\<lambda>f. in_block ((0xFF02 + 16 * f) * 2 ^ 112) 112 (unat b)) [0..<16]"
        by (simp_all add: private_blocks_v6_def in_block_def list_ex_iff)
      moreover have "isDisallowedIP a \<longleftrightarrow> isDisallowedIP (V4 (ucast b))"
        using True by (simp add: V6 isDisallowedIP_def mapped_v6(1))
      ultimately show ?thesis
        using True by (simp add: V6 v4 mapped_v6(2))
    next
      case False
      then have "isDisallowedIP a \<longleftrightarrow> IsLoopback a \<or> IsPrivate a \<or> IsLinkLocalUnicast a \<or> IsLinkLocalMulticast a \<or> IsUnspecified a"
        by (simp add: V6 isDisallowedIP_def mapped_v6(1))
      with False show ?thesis
        unfolding V6 disallowed_v6 private_blocks_v6_def in_private_block.simps list_ex_Nil_iff list_ex_Cons_iff prod.case by blast
    qed
  qed (simp add: v4 del: in_private_block.simps)
qed

lemma DialContext_public: "DialContext pol lib look ad = Inr t \<Longrightarrow> public_target pol t"
  by (auto simp: DialContext_def isDisallowedIP_blocks find_None_iff split: sum.splits if_splits option.splits)

lemma validateEgress_allowed:
  assumes "validateEgress pol look u = Inr ()"
  shows "u_scheme u \<in> {''http'', ''https''}" "u_hostname u \<noteq> []"
    "Allowlist pol = [] \<or> list_ex (\<lambda>h. go_EqualFold h (u_hostname u)) (Allowlist pol)"
  using assms by (auto simp: validateEgress_def Let_def split: if_splits)

text \<open>The address 100.100.100.200, where one provider of cloud servers keeps their metadata, lies in a shared block that is
  not among those that are refused.\<close>

lemma shared_block_reachable: "\<not> isDisallowedIP (V4 0x646464C8)"
  by (simp add: isDisallowedIP_blocks private_blocks_v4_def in_block_def)

section \<open>Properties\<close>

text \<open>The addresses that may not be called are exactly the blocks meant: the loopback, private, link-local and
  unspecified addresses of both versions, and the addresses of the sixth version that stand for such an address of the
  fourth.\<close>

theorem disallowed_blocks_exact: "isDisallowedIP a \<longleftrightarrow> in_private_block a"
  by (rule isDisallowedIP_blocks)

text \<open>No connection is made to an internal address, whatever name resolution answers at the moment of dialling, and even
  when it answered something else when the URL was checked: a connection is refused, or made to an address outside the
  private blocks, unless the policy permits them.\<close>

theorem dial_only_public:
  assumes "DialContext pol lib look ad = Inr t"
  shows "public_target pol t"
  using assms by (rule DialContext_public)

definition sample_net :: net_lib where
  "sample_net =
     \<lparr>nl_split = (\<lambda>s. case go_SplitN2 s (CHR '':'') of [h, p] \<Rightarrow> Inr (h, p) | _ \<Rightarrow> Inl ''missing port in address''),
      nl_parse_addr = (\<lambda>s. if s = ''8.8.8.8'' then Some (V4 0x08080808) else None)\<rparr>"

definition sample_policy :: EgressPolicy where
  "sample_policy = \<lparr>Allowlist = [''api.example''], AllowPrivate = False\<rparr>"

theorem dial_only_public_witness: "public_target sample_policy (ByAddr (V4 0x08080404) ''443'')"
  by (rule dial_only_public [of sample_policy sample_net "\<lambda>h. Inr [V4 0x08080404]" "''api.example:443''"]) code_simp

end
