(* ===== verification/Gateway_Base64.thy ===== *)
theory Gateway_Base64
  imports Portal_Prelude
begin

text \<open>
  What the gateway uses of Go's package \<^verbatim>\<open>encoding/base64\<close>: the padded standard encoding (basic authentication, the
  database vault) and the unpadded encoding for URLs (the numbers of a signing key), with the big-endian number that
  \<^verbatim>\<open>big.Int.SetBytes\<close> reads.
\<close>

section \<open>Definitions\<close>

datatype encoding = StdEncoding | RawURLEncoding

definition alphabet :: "encoding \<Rightarrow> string" where
  "alphabet e = ''ABCDEFGHIJKLMNOPQRSTUVWXYZabcdefghijklmnopqrstuvwxyz0123456789'' @
     (case e of StdEncoding \<Rightarrow> ''+/'' | RawURLEncoding \<Rightarrow> ''-_'')"

definition encode_sextet :: "encoding \<Rightarrow> nat \<Rightarrow> char" where
  "encode_sextet e n = alphabet e ! n"

definition decode_sextet :: "encoding \<Rightarrow> char \<Rightarrow> nat option" where
  "decode_sextet e c = map_of (zip (alphabet e) [0..<64]) c"

definition pad :: "encoding \<Rightarrow> nat \<Rightarrow> string" where
  "pad e n = (case e of StdEncoding \<Rightarrow> replicate n (CHR ''='') | RawURLEncoding \<Rightarrow> [])"

fun encode_bytes :: "encoding \<Rightarrow> nat list \<Rightarrow> string" where
  "encode_bytes e [] = []"
| "encode_bytes e [a] = map (encode_sextet e) [a div 4, a mod 4 * 16] @ pad e 2"
| "encode_bytes e [a, b] = map (encode_sextet e) [a div 4, a mod 4 * 16 + b div 16, b mod 16 * 4] @ pad e 1"
| "encode_bytes e (a # b # c # bs) =
     map (encode_sextet e) [a div 4, a mod 4 * 16 + b div 16, b mod 16 * 4 + c div 64, c mod 64] @ encode_bytes e bs"

definition EncodeToString :: "encoding \<Rightarrow> string \<Rightarrow> string" where
  "EncodeToString e s = encode_bytes e (map of_char s)"

text \<open>Two or three sextets at the end give one or two bytes; bits that are left over are not looked at. With padding the
  missing characters must be there, without it they must not.\<close>

definition tail_bytes :: "encoding \<Rightarrow> string \<Rightarrow> nat list option" where
  "tail_bytes e s =
     (case map (decode_sextet e) s of
        [Some w, Some x] \<Rightarrow> Some [w * 4 + x div 16]
      | [Some w, Some x, Some y] \<Rightarrow> Some [w * 4 + x div 16, x mod 16 * 16 + y div 4]
      | _ \<Rightarrow> None)"

fun decode_bytes :: "encoding \<Rightarrow> string \<Rightarrow> nat list option" where
  "decode_bytes e (p # q # r # t # s) =
     (case (decode_sextet e p, decode_sextet e q, decode_sextet e r, decode_sextet e t) of
        (Some w, Some x, Some y, Some z) \<Rightarrow>
          map_option (\<lambda>bs. (w * 4 + x div 16) # (x mod 16 * 16 + y div 4) # (y mod 4 * 64 + z) # bs) (decode_bytes e s)
      | _ \<Rightarrow>
          if e = StdEncoding \<and> s = [] then
            (if r = CHR ''='' \<and> t = CHR ''='' then tail_bytes e [p, q]
             else if t = CHR ''='' then tail_bytes e [p, q, r] else None)
          else None)"
| "decode_bytes e [] = Some []"
| "decode_bytes e s = (if e = StdEncoding then None else tail_bytes e s)"

text \<open>Line breaks are skipped wherever they stand.\<close>

definition DecodeString :: "encoding \<Rightarrow> string \<Rightarrow> string option" where
  "DecodeString e s =
     map_option (map char_of) (decode_bytes e (filter (\<lambda>c. c \<noteq> char_of (10 :: nat) \<and> c \<noteq> char_of (13 :: nat)) s))"

definition SetBytes :: "string \<Rightarrow> int" where
  "SetBytes s = foldl (\<lambda>n c. 256 * n + of_char c) 0 s"

section \<open>Lemmas\<close>

lemma alphabet_props: "length (alphabet e) = 64" "distinct (alphabet e)" "CHR ''='' \<notin> set (alphabet e)"
  "char_of (10 :: nat) \<notin> set (alphabet e)" "char_of (13 :: nat) \<notin> set (alphabet e)"
  by (cases e; simp add: alphabet_def; fail | cases e; code_simp)+

lemma decode_encode_sextet [simp]: "n < 64 \<Longrightarrow> decode_sextet e (encode_sextet e n) = Some n"
  using alphabet_props(1,2) [of e] map_of_zip_nth [of "alphabet e" "[0..<64]" n]
  by (simp add: decode_sextet_def encode_sextet_def)

lemma decode_sextet_pad [simp]: "decode_sextet e (CHR ''='') = None"
  using alphabet_props(1,3) [of e] by (simp add: decode_sextet_def)

lemma encode_sextet_mem: "n < 64 \<Longrightarrow> encode_sextet e n \<in> set (alphabet e)"
  using alphabet_props(1) [of e] by (simp add: encode_sextet_def)

lemma encode_sextet_not_pad [simp]: "n < 64 \<Longrightarrow> encode_sextet e n \<noteq> CHR ''=''"
  using encode_sextet_mem alphabet_props(3) by metis

lemma sextet_bounds:
  fixes a b c :: nat
  shows "a < 256 \<Longrightarrow> a div 4 < 64" "b < 256 \<Longrightarrow> a mod 4 * 16 + b div 16 < 64" "c < 256 \<Longrightarrow> b mod 16 * 4 + c div 64 < 64"
    "a mod 4 * 16 < 64" "b mod 16 * 4 < 64"
proof -
  have m: "a mod 4 < 4" "b mod 16 < 16" by simp_all
  then show "a mod 4 * 16 < 64" "b mod 16 * 4 < 64" by linarith+
  show "a div 4 < 64" if "a < 256" using that by (simp add: less_mult_imp_div_less)
  show "a mod 4 * 16 + b div 16 < 64" if "b < 256"
    using m less_mult_imp_div_less [of b 16 16] that by linarith
  show "b mod 16 * 4 + c div 64 < 64" if "c < 256"
    using m less_mult_imp_div_less [of c 4 64] that by linarith
qed

lemma sextet_join:
  fixes x y z k :: nat
  shows "y < k \<Longrightarrow> (x * k + y) div k = x" "y < k \<Longrightarrow> (x * k + y) mod k = y"
  by simp_all

lemma bytes_join:
  fixes a b c :: nat
  shows "b < 256 \<Longrightarrow> a div 4 * 4 + (a mod 4 * 16 + b div 16) div 16 = a"
    "b < 256 \<Longrightarrow> c < 256 \<Longrightarrow> (a mod 4 * 16 + b div 16) mod 16 * 16 + (b mod 16 * 4 + c div 64) div 4 = b"
    "c < 256 \<Longrightarrow> (b mod 16 * 4 + c div 64) mod 4 * 64 + c mod 64 = c"
    "b < 256 \<Longrightarrow> (a mod 4 * 16 + b div 16) mod 16 * 16 + b mod 16 * 4 div 4 = b"
  using less_mult_imp_div_less [of b 16 16] less_mult_imp_div_less [of c 4 64] by (simp_all add: sextet_join)

lemma decode_encode_bytes: "\<forall>b \<in> set bs. b < 256 \<Longrightarrow> decode_bytes e (encode_bytes e bs) = Some bs"
proof (induction e bs rule: encode_bytes.induct)
  case (2 e a)
  then show ?case
    using sextet_bounds(1,4) [of a] bytes_join(1) [of 0 a]
    by (cases e) (simp_all add: pad_def tail_bytes_def numeral_2_eq_2)
next
  case (3 e a b)
  then show ?case
    using sextet_bounds(1,4) [of a] sextet_bounds(2) [of b a] sextet_bounds(5) [of b] bytes_join(1,4) [of b a]
    by (cases e) (simp_all add: pad_def tail_bytes_def)
next
  case (4 e a b c bs)
  then have "b div 16 < 16" "c div 64 < 4"
    using less_mult_imp_div_less [of b 16 16] less_mult_imp_div_less [of c 4 64] by simp_all
  with 4 show ?case
    using sextet_bounds(1,4) [of a] sextet_bounds(2) [of b a] sextet_bounds(3) [of c b] by simp
qed simp

lemma encode_bytes_chars: "\<forall>b \<in> set bs. b < 256 \<Longrightarrow> set (encode_bytes e bs) \<subseteq> insert (CHR ''='') (set (alphabet e))"
proof (induction e bs rule: encode_bytes.induct)
  case (2 e a)
  then show ?case using sextet_bounds(1,4) [of a] by (cases e) (auto simp: pad_def intro!: encode_sextet_mem)
next
  case (3 e a b)
  then show ?case
    using sextet_bounds(1,4) [of a] sextet_bounds(2) [of b a] sextet_bounds(5) [of b] by (cases e) (auto simp: pad_def intro!: encode_sextet_mem)
next
  case (4 e a b c bs)
  then show ?case
    using sextet_bounds(1,4) [of a] sextet_bounds(2) [of b a] sextet_bounds(3) [of c b] by (auto intro!: encode_sextet_mem)
qed simp

lemma DecodeString_EncodeToString: "DecodeString e (EncodeToString e s) = Some s"
proof -
  let ?bs = "map of_char s :: nat list"
  have b: "\<forall>b \<in> set ?bs. b < 256" by auto
  have "c \<noteq> char_of (10 :: nat) \<and> c \<noteq> char_of (13 :: nat)" if "c \<in> set (encode_bytes e ?bs)" for c
  proof -
    have "c = CHR ''='' \<or> c \<in> set (alphabet e)" using encode_bytes_chars [OF b] that by blast
    moreover have "CHR ''='' \<noteq> char_of (10 :: nat)" "CHR ''='' \<noteq> char_of (13 :: nat)" by code_simp+
    ultimately show ?thesis using alphabet_props(4,5) [of e] by metis
  qed
  then have "filter (\<lambda>c. c \<noteq> char_of (10 :: nat) \<and> c \<noteq> char_of (13 :: nat)) (encode_bytes e ?bs) = encode_bytes e ?bs"
    by (simp add: filter_id_conv)
  then show ?thesis by (simp add: DecodeString_def EncodeToString_def decode_encode_bytes [OF b] comp_def)
qed

interpretation base64: codec "\<lambda>_. True" "EncodeToString e" "\<lambda>s. the (DecodeString e s)" for e
  by unfold_locales (simp add: DecodeString_EncodeToString)

end
