(* ===== verification/Gateway_Client.thy ===== *)
theory Gateway_Client
  imports Gateway_Egress Gateway_Url Gateway_Store Gateway_Auth Gateway_Base64
begin

text \<open>
  The call of a target API, \<^verbatim>\<open>pkg/gateway/client.go\<close>: rendering of the path, the query and the body from a tool's
  templates and its arguments, the credentials, the caches, and the request with its retries. A call returns its result,
  the client with its caches, and the list of what it did to the outside: reads of secrets, waits, connections and
  requests. Arguments are JSON values; a nil map is \<^const>\<open>None\<close>. What a call cannot determine is an argument
  (\<open>world\<close>): the order in which Go visits a map, the clock, the answers of name resolution, of the servers and of the
  caller's cancellation. The parser of URLs, the reader of header maps and the indentation of JSON are parameters
  (\<open>client_lib\<close>).
\<close>

section \<open>Definitions\<close>

type_synonym args = "(string \<times> json) list"

record client_lib =
  lib_net :: net_lib
  lib_Parse :: "string \<Rightarrow> string + url"
  lib_String :: "url \<Rightarrow> string"
  lib_NewRequest :: "string \<Rightarrow> string \<Rightarrow> string + url"
  lib_number :: "string \<Rightarrow> string"
  lib_headers :: "string \<Rightarrow> string + (string \<times> string) list"
  lib_indent :: "string \<Rightarrow> string option"

record GatewayClient =
  gc_egress :: EgressPolicy
  gc_secretCache :: "string ttl_cache option"
  gc_respCache :: "string ttl_cache option"
  gc_maxRetries :: int

definition NewGatewayClient :: "EgressPolicy \<Rightarrow> GatewayClient" where
  "NewGatewayClient egress = \<lparr>gc_egress = egress, gc_secretCache = None, gc_respCache = None, gc_maxRetries = 0\<rparr>"

definition EnableSecretCache :: "int \<Rightarrow> GatewayClient \<Rightarrow> GatewayClient" where
  "EnableSecretCache ttl gc = gc\<lparr>gc_secretCache := Some (cache_New ttl)\<rparr>"

definition EnableResponseCache :: "int \<Rightarrow> GatewayClient \<Rightarrow> GatewayClient" where
  "EnableResponseCache ttl gc = gc\<lparr>gc_respCache := Some (cache_New ttl)\<rparr>"

definition SetMaxRetries :: "int \<Rightarrow> GatewayClient \<Rightarrow> GatewayClient" where
  "SetMaxRetries n gc = gc\<lparr>gc_maxRetries := n\<rparr>"

record http_request =
  hq_method :: string
  hq_url :: url
  hq_headers :: "(string \<times> string) list"
  hq_body :: "string option"

text \<open>The answer to a request: no response, a response whose body could not be read to its end, or one with its body.\<close>

datatype answer = NoResponse string | BrokenBody nat string | Response nat string

datatype event = SecretRead string | Backoff int | Dialled target | is_Sent: Sent http_request

record world =
  w_range :: "nat \<Rightarrow> args \<Rightarrow> args"
  w_clock :: "nat \<Rightarrow> int"
  w_lookup :: resolver
  w_dial_lookup :: "nat \<Rightarrow> resolver"
  w_server :: "nat \<Rightarrow> target \<Rightarrow> http_request \<Rightarrow> answer"
  w_jitter :: "nat \<Rightarrow> int"
  w_cancelled :: "nat \<Rightarrow> bool"

datatype do_error = DialFailed egress_error | TransportFailed string

datatype call_error =
    InvalidURL string string
  | EgressDenied egress_error
  | BadRequest string
  | SecretFailed string
  | BadBasicSecret
  | BadHeadersSecret string
  | UnsupportedAuth string
  | RequestFailed do_error
  | ReadFailed string
  | TooLarge
  | UpstreamStatus nat
  | Cancelled
  | ErrorStatus nat string
  | NilError

subsection \<open>Secrets\<close>

definition getSecret ::
  "(string \<Rightarrow> string + string) \<Rightarrow> world \<Rightarrow> string \<Rightarrow> GatewayClient \<Rightarrow> (string + string) \<times> GatewayClient \<times> event list" where
  "getSecret vault w ref gc =
     (case cache_Get (w_clock w 1) (gc_secretCache gc) ref of
        Some v \<Rightarrow> (Inr v, gc, [])
      | None \<Rightarrow>
          (case vault ref of
             Inl e \<Rightarrow> (Inl e, gc, [SecretRead ref])
           | Inr val \<Rightarrow> (Inr val, gc\<lparr>gc_secretCache := cache_Set (w_clock w 2) ref val (gc_secretCache gc)\<rparr>, [SecretRead ref])))"

subsection \<open>Templates\<close>

text \<open>\<^verbatim>\<open>fmt.Sprintf("%v", v)\<close>\<close>

primrec fmt_v :: "(string \<Rightarrow> string) \<Rightarrow> json \<Rightarrow> string" where
  "fmt_v num JNull = ''<nil>''"
| "fmt_v num (JBoolean b) = (if b then ''true'' else ''false'')"
| "fmt_v num (JNumber n) = num n"
| "fmt_v num (JString s) = s"
| "fmt_v num (JArray vs) = CHR ''['' # js_join '' '' (map (fmt_v num) vs) @ '']''"
| "fmt_v num (JObject kvs) =
     (let m = map (map_prod id (fmt_v num)) kvs in
      ''map['' @ js_join '' '' (map (\<lambda>k. k @ CHR '':'' # the (map_of m k)) (sort (map fst m))) @ '']'')"

text \<open>\<^verbatim>\<open>strings.ReplaceAll(s, old, new)\<close>; an empty \<^verbatim>\<open>old\<close> matches before every character and at the end.\<close>

function go_ReplaceAll :: "string \<Rightarrow> string \<Rightarrow> string \<Rightarrow> string" where
  "go_ReplaceAll [] old new = (if old = [] then new else [])"
| "go_ReplaceAll (c # s) old new =
     (if old = [] then new @ c # go_ReplaceAll s old new
      else if prefix old (c # s) then new @ go_ReplaceAll (drop (length old) (c # s)) old new
      else c # go_ReplaceAll s old new)"
  by pat_completeness auto
termination by (relation "measure (\<lambda>(s, _, _). length s)") (auto simp: neq_Nil_conv)

definition placeholder :: "string \<Rightarrow> string" where
  "placeholder k = ''{{'' @ k @ ''}}''"

definition go_TrimSuffix :: "string \<Rightarrow> string \<Rightarrow> string" where
  "go_TrimSuffix s p = (if go_HasSuffix s p then take (length s - length p) s else s)"

definition go_TrimPrefix :: "string \<Rightarrow> string \<Rightarrow> string" where
  "go_TrimPrefix s p = (if go_HasPrefix s p then drop (length p) s else s)"

text \<open>\<^verbatim>\<open>strings.Trim(s, "\"")\<close>\<close>

definition trim_quotes :: "string \<Rightarrow> string" where
  "trim_quotes s = rev (dropWhile (\<lambda>c. c = quote) (rev (dropWhile (\<lambda>c. c = quote) s)))"

definition render_path :: "(string \<Rightarrow> string) \<Rightarrow> args \<Rightarrow> string \<Rightarrow> string" where
  "render_path num params path =
     foldl (\<lambda>p (k, v). go_ReplaceAll p (placeholder k) (PathEscape (fmt_v num v))) path params"

definition full_url :: "string \<Rightarrow> string \<Rightarrow> string" where
  "full_url base path = go_TrimSuffix base ''/'' @ ''/'' @ go_TrimPrefix path ''/''"

definition render_query :: "(string \<Rightarrow> string) \<Rightarrow> string \<Rightarrow> args \<Rightarrow> string \<Rightarrow> string" where
  "render_query num path params q =
     values_Encode (foldl (\<lambda>vs (k, v). if \<not> js_includes path (placeholder k) then values_set k (fmt_v num v) vs else vs)
       (URL_Query q) params)"

definition render_body :: "args \<Rightarrow> string \<Rightarrow> string" where
  "render_body params template =
     foldl (\<lambda>b (k, v).
         let rawVal = writeCanonical v;
             b = go_ReplaceAll b (quote # placeholder k @ [quote]) rawVal
         in go_ReplaceAll b (placeholder k) (trim_quotes rawVal))
       template params"

definition marshal_params :: "args option \<Rightarrow> string" where
  "marshal_params params = (case params of None \<Rightarrow> ''null'' | Some m \<Rightarrow> writeCanonical (JObject m))"

definition arg_list :: "args option \<Rightarrow> args" where
  "arg_list params = (case params of None \<Rightarrow> [] | Some m \<Rightarrow> m)"

definition request_body :: "world \<Rightarrow> stored_endpoint \<Rightarrow> args option \<Rightarrow> string option" where
  "request_body w ep params =
     (if ep_method ep \<noteq> ''GET'' \<and> ep_method ep \<noteq> ''DELETE'' then
        (if ep_template ep \<noteq> [] then Some (render_body (w_range w 2 (arg_list params)) (ep_template ep))
         else Some (marshal_params params))
      else None)"

subsection \<open>Credentials\<close>

text \<open>\<^verbatim>\<open>Header.Set\<close>: header names are compared without regard to case.\<close>

definition header_set :: "(string \<times> string) list \<Rightarrow> string \<Rightarrow> string \<Rightarrow> (string \<times> string) list" where
  "header_set hs k v = filter (\<lambda>(n, _). \<not> go_EqualFold n k) hs @ [(k, v)]"

definition default_headers :: "(string \<times> string) list" where
  "default_headers =
     header_set (header_set (header_set [] ''Content-Type'' ''application/json'') ''Accept'' ''application/json'')
       ''User-Agent'' ''MCP-API-Gateway/1.0''"

definition auth_headers :: "client_lib \<Rightarrow> string \<Rightarrow> string \<Rightarrow> (string \<times> string) list \<Rightarrow> call_error + (string \<times> string) list" where
  "auth_headers lib authType secretVal hs =
     (if authType = ''bearer'' then Inr (header_set hs ''Authorization'' (''Bearer '' @ secretVal))
      else if authType = ''basic'' then
        (case go_SplitN2 secretVal (CHR '':'') of
           [user, pass] \<Rightarrow> Inr (header_set hs ''Authorization'' (''Basic '' @ EncodeToString StdEncoding (user @ CHR '':'' # pass)))
         | _ \<Rightarrow> Inl BadBasicSecret)
      else if authType = ''custom_headers'' then
        (case lib_headers lib secretVal of
           Inl e \<Rightarrow> Inl (BadHeadersSecret e)
         | Inr kvs \<Rightarrow> Inr (foldl (\<lambda>hs (k, v). header_set hs k v) hs kvs))
      else Inl (UnsupportedAuth authType))"

subsection \<open>Requests with retries\<close>

definition maxResponseBytes :: nat where
  "maxResponseBytes = 10485760"

definition isIdempotent :: "string \<Rightarrow> bool" where
  "isIdempotent meth \<longleftrightarrow> meth = ''GET'' \<or> meth = ''HEAD'' \<or> meth = ''OPTIONS''"

text \<open>The wait before an attempt, a \<^verbatim>\<open>time.Duration\<close>: the product wraps around at 64 bits, and is compared as a signed number.\<close>

definition backoff :: "nat \<Rightarrow> 64 word" where
  "backoff attempt =
     (let b = 100 * push_bit (attempt - 1) 1 * 1000000 in if 2000000000 <s b then 2000000000 else b)"

text \<open>\<^verbatim>\<open>http.Do\<close>: the transport dials, and sends the request over the connection; redirects are not followed.\<close>

definition http_Do :: "GatewayClient \<Rightarrow> client_lib \<Rightarrow> world \<Rightarrow> nat \<Rightarrow> http_request \<Rightarrow> (do_error + answer) \<times> event list" where
  "http_Do gc lib w i req =
     (case DialContext (gc_egress gc) (lib_net lib) (w_dial_lookup w i) (u_addr (hq_url req)) of
        Inl e \<Rightarrow> (Inl (DialFailed e), [])
      | Inr t \<Rightarrow> (Inr (w_server w i t req), [Dialled t, Sent req]))"

text \<open>One pass of the loop: \<^const>\<open>Inl\<close> is an error to go on with, \<^const>\<open>Inr\<close> what the function returns.\<close>

definition attempt_outcome :: "string \<Rightarrow> nat \<Rightarrow> nat \<Rightarrow> do_error + answer \<Rightarrow> call_error + (call_error + nat \<times> string)" where
  "attempt_outcome meth attempts attempt r =
     (case r of
        Inl e \<Rightarrow> Inl (RequestFailed e)
      | Inr (NoResponse e) \<Rightarrow> Inl (RequestFailed (TransportFailed e))
      | Inr (BrokenBody _ e) \<Rightarrow> Inl (ReadFailed e)
      | Inr (Response st b) \<Rightarrow>
          (let respBody = take (maxResponseBytes + 1) b in
           if maxResponseBytes < length respBody then Inr (Inl TooLarge)
           else if 500 \<le> st \<and> isIdempotent meth \<and> attempt < attempts - 1 then Inl (UpstreamStatus st)
           else Inr (Inr (st, respBody))))"

fun retry_loop ::
  "GatewayClient \<Rightarrow> client_lib \<Rightarrow> world \<Rightarrow> http_request \<Rightarrow> string \<Rightarrow> nat \<Rightarrow> nat \<Rightarrow> call_error \<Rightarrow> nat \<Rightarrow> (call_error + nat \<times> string) \<times> event list"
where
  "retry_loop gc lib w req meth attempts attempt lastErr 0 = (Inl lastErr, [])"
| "retry_loop gc lib w req meth attempts attempt lastErr (Suc n) =
     (let wait = (if 0 < attempt then [Backoff (sint (backoff attempt) + w_jitter w attempt)] else []) in
      if 0 < attempt \<and> w_cancelled w attempt then (Inl Cancelled, wait)
      else let (r, ev) = http_Do gc lib w attempt req in
           case attempt_outcome meth attempts attempt r of
             Inl e \<Rightarrow> (let (res, evs) = retry_loop gc lib w req meth attempts (Suc attempt) e n in (res, wait @ ev @ evs))
           | Inr res \<Rightarrow> (res, wait @ ev))"

definition retry_attempts :: "GatewayClient \<Rightarrow> string \<Rightarrow> nat" where
  "retry_attempts gc meth = (if 0 < gc_maxRetries gc \<and> isIdempotent meth then nat (gc_maxRetries gc + 1) else 1)"

definition doWithRetry ::
  "GatewayClient \<Rightarrow> client_lib \<Rightarrow> world \<Rightarrow> http_request \<Rightarrow> string \<Rightarrow> (call_error + nat \<times> string) \<times> event list" where
  "doWithRetry gc lib w req meth =
     (let attempts = retry_attempts gc meth in retry_loop gc lib w req meth attempts 0 NilError attempts)"

subsection \<open>The call\<close>

definition rendered_url :: "client_lib \<Rightarrow> world \<Rightarrow> connection \<Rightarrow> stored_endpoint \<Rightarrow> args option \<Rightarrow> call_error + url" where
  "rendered_url lib w conn ep params =
     (let s = full_url (conn_base_url conn) (render_path (lib_number lib) (w_range w 0 (arg_list params)) (ep_path ep)) in
      case lib_Parse lib s of Inl e \<Rightarrow> Inl (InvalidURL s e) | Inr u \<Rightarrow> Inr u)"

definition with_query :: "client_lib \<Rightarrow> world \<Rightarrow> stored_endpoint \<Rightarrow> args option \<Rightarrow> url \<Rightarrow> url" where
  "with_query lib w ep params u =
     (if ep_method ep = ''GET''
      then u\<lparr>u_rawquery := render_query (lib_number lib) (ep_path ep) (w_range w 1 (arg_list params)) (u_rawquery u)\<rparr>
      else u)"

definition add_credentials ::
  "client_lib \<Rightarrow> (string \<Rightarrow> string + string) \<Rightarrow> world \<Rightarrow> connection \<Rightarrow> (string \<times> string) list \<Rightarrow> GatewayClient \<Rightarrow>
   (call_error + (string \<times> string) list) \<times> GatewayClient \<times> event list" where
  "add_credentials lib vault w conn hs gc =
     (if conn_auth_type conn \<noteq> ''none'' \<and> conn_auth_secret_ref conn \<noteq> [] then
        (case getSecret vault w (conn_auth_secret_ref conn) gc of
           (Inl e, gc', ev) \<Rightarrow> (Inl (SecretFailed e), gc', ev)
         | (Inr secretVal, gc', ev) \<Rightarrow> (auth_headers lib (conn_auth_type conn) secretVal hs, gc', ev))
      else (Inr hs, gc, []))"

definition format_response :: "client_lib \<Rightarrow> string \<Rightarrow> string" where
  "format_response lib respBody = (case lib_indent lib respBody of Some s \<Rightarrow> s | None \<Rightarrow> respBody)"

definition ExecuteCall ::
  "client_lib \<Rightarrow> (string \<Rightarrow> string + string) \<Rightarrow> world \<Rightarrow> connection \<Rightarrow> stored_endpoint \<Rightarrow> args option \<Rightarrow> GatewayClient \<Rightarrow>
   (call_error + string) \<times> GatewayClient \<times> event list" where
  "ExecuteCall lib vault w conn ep params gc =
     (case rendered_url lib w conn ep params of
        Inl e \<Rightarrow> (Inl e, gc, [])
      | Inr u0 \<Rightarrow>
     (case validateEgress (gc_egress gc) (w_lookup w) u0 of
        Inl e \<Rightarrow> (Inl (EgressDenied e), gc, [])
      | Inr _ \<Rightarrow>
     (let u = with_query lib w ep params u0;
          cacheKey = ep_method ep @ '' '' @ lib_String lib u in
      case (if ep_method ep = ''GET'' then cache_Get (w_clock w 0) (gc_respCache gc) cacheKey else None) of
        Some v \<Rightarrow> (Inr v, gc, [])
      | None \<Rightarrow>
     (case lib_NewRequest lib (ep_method ep) (lib_String lib u) of
        Inl e \<Rightarrow> (Inl (BadRequest e), gc, [])
      | Inr ru \<Rightarrow>
     (case add_credentials lib vault w conn default_headers gc of
        (Inl e, gc, ev) \<Rightarrow> (Inl e, gc, ev)
      | (Inr hs, gc, ev) \<Rightarrow>
     (let req = \<lparr>hq_method = ep_method ep, hq_url = ru, hq_headers = hs, hq_body = request_body w ep params\<rparr> in
      case doWithRetry gc lib w req (ep_method ep) of
        (Inl e, ev') \<Rightarrow> (Inl e, gc, ev @ ev')
      | (Inr (st, respBody), ev') \<Rightarrow>
          if 400 \<le> st then (Inl (ErrorStatus st respBody), gc, ev @ ev')
          else (let out = format_response lib respBody in
                (Inr out,
                 if ep_method ep = ''GET'' then gc\<lparr>gc_respCache := cache_Set (w_clock w 3) cacheKey out (gc_respCache gc)\<rparr> else gc,
                 ev @ ev'))))))))"

section \<open>Reference notions\<close>

text \<open>A template as text with holes; neither the text nor the names in the holes have braces of their own.\<close>

datatype piece = Lit string | Hole string

fun piece_text :: "piece \<Rightarrow> string" where
  "piece_text (Lit s) = s"
| "piece_text (Hole k) = placeholder k"

fun piece_ok :: "piece \<Rightarrow> bool" where
  "piece_ok (Lit s) \<longleftrightarrow> CHR ''{'' \<notin> set s"
| "piece_ok (Hole k) \<longleftrightarrow> CHR ''{'' \<notin> set k \<and> CHR ''}'' \<notin> set k"

text \<open>All holes filled at once.\<close>

fun fill_hole :: "(string \<Rightarrow> string) \<Rightarrow> args \<Rightarrow> piece \<Rightarrow> string" where
  "fill_hole num params (Lit s) = s"
| "fill_hole num params (Hole k) =
     (case map_of params k of Some v \<Rightarrow> PathEscape (fmt_v num v) | None \<Rightarrow> placeholder k)"

text \<open>What a call may do: connect to public addresses, and send to hosts of the allowlist.\<close>

fun event_allowed :: "EgressPolicy \<Rightarrow> event \<Rightarrow> bool" where
  "event_allowed pol (Dialled t) = public_target pol t"
| "event_allowed pol (Sent r) =
     ((u_scheme (hq_url r) = ''http'' \<or> u_scheme (hq_url r) = ''https'') \<and>
      (Allowlist pol = [] \<or> list_ex (\<lambda>h. go_EqualFold h (u_hostname (hq_url r))) (Allowlist pol)))"
| "event_allowed pol _ = True"

text \<open>The documented behaviour of \<^verbatim>\<open>net/url\<close>: printing a URL that was parsed, with any query, and parsing it again, as
  \<^verbatim>\<open>http.NewRequest\<close> does, keeps its host and scheme.\<close>

definition url_lib_ok :: "client_lib \<Rightarrow> bool" where
  "url_lib_ok lib \<longleftrightarrow>
     (\<forall>m s u q v. lib_Parse lib s = Inr u \<and> lib_NewRequest lib m (lib_String lib (u\<lparr>u_rawquery := q\<rparr>)) = Inr v \<longrightarrow>
        u_hostname v = u_hostname u \<and> u_scheme v = u_scheme u)"

text \<open>The credentials that a request carries.\<close>

fun carries :: "string \<Rightarrow> event \<Rightarrow> bool" where
  "carries h (Sent r) \<longleftrightarrow> header_get (hq_headers r) ''Authorization'' = h"
| "carries h _ \<longleftrightarrow> True"

section \<open>Lemmas\<close>

subsection \<open>Templates\<close>

lemma placeholder_nonempty [simp]: "placeholder k \<noteq> []"
  by (simp add: placeholder_def)

lemma replace_hit: "old \<noteq> [] \<Longrightarrow> go_ReplaceAll (old @ t) old new = new @ go_ReplaceAll t old new"
  by (cases old) auto

lemma replace_miss: "\<not> prefix old (c # t) \<Longrightarrow> go_ReplaceAll (c # t) old new = c # go_ReplaceAll t old new"
  by auto

lemma replace_plain:
  "CHR ''{'' \<notin> set s \<Longrightarrow> go_ReplaceAll (s @ t) (placeholder k) v = s @ go_ReplaceAll t (placeholder k) v"
  by (induction s) (auto simp: placeholder_def)

lemma brace_free_name:
  assumes "prefix (k @ ''}}'') (k' @ ''}}'' @ t)" "CHR ''}'' \<notin> set k" "CHR ''}'' \<notin> set k'"
  shows "k = k'"
proof -
  obtain u where "k @ ''}}'' @ u = k' @ ''}}'' @ t" using assms(1) by (auto simp: prefix_def)
  moreover have "takeWhile (\<lambda>c. c \<noteq> CHR ''}'') (x @ ''}}'' @ y) = x" if "CHR ''}'' \<notin> set x" for x y
    using that by (induction x) auto
  ultimately show ?thesis using assms(2,3) by metis
qed

lemma replace_hole:
  assumes "piece_ok (Hole k)" "piece_ok (Hole k')" "k \<noteq> k'"
  shows "go_ReplaceAll (placeholder k' @ t) (placeholder k) v = placeholder k' @ go_ReplaceAll t (placeholder k) v"
proof -
  have "\<not> prefix (placeholder k) (placeholder k' @ t)"
    using brace_free_name [of k k' t] assms by (auto simp: placeholder_def)
  moreover have "\<not> prefix (placeholder k) (CHR ''{'' # k' @ ''}}'' @ t)"
    using assms(2) by (cases k') (auto simp: placeholder_def)
  ultimately show ?thesis
    using assms(2) replace_plain [of "k' @ ''}}''" t k v]
      replace_miss [of "placeholder k" "CHR ''{''" "CHR ''{'' # k' @ ''}}'' @ t" v]
      replace_miss [of "placeholder k" "CHR ''{''" "k' @ ''}}'' @ t" v]
    by (simp add: placeholder_def)
qed

fun fill :: "string \<Rightarrow> string \<Rightarrow> piece \<Rightarrow> piece" where
  "fill k v (Hole k') = (if k' = k then Lit v else Hole k')"
| "fill k v (Lit s) = Lit s"

lemma replace_pieces:
  "list_all piece_ok ps \<Longrightarrow> piece_ok (Hole k) \<Longrightarrow>
   go_ReplaceAll (concat (map piece_text ps)) (placeholder k) v = concat (map (piece_text \<circ> fill k v) ps)"
proof (induction ps)
  case (Cons p ps)
  then show ?case by (cases p) (auto simp: replace_plain replace_hole replace_hit)
qed simp

lemma fill_ok: "piece_ok p \<Longrightarrow> CHR ''{'' \<notin> set v \<Longrightarrow> piece_ok (fill k v p)"
  by (cases p) auto

lemma render_pieces:
  assumes "list_all piece_ok ps" "list_all (\<lambda>(k, _). piece_ok (Hole k)) params"
  shows "render_path num params (concat (map piece_text ps)) = concat (map (fill_hole num params) ps)"
  using assms
proof (induction params arbitrary: ps)
  case Nil
  have "fill_hole num [] = piece_text"
  proof
    show "fill_hole num [] p = piece_text p" for p by (cases p) simp_all
  qed
  then show ?case by (simp add: render_path_def)
next
  case (Cons kv params)
  obtain k v where kv: "kv = (k, v)" by force
  let ?v = "PathEscape (fmt_v num v)"
  have "list_all piece_ok (map (fill k ?v) ps)"
    using Cons.prems fill_ok PathEscape_no_delim by (auto simp: list_all_iff)
  moreover have "fill_hole num params (fill k ?v p) = fill_hole num (kv # params) p" for p
    by (cases p) (auto simp: kv)
  ultimately show ?case
    using Cons.IH [of "map (fill k ?v) ps"] Cons.prems
    by (simp add: render_path_def kv replace_pieces comp_def)
qed

subsection \<open>Segments\<close>

lemma js_split_prepend: "d \<notin> set p \<Longrightarrow> js_split d (p @ s) = (p @ hd (js_split d s)) # tl (js_split d s)"
  by (induction p) auto

lemma hd_js_split_prefix: "prefix (hd (js_split d s)) s"
  by (induction s) (auto split: list.splits)

lemma split_replace:
  assumes "old \<noteq> []" "d \<notin> set old" "d \<notin> set new"
  shows "js_split d (go_ReplaceAll s old new) = map (\<lambda>x. go_ReplaceAll x old new) (js_split d s)"
  using assms
proof (induction s old new rule: go_ReplaceAll.induct)
  case (2 c s old new)
  show ?case
  proof (cases "prefix old (c # s)")
    case True
    then obtain t where t: "c # s = old @ t" by (auto simp: prefix_def)
    then have "js_split d (go_ReplaceAll t old new) = map (\<lambda>x. go_ReplaceAll x old new) (js_split d t)"
      using 2 True by simp
    moreover have "js_split d t \<noteq> []" by simp
    ultimately show ?thesis
      unfolding t using 2(4-6) by (simp add: replace_hit js_split_prepend hd_map map_tl)
  next
    case False
    have "\<not> prefix old (c # hd (js_split d s))"
      using False hd_js_split_prefix [of d s] by (meson Cons_prefix_Cons prefix_order.trans)
    with False 2 show ?thesis by (cases "js_split d s") (auto simp: replace_miss)
  qed
qed simp

lemma render_split:
  "list_all (\<lambda>(k, _). d \<notin> set k) params \<Longrightarrow> d \<in> {CHR ''/'', CHR ''?'', CHR ''#''} \<Longrightarrow>
   js_split d (render_path num params path) = map (render_path num params) (js_split d path)"
proof (induction params arbitrary: path)
  case (Cons kv params)
  obtain k v where kv: "kv = (k, v)" by force
  have "d \<notin> set (placeholder k)" using Cons.prems by (auto simp: kv placeholder_def)
  moreover have "d \<notin> set (PathEscape (fmt_v num v))" using Cons.prems PathEscape_no_delim by auto
  ultimately show ?case
    using Cons.IH Cons.prems by (simp add: render_path_def kv split_replace)
qed (simp add: render_path_def [abs_def])

subsection \<open>Retries\<close>

lemma retry_loop_allowed:
  assumes "event_allowed (gc_egress gc) (Sent req)"
  shows "list_all (event_allowed (gc_egress gc)) (snd (retry_loop gc lib w req meth attempts i e n))"
proof -
  have "list_all (event_allowed (gc_egress gc)) (snd (http_Do gc lib w j req))" for j
    using assms DialContext_public by (auto simp: http_Do_def split: sum.splits)
  then show ?thesis
    by (induction n arbitrary: i e) (auto simp: Let_def split_beta split: sum.splits)
qed

lemma retry_loop_carries:
  "header_get (hq_headers req) ''Authorization'' = h \<Longrightarrow>
   list_all (carries h) (snd (retry_loop gc lib w req meth attempts i e n))"
proof -
  assume h: "header_get (hq_headers req) ''Authorization'' = h"
  then have "list_all (carries h) (snd (http_Do gc lib w j req))" for j
    by (auto simp: http_Do_def split: sum.splits)
  then show ?thesis
    by (induction n arbitrary: i e) (auto simp: Let_def split_beta split: sum.splits)
qed

lemma retry_loop_sends: "length (filter is_Sent (snd (retry_loop gc lib w req meth attempts i e n))) \<le> n"
proof -
  have d: "length (filter is_Sent (snd (http_Do gc lib w j req))) \<le> 1" for j
    by (auto simp: http_Do_def split: sum.splits)
  show ?thesis
  proof (induction n arbitrary: i e)
    case (Suc n)
    show ?case
      using d [of i] Suc.IH [of "Suc i"]
      by (auto simp: Let_def split_beta split: sum.splits intro: add_mono [of _ 1 _ n, simplified])
  qed simp
qed

text \<open>Without cancellation, the loop returns the outcome of the first attempt that is not to be repeated, or the last error.\<close>

definition outcome_of :: "GatewayClient \<Rightarrow> client_lib \<Rightarrow> world \<Rightarrow> http_request \<Rightarrow> string \<Rightarrow> nat \<Rightarrow> call_error + (call_error + nat \<times> string)" where
  "outcome_of gc lib w req meth i = attempt_outcome meth (retry_attempts gc meth) i (fst (http_Do gc lib w i req))"

definition first_final :: "(nat \<Rightarrow> call_error + (call_error + nat \<times> string)) \<Rightarrow> nat \<Rightarrow> call_error + nat \<times> string" where
  "first_final out n =
     (case find (\<lambda>i. \<not> isl (out i)) [0..<n] of Some i \<Rightarrow> projr (out i) | None \<Rightarrow> Inl (projl (out (n - 1))))"

lemma retry_loop_first:
  assumes "\<And>i. \<not> w_cancelled w i"
  shows "fst (retry_loop gc lib w req meth attempts k e n) =
    (let out = (\<lambda>i. attempt_outcome meth attempts i (fst (http_Do gc lib w i req))) in
     case find (\<lambda>i. \<not> isl (out i)) [k..<k + n] of
       Some i \<Rightarrow> projr (out i)
     | None \<Rightarrow> Inl (if n = 0 then e else projl (out (k + n - 1))))"
proof (induction n arbitrary: k e)
  case (Suc n)
  have "[k..<k + Suc n] = k # [Suc k..<Suc k + n]" using upt_conv_Cons [of k "k + Suc n"] by simp
  with Suc.IH [of "Suc k"] show ?case
    using assms by (cases "attempt_outcome meth attempts k (fst (http_Do gc lib w k req))"; cases n)
      (auto simp: Let_def split_beta cong: option.case_cong)
qed simp

lemma retry_attempts_pos: "0 < retry_attempts gc meth"
  by (simp add: retry_attempts_def)

lemma doWithRetry_first:
  "(\<And>i. \<not> w_cancelled w i) \<Longrightarrow>
   fst (doWithRetry gc lib w req meth) = first_final (outcome_of gc lib w req meth) (retry_attempts gc meth)"
  using retry_loop_first [of w gc lib req meth "retry_attempts gc meth" 0] retry_attempts_pos [of gc meth]
  by (simp add: doWithRetry_def first_final_def outcome_of_def [abs_def] Let_def cong: option.case_cong)

subsection \<open>The call\<close>

lemma credentials_frame:
  "add_credentials lib vault w conn hs gc = (r, gc', ev) \<Longrightarrow>
   gc_egress gc' = gc_egress gc \<and> gc_maxRetries gc' = gc_maxRetries gc \<and> gc_respCache gc' = gc_respCache gc \<and>
   list_all (event_allowed pol) ev \<and> filter is_Sent ev = []"
  by (auto simp: add_credentials_def getSecret_def split: if_splits prod.splits sum.splits option.splits)

lemma with_query_host [simp]:
  "u_hostname (with_query lib w ep params u) = u_hostname u" "u_scheme (with_query lib w ep params u) = u_scheme u"
  by (simp_all add: with_query_def)

text \<open>Everything a call does is a read of a secret followed by the attempts of one request.\<close>

lemma ExecuteCall_events:
  assumes "ExecuteCall lib vault w conn ep params gc = (r, gc', ev)"
  obtains (silent) "ev = []"
    | (secret) u0 r' gc1 where "rendered_url lib w conn ep params = Inr u0" "validateEgress (gc_egress gc) (w_lookup w) u0 = Inr ()"
        "add_credentials lib vault w conn default_headers gc = (Inl r', gc1, ev)"
    | (sent) u0 ru hs gc1 ev1 where "rendered_url lib w conn ep params = Inr u0" "validateEgress (gc_egress gc) (w_lookup w) u0 = Inr ()"
        "add_credentials lib vault w conn default_headers gc = (Inr hs, gc1, ev1)"
        "lib_NewRequest lib (ep_method ep) (lib_String lib (with_query lib w ep params u0)) = Inr ru"
        "ev = ev1 @ snd (doWithRetry gc1 lib w
           \<lparr>hq_method = ep_method ep, hq_url = ru, hq_headers = hs, hq_body = request_body w ep params\<rparr> (ep_method ep))"
proof (cases "rendered_url lib w conn ep params")
  case (Inr u0)
  show thesis
  proof (cases "validateEgress (gc_egress gc) (w_lookup w) u0")
    case V: (Inr x)
    then have v: "validateEgress (gc_egress gc) (w_lookup w) u0 = Inr ()" by simp
    obtain c gc1 ev1 where cr: "add_credentials lib vault w conn default_headers gc = (c, gc1, ev1)" by (metis prod.exhaust)
    let ?u = "with_query lib w ep params u0"
    consider "ev = []" | e where "c = Inl e" "ev = ev1"
      | hs ru where "c = Inr hs" "lib_NewRequest lib (ep_method ep) (lib_String lib ?u) = Inr ru"
          "ev = ev1 @ snd (doWithRetry gc1 lib w
             \<lparr>hq_method = ep_method ep, hq_url = ru, hq_headers = hs, hq_body = request_body w ep params\<rparr> (ep_method ep))"
      using assms unfolding ExecuteCall_def Inr cr
      by (auto simp: v Let_def split: sum.splits option.splits if_splits prod.splits)
    then show thesis
    proof cases
      case 3
      then show thesis using sent [OF Inr v] cr by blast
    qed (use silent secret [OF Inr v] cr in auto)
  qed (use assms silent Inr in \<open>simp add: ExecuteCall_def\<close>)
qed (use assms silent in \<open>simp add: ExecuteCall_def\<close>)

lemma url_lib_okD:
  assumes "url_lib_ok lib" "rendered_url lib w conn ep params = Inr u"
    and "lib_NewRequest lib m (lib_String lib (with_query lib w ep params u)) = Inr v"
  shows "u_hostname v = u_hostname u \<and> u_scheme v = u_scheme u"
proof -
  obtain q where "with_query lib w ep params u = u\<lparr>u_rawquery := q\<rparr>"
    by (cases "ep_method ep = ''GET''") (auto simp: with_query_def intro: that [of "u_rawquery u"])
  moreover obtain t where "lib_Parse lib t = Inr u"
    using assms(2) by (auto simp: rendered_url_def Let_def split: sum.splits)
  ultimately show ?thesis using assms(1,3) unfolding url_lib_ok_def by metis
qed

lemma ExecuteCall_allowed:
  assumes "url_lib_ok lib"
  shows "list_all (event_allowed (gc_egress gc)) (snd (snd (ExecuteCall lib vault w conn ep params gc))) \<and>
    (snd (snd (ExecuteCall lib vault w conn ep params gc)) = [] \<or>
     (\<exists>u. rendered_url lib w conn ep params = Inr u \<and> validateEgress (gc_egress gc) (w_lookup w) u = Inr ()))"
proof -
  obtain r gc' ev where e: "ExecuteCall lib vault w conn ep params gc = (r, gc', ev)" by (metis prod.exhaust)
  then show ?thesis
  proof (cases rule: ExecuteCall_events)
    case (secret u0 r' gc1)
    then show ?thesis using e credentials_frame by fastforce
  next
    case (sent u0 ru hs gc1 ev1)
    let ?req = "\<lparr>hq_method = ep_method ep, hq_url = ru, hq_headers = hs, hq_body = request_body w ep params\<rparr>"
    have "u_hostname ru = u_hostname u0" "u_scheme ru = u_scheme u0"
      using url_lib_okD [OF assms sent(1,4)] by blast+
    then have "event_allowed (gc_egress gc) (Sent ?req)"
      using validateEgress_allowed [OF sent(2)] by auto
    moreover have "gc_egress gc1 = gc_egress gc" "list_all (event_allowed (gc_egress gc)) ev1"
      using credentials_frame [OF sent(3)] by auto
    ultimately show ?thesis
      using retry_loop_allowed [of gc1 ?req lib w "ep_method ep"] sent(1,2) by (simp add: e sent(5) doWithRetry_def Let_def)
  qed (simp add: e)
qed

lemma ExecuteCall_sends:
  "length (filter is_Sent (snd (snd (ExecuteCall lib vault w conn ep params gc)))) \<le> retry_attempts gc (ep_method ep)"
proof -
  obtain r gc' ev where e: "ExecuteCall lib vault w conn ep params gc = (r, gc', ev)" by (metis prod.exhaust)
  then show ?thesis
  proof (cases rule: ExecuteCall_events)
    case (secret u0 r' gc1)
    then show ?thesis using e credentials_frame by fastforce
  next
    case (sent u0 ru hs gc1 ev1)
    have "retry_attempts gc1 (ep_method ep) = retry_attempts gc (ep_method ep)" "filter is_Sent ev1 = []"
      using credentials_frame [OF sent(3)] by (auto simp: retry_attempts_def)
    then show ?thesis
      using retry_loop_sends [of gc1 lib w _ "ep_method ep" "retry_attempts gc (ep_method ep)" 0 NilError]
      by (simp add: e sent(5) doWithRetry_def Let_def)
  qed (simp add: e)
qed

lemma default_header_set: "header_get (header_set default_headers ''Authorization'' v) ''Authorization'' = v"
proof -
  have "find (\<lambda>(n, _). go_EqualFold n ''Authorization'') default_headers = None" by code_simp
  then show ?thesis by (simp add: header_get_def header_set_def default_headers_def go_EqualFold_def)
qed

subsection \<open>Secrets\<close>

text \<open>What the client relies on of the interface \<^verbatim>\<open>VaultProvider\<close>: a secret that was set is the one that is read, and setting one
  leaves the others alone.\<close>

locale vault_provider =
  fixes get :: "'v \<Rightarrow> string \<Rightarrow> string + string"
    and put :: "string \<Rightarrow> string \<Rightarrow> 'v \<Rightarrow> 'v"
  assumes get_put: "get (put k v s) k' = (if k' = k then Inr v else get s k')"
begin

lemma bearer_sent:
  assumes "conn_auth_type conn = ''bearer''" "conn_auth_secret_ref conn = k" "k \<noteq> []"
    and "cache_Get (w_clock w 1) (gc_secretCache gc) k = None"
  shows "list_all (carries (''Bearer '' @ v)) (snd (snd (ExecuteCall lib (get (put k v s)) w conn ep params gc)))"
proof -
  obtain r gc' ev where e: "ExecuteCall lib (get (put k v s)) w conn ep params gc = (r, gc', ev)" by (metis prod.exhaust)
  have cr: "add_credentials lib (get (put k v s)) w conn default_headers gc =
      (Inr (header_set default_headers ''Authorization'' (''Bearer '' @ v)),
       gc\<lparr>gc_secretCache := cache_Set (w_clock w 2) k v (gc_secretCache gc)\<rparr>, [SecretRead k])"
    using assms by (simp add: add_credentials_def getSecret_def get_put auth_headers_def)
  show ?thesis
    using e
  proof (cases rule: ExecuteCall_events)
    case (sent u0 ru hs gc1 ev1)
    then have "header_get hs ''Authorization'' = ''Bearer '' @ v" using cr default_header_set by auto
    then show ?thesis using cr sent(3) by (simp add: e sent(5) doWithRetry_def Let_def retry_loop_carries)
  qed (use cr in \<open>simp_all add: e\<close>)
qed

end

subsection \<open>Queries\<close>

lemma map_of_key_lists:
  fixes f :: "'k \<Rightarrow> 'v list"
  shows "map_of (concat (map (\<lambda>k. map (Pair k) (f k)) ks)) k = (if k \<in> set ks \<and> f k \<noteq> [] then Some (hd (f k)) else None)"
proof (induction ks)
  case (Cons a ks)
  have "map_of (map (Pair a) xs) k = (if k = a \<and> xs \<noteq> [] then Some (hd xs) else None)" for xs :: "'v list"
    by (cases xs) (auto simp: map_of_eq_None_iff)
  with Cons show ?case by (auto simp: map_add_def split: option.splits)
qed simp

definition values_get :: "url_values \<Rightarrow> string \<Rightarrow> string" where
  "values_get vs k = (case map_of vs k of Some (v # _) \<Rightarrow> v | _ \<Rightarrow> [])"

lemma Query_Get_Encode: "Query_Get (values_Encode vs) k = values_get vs k"
proof -
  have "map_of (values_pairs vs) k = (case map_of vs k of Some (v # _) \<Rightarrow> Some v | _ \<Rightarrow> None)"
    unfolding values_pairs_def map_of_key_lists
    by (auto simp: map_of_eq_None_iff split: option.splits list.splits dest: map_of_SomeD intro: rev_image_eqI)
  then show ?thesis
    using query_pairs_Encode [of vs] by (auto simp: Query_Get_def query_pairs_def values_get_def split: option.splits list.splits)
qed

lemma values_add_get:
  "map_of (foldl values_add vs ps) k =
    (let ws = map snd (filter (\<lambda>p. fst p = k) ps) in
     case map_of vs k of Some us \<Rightarrow> Some (us @ ws) | None \<Rightarrow> if ws = [] then None else Some ws)"
  by (induction ps arbitrary: vs) (auto simp: values_add_def update_conv Let_def split: option.splits)

lemma values_get_Query: "values_get (URL_Query q) k = Query_Get q k"
proof -
  have "map_of ps k = (case filter (\<lambda>p. fst p = k) ps of [] \<Rightarrow> None | p # _ \<Rightarrow> Some (snd p))" for ps :: "(string \<times> string) list"
    by (induction ps) auto
  then show ?thesis
    by (auto simp: values_get_def URL_Query_def Query_Get_def query_pairs_def values_add_get Let_def split: list.splits)
qed

lemma values_set_get: "values_get (values_set k v vs) k' = (if k' = k then v else values_get vs k')"
  by (simp add: values_get_def values_set_def update_conv)

lemma render_query_get:
  "distinct (map fst params) \<Longrightarrow>
   Query_Get (render_query num path params q) k =
     (case map_of params k of
        Some v \<Rightarrow> if js_includes path (placeholder k) then Query_Get q k else fmt_v num v
      | None \<Rightarrow> Query_Get q k)"
proof -
  have "distinct (map fst params) \<Longrightarrow>
     values_get (foldl (\<lambda>vs (k, v). if \<not> js_includes path (placeholder k) then values_set k (fmt_v num v) vs else vs) vs params) k =
     (case map_of params k of
        Some v \<Rightarrow> if js_includes path (placeholder k) then values_get vs k else fmt_v num v
      | None \<Rightarrow> values_get vs k)" for vs
  proof (induction params arbitrary: vs)
    case (Cons p params)
    obtain a v where p: "p = (a, v)" by force
    then have "map_of params a = None" using Cons.prems by (simp add: map_of_eq_None_iff)
    then show ?case using Cons by (cases "k = a") (auto simp: p values_set_get split: option.split)
  qed simp
  then show "distinct (map fst params) \<Longrightarrow> ?thesis" by (simp add: render_query_def Query_Get_Encode values_get_Query split: option.split)
qed

subsection \<open>The response cache\<close>

lemma ExecuteCall_cached:
  assumes "ExecuteCall lib vault w conn ep params gc = (Inr out, gc', ev)" "ev \<noteq> []" "ep_method ep = ''GET''"
  obtains u where "rendered_url lib w conn ep params = Inr u" "validateEgress (gc_egress gc) (w_lookup w) u = Inr ()"
    "gc_respCache gc' =
       cache_Set (w_clock w 3) (''GET '' @ lib_String lib (with_query lib w ep params u)) out (gc_respCache gc)"
    "gc_egress gc' = gc_egress gc"
proof -
  obtain c gc1 ev1 where cr: "add_credentials lib vault w conn default_headers gc = (c, gc1, ev1)" by (metis prod.exhaust)
  then have "gc_egress gc1 = gc_egress gc" "gc_respCache gc1 = gc_respCache gc" using credentials_frame by blast+
  then show thesis
    using assms that unfolding ExecuteCall_def cr
    by (auto simp: Let_def split: sum.splits option.splits if_splits prod.splits)
qed

subsection \<open>Waits\<close>

lemma backoff_table: "list_all (\<lambda>a. sint (backoff a) = min (100 * 2 ^ (a - 1)) 2000 * 1000000) [1..<38]"
  by code_simp

text \<open>The wait before the attempt 38 wraps around to a negative number, which is not capped and does not wait at all.\<close>

lemma backoff_wraps: "sint (backoff 38) < 0"
  by code_simp

subsection \<open>A call for the examples\<close>

definition shop_url :: url where
  "shop_url = \<lparr>u_scheme = ''https'', u_hostname = ''api.example'', u_addr = ''api.example:443'', u_path = ''/orders/7'',
               u_rawquery = []\<rparr>"

definition shop_lib :: client_lib where
  "shop_lib =
     \<lparr>lib_net = sample_net,
      lib_Parse = (\<lambda>s. if s = ''https://api.example/orders/7'' then Inr shop_url else Inl ''parse error''),
      lib_String = (\<lambda>u. if u = shop_url then ''https://api.example/orders/7'' else []),
      lib_NewRequest = (\<lambda>m s. if s = ''https://api.example/orders/7'' then Inr shop_url else Inl ''parse error''),
      lib_number = id, lib_headers = (\<lambda>s. Inl ''no object''), lib_indent = (\<lambda>s. None)\<rparr>"

definition shop_conn :: connection where
  "shop_conn =
     \<lparr>conn_id = ''c1'', conn_name = ''Shop'', conn_description = [], conn_base_url = ''https://api.example/'',
      conn_auth_type = ''bearer'', conn_auth_secret_ref = ''shop/key'', conn_enabled = True, conn_tool_prefix = []\<rparr>"

definition shop_ep :: stored_endpoint where
  "shop_ep =
     \<lparr>ep_id = ''e1'', ep_connection_id = ''c1'', ep_tool_name = ''get_order'', ep_tool_description = ''One order'',
      ep_path = ''/orders/{{id}}'', ep_method = ''GET'', ep_parameters_schema = ''{}'', ep_template = [],
      ep_definition_hash = [], ep_version = 0\<rparr>"

text \<open>A server that is not available for the first request and answers the second.\<close>

definition shop_world :: world where
  "shop_world =
     \<lparr>w_range = (\<lambda>i m. m), w_clock = (\<lambda>i. 0), w_lookup = (\<lambda>h. Inr [V4 0x08080808]),
      w_dial_lookup = (\<lambda>i h. Inr [V4 0x08080404]),
      w_server = (\<lambda>i t r. if i = 0 then Response 503 ''busy'' else Response 200 ''open''),
      w_jitter = (\<lambda>i. 0), w_cancelled = (\<lambda>i. False)\<rparr>"

definition shop_vault :: "string \<Rightarrow> string + string" where
  "shop_vault ref = (if ref = ''shop/key'' then Inr ''k1'' else Inl ''secret not found'')"

definition shop_client :: GatewayClient where
  "shop_client = SetMaxRetries 2 (EnableResponseCache 60 (NewGatewayClient sample_policy))"

definition shop_args :: "args option" where
  "shop_args = Some [(''id'', JNumber ''7'')]"

definition shop_request :: http_request where
  "shop_request =
     \<lparr>hq_method = ''GET'', hq_url = shop_url, hq_headers = default_headers @ [(''Authorization'', ''Bearer k1'')], hq_body = None\<rparr>"

lemma shop_lib_ok: "url_lib_ok shop_lib"
  by (auto simp: url_lib_ok_def shop_lib_def split: if_splits)

lemma shop_egress: "gc_egress shop_client = sample_policy"
  by (simp add: shop_client_def SetMaxRetries_def EnableResponseCache_def NewGatewayClient_def)

lemma shop_steps:
  "rendered_url shop_lib shop_world shop_conn shop_ep shop_args = Inr shop_url"
  "validateEgress sample_policy (w_lookup shop_world) shop_url = Inr ()"
  "with_query shop_lib shop_world shop_ep shop_args shop_url = shop_url"
  "auth_headers shop_lib ''bearer'' ''k1'' default_headers = Inr (hq_headers shop_request)"
  "retry_attempts shop_client ''GET'' = Suc (Suc (Suc 0))"
  "DialContext sample_policy sample_net (\<lambda>h. Inr [V4 0x08080404]) ''api.example:443'' = Inr (ByAddr (V4 0x08080404) ''443'')"
  "sint (backoff (Suc 0)) = 100000000"
  by code_simp+

lemma shop_credentials:
  "vault ''shop/key'' = Inr ''k1'' \<Longrightarrow>
   add_credentials shop_lib vault w shop_conn default_headers shop_client =
     (Inr (hq_headers shop_request), shop_client, [SecretRead ''shop/key''])"
  by (simp add: add_credentials_def shop_conn_def getSecret_def shop_client_def cache_Get_def cache_Set_def
      cache_Enabled_def SetMaxRetries_def EnableResponseCache_def NewGatewayClient_def shop_steps)

lemma shop_retry:
  "doWithRetry shop_client shop_lib shop_world shop_request ''GET'' =
     (Inr (200, ''open''),
      [Dialled (ByAddr (V4 0x08080404) ''443''), Sent shop_request, Backoff 100000000,
       Dialled (ByAddr (V4 0x08080404) ''443''), Sent shop_request])"
  by (simp add: doWithRetry_def Let_def http_Do_def attempt_outcome_def shop_egress shop_steps shop_world_def shop_lib_def
      shop_request_def shop_url_def maxResponseBytes_def isIdempotent_def)

lemma shop_get: "cache_Get t (gc_respCache shop_client) k = None"
  by (simp add: shop_client_def SetMaxRetries_def EnableResponseCache_def cache_Get_def cache_New_def)

lemma shop_call:
  "ExecuteCall shop_lib shop_vault shop_world shop_conn shop_ep shop_args shop_client =
     (Inr ''open'',
      shop_client\<lparr>gc_respCache := cache_Set 0 ''GET https://api.example/orders/7'' ''open'' (gc_respCache shop_client)\<rparr>,
      SecretRead ''shop/key'' # snd (doWithRetry shop_client shop_lib shop_world shop_request ''GET''))"
proof -
  have "ep_method shop_ep = ''GET''" "lib_String shop_lib shop_url = ''https://api.example/orders/7''"
    "lib_NewRequest shop_lib ''GET'' ''https://api.example/orders/7'' = Inr shop_url" "w_clock shop_world 3 = 0"
    "request_body shop_world shop_ep shop_args = None" "format_response shop_lib ''open'' = ''open''"
    by code_simp+
  moreover have "\<lparr>hq_method = ''GET'', hq_url = shop_url, hq_headers = hq_headers shop_request, hq_body = None\<rparr> = shop_request"
    by (simp add: shop_request_def)
  ultimately show ?thesis
    by (simp add: ExecuteCall_def shop_egress shop_steps shop_get shop_credentials shop_vault_def shop_retry) (simp add: Let_def)
qed

section \<open>Properties\<close>

text \<open>C5: A call stays within the egress policy, whatever the arguments, the connection, the answers of name resolution and
  the servers do: every connection is to a public address (unless private ones are permitted), every request is for a
  host of the allowlist over http or https, and nothing at all is done - no secret read, no connection made - unless the
  rendered URL passed the check.\<close>

theorem egress_enforced:
  assumes "url_lib_ok lib"
  shows "list_all (event_allowed (gc_egress gc)) (snd (snd (ExecuteCall lib vault w conn ep params gc))) \<and>
    (snd (snd (ExecuteCall lib vault w conn ep params gc)) = [] \<or>
     (\<exists>u. rendered_url lib w conn ep params = Inr u \<and> validateEgress (gc_egress gc) (w_lookup w) u = Inr ()))"
  using assms by (rule ExecuteCall_allowed)

theorem egress_enforced_witness:
  "list_all (event_allowed sample_policy)
     [SecretRead ''shop/key'', Dialled (ByAddr (V4 0x08080404) ''443''), Sent shop_request, Backoff 100000000,
      Dialled (ByAddr (V4 0x08080404) ''443''), Sent shop_request]"
  using egress_enforced [OF shop_lib_ok, of shop_client shop_vault shop_world shop_conn shop_ep shop_args]
  by (simp only: shop_call shop_retry shop_egress snd_conv)

text \<open>Retries are bounded: a call sends at most one request more than the number of retries configured, and exactly
  one at most when its method is not safe to repeat.\<close>

theorem requests_bounded:
  "length (filter is_Sent (snd (snd (ExecuteCall lib vault w conn ep params gc)))) \<le>
    (if isIdempotent (ep_method ep) then nat (gc_maxRetries gc) + 1 else 1)"
  using ExecuteCall_sends [of lib vault w conn ep params gc] by (auto simp: retry_attempts_def split: if_splits)

text \<open>The retry loop returns the outcome of the first attempt that is not to be repeated - a response that is no
  transient failure, or is the last one - and the error of the last attempt when every attempt fails.\<close>

theorem retry_returns_first:
  assumes "\<And>i. \<not> w_cancelled w i"
  shows "fst (doWithRetry gc lib w req meth) = first_final (outcome_of gc lib w req meth) (retry_attempts gc meth)"
  using assms by (rule doWithRetry_first)

theorem retry_returns_first_witness:
  "first_final (outcome_of shop_client shop_lib shop_world shop_request ''GET'') (Suc (Suc (Suc 0))) = Inr (200, ''open'')"
  using retry_returns_first [of shop_world shop_client shop_lib shop_request "''GET''"]
  unfolding shop_retry shop_steps by (simp add: shop_world_def)

text \<open>The loop of textual replacements fills a path template as one substitution, in whatever order the arguments are
  visited: every placeholder is replaced by the escaped value of its argument, and no value is ever substituted into
  another.\<close>

theorem path_template_rendered:
  assumes "list_all piece_ok ps" "list_all (\<lambda>(k, _). piece_ok (Hole k)) params" "distinct (map fst params)"
    "mset visited = mset params"
  shows "render_path num visited (concat (map piece_text ps)) = concat (map (fill_hole num params) ps)"
proof -
  have m: "set visited = set params" using assms(4) by (rule mset_eq_setD)
  have "mset (map fst visited) = mset (map fst params)" using assms(4) by simp
  then have "distinct (map fst visited)" using assms(3) mset_eq_imp_distinct_iff by blast
  then have "map_of visited = map_of params" using assms(3) m by (simp add: map_of_inject_set)
  then have "fill_hole num visited p = fill_hole num params p" for p by (cases p) simp_all
  with render_pieces [of ps visited num] assms(1,2) m show ?thesis by (simp add: list_all_iff cong: map_cong)
qed

theorem path_template_rendered_witness:
  "render_path id [(''b'', JString ''{{a}}''), (''a'', JString ''x/y'')] ''/o/{{a}}/{{b}}'' = ''/o/x%2Fy/%7B%7Ba%7D%7D''"
proof -
  have "concat (map (fill_hole id [(''a'', JString ''x/y''), (''b'', JString ''{{a}}'')])
      [Lit ''/o/'', Hole ''a'', Lit ''/'', Hole ''b'']) = ''/o/x%2Fy/%7B%7Ba%7D%7D''"
    "concat (map piece_text [Lit ''/o/'', Hole ''a'', Lit ''/'', Hole ''b'']) = ''/o/{{a}}/{{b}}''"
    by code_simp+
  then show ?thesis
    using path_template_rendered [of "[Lit ''/o/'', Hole ''a'', Lit ''/'', Hole ''b'']"
        "[(''a'', JString ''x/y''), (''b'', JString ''{{a}}'')]" "[(''b'', JString ''{{a}}''), (''a'', JString ''x/y'')]" id]
    by simp
qed

text \<open>C21: An argument cannot change the structure of the path: for arguments whose names have no slash, question mark or
  number sign, cutting the rendered path at these characters gives the rendered pieces of the template, so that a value
  adds no segment, query or fragment.\<close>

theorem path_values_stay_in_segment:
  assumes "list_all (\<lambda>(k, _). list_all (\<lambda>d. d \<notin> set k) ''/?#'') params"
  shows "list_all (\<lambda>d. js_split d (render_path num params path) = map (render_path num params) (js_split d path)) ''/?#''"
  using assms by (simp add: render_split list_all_iff split_beta)

theorem path_values_stay_in_segment_witness:
  "js_split (CHR ''/'') (render_path id [(''id'', JString ''../../etc'')] ''users/{{id}}/keys'') = [''users'', ''..%2F..%2Fetc'', ''keys'']"
proof -
  have "list_all (\<lambda>(k, _). list_all (\<lambda>d. d \<notin> set k) ''/?#'') [(''id'', JString ''../../etc'')]"
    "map (render_path id [(''id'', JString ''../../etc'')]) (js_split (CHR ''/'') ''users/{{id}}/keys'') =
      [''users'', ''..%2F..%2Fetc'', ''keys'']"
    by code_simp+
  then show ?thesis
    using path_values_stay_in_segment [of "[(''id'', JString ''../../etc'')]" id "''users/{{id}}/keys''"] by simp
qed

text \<open>The query that a GET sends is read back as it was meant: an argument that is not used in the path has its value,
  and every other name keeps the value it has in the query of the template.\<close>

theorem query_arguments_roundtrip:
  assumes "distinct (map fst params)"
  shows "Query_Get (render_query num path params q) k =
     (case map_of params k of
        Some v \<Rightarrow> if js_includes path (placeholder k) then Query_Get q k else fmt_v num v
      | None \<Rightarrow> Query_Get q k)"
  using assms by (rule render_query_get)

theorem query_arguments_roundtrip_witness:
  "Query_Get (render_query id ''/search'' [(''q'', JString ''a&limit=9'')] ''limit=5'') ''limit'' = ''5''"
proof -
  have "Query_Get ''limit=5'' ''limit'' = ''5''" by code_simp
  then show ?thesis
    using query_arguments_roundtrip [of "[(''q'', JString ''a&limit=9'')]" id "''/search''" "''limit=5''" "''limit''"] by simp
qed

text \<open>C40: The response cache does not know credentials: after a GET through one connection, a GET of the same tool through
  any connection with the same base URL is answered from the cache while the entry lives, whatever its credentials are
  and even if its secret does not exist; nothing is sent.\<close>

theorem response_cache_ignores_credentials:
  assumes "ExecuteCall lib vault w conn ep params gc = (Inr out, gc', ev)" "ev \<noteq> []" "ep_method ep = ''GET''"
    and "gc_respCache gc = Some c" "0 < cache_ttl c" "w_clock w' 0 \<le> w_clock w 3 + cache_ttl c"
    and "conn_base_url other = conn_base_url conn" "w_range w' = w_range w" "w_lookup w' = w_lookup w"
  shows "ExecuteCall lib vault' w' other ep params gc' = (Inr out, gc', [])"
proof -
  obtain u where u: "rendered_url lib w conn ep params = Inr u" "validateEgress (gc_egress gc) (w_lookup w) u = Inr ()"
    "gc_respCache gc' =
       cache_Set (w_clock w 3) (''GET '' @ lib_String lib (with_query lib w ep params u)) out (gc_respCache gc)"
    "gc_egress gc' = gc_egress gc"
    using ExecuteCall_cached [OF assms(1-3)] by blast
  moreover have "rendered_url lib w' other ep params = Inr u" using u(1) assms(7,8) by (simp add: rendered_url_def)
  moreover have "with_query lib w' ep params u = with_query lib w ep params u" using assms(8) by (simp add: with_query_def)
  ultimately show ?thesis
    using assms(3-6,9) by (simp add: ExecuteCall_def cache_Get_Set_same)
qed

theorem response_cache_ignores_credentials_witness:
  "fst (ExecuteCall shop_lib (\<lambda>ref. Inl ''secret not found'') shop_world (shop_conn\<lparr>conn_auth_secret_ref := ''no/such''\<rparr>)
      shop_ep shop_args (fst (snd (ExecuteCall shop_lib shop_vault shop_world shop_conn shop_ep shop_args shop_client)))) =
   Inr ''open''"
proof -
  have "ep_method shop_ep = ''GET''" "gc_respCache shop_client = Some (cache_New 60)"
    "conn_base_url (shop_conn\<lparr>conn_auth_secret_ref := ''no/such''\<rparr>) = conn_base_url shop_conn"
    "w_clock shop_world 0 = 0" "w_clock shop_world 3 = 0"
    by (simp_all add: shop_ep_def shop_client_def SetMaxRetries_def EnableResponseCache_def shop_world_def)
  then show ?thesis
    using response_cache_ignores_credentials [OF shop_call, of "cache_New 60" shop_world
        "shop_conn\<lparr>conn_auth_secret_ref := ''no/such''\<rparr>" "\<lambda>ref. Inl ''secret not found''"]
    by (simp add: shop_call cache_New_def)
qed

text \<open>A value of two dots is not escaped, so that it names the parent of its segment.\<close>

theorem dot_segment_passes:
  "render_path id [(''id'', JString ''..'')] ''/users/{{id}}/keys'' = ''/users/../keys''"
  by code_simp

text \<open>The body that is sent depends on the order in which Go happens to visit the arguments: a value that looks like a
  placeholder is substituted into when its own argument comes first.\<close>

theorem body_depends_on_order:
  "render_body [(''a'', JString ''{{b}}''), (''b'', JString ''x'')] ''{{a}}'' \<noteq>
   render_body [(''b'', JString ''x''), (''a'', JString ''{{b}}'')] ''{{a}}''"
  by code_simp

text \<open>A value that ends in a quotation mark loses the end of its escape: the mark after it in the template is escaped
  instead, and the body is no longer JSON.\<close>

theorem body_value_breaks_json:
  "render_body [(''v'', JString [CHR ''x'', quote])] ([CHR ''['', quote] @ ''say {{v}}'' @ [quote, CHR '']'']) =
   [CHR ''['', quote] @ ''say x'' @ [backslash, quote, CHR '']'']"
  by code_simp

end
