(* ===== verification/Gateway_Imported.thy ===== *)
theory Gateway_Imported
  imports Gateway_Import Gateway_Client
begin

text \<open>
  Imported tools and the client that calls them: \<^verbatim>\<open>pkg/openapiimport\<close> writes the paths of tools,
  \<^verbatim>\<open>pkg/gateway/client.go\<close> renders them. The two disagree about placeholders, which this theory shows
  from the document to the URL.
\<close>

section \<open>Paths without double braces\<close>

lemma replace_absent: "\<not> js_includes s old \<Longrightarrow> old \<noteq> [] \<Longrightarrow> go_ReplaceAll s old new = s"
  by (induction s old new rule: go_ReplaceAll.induct) (auto simp: js_startsWith_prefix)

lemma render_path_braces:
  assumes "\<not> js_includes path ''{{''"
  shows "render_path num params path = path"
proof -
  have "\<not> js_includes path (placeholder k)" for k
    using assms by (auto simp: js_includes_sublist placeholder_def sublist_def)
  then have "go_ReplaceAll path (placeholder k) v = path" for k v by (simp add: replace_absent placeholder_def)
  then show ?thesis unfolding render_path_def by (induction params) auto
qed

lemma operations_of_paths: "(p, m) \<in> set (operations_of paths ps) \<Longrightarrow> p \<in> set ps"
  by (auto simp: operations_of_def split: option.splits)

lemma imported_paths:
  assumes "Parse olib pre spec = Inr pc" "pe \<in> set (pc_Endpoints pc)"
  shows "\<exists>j root. normalizeToJSON olib spec = Inr j \<and> decode_root j = Some root \<and> pe_Path pe \<in> fst ` set (rt_Paths root)"
  using assms(1)
proof (rule Parse_InrD)
  fix j root
  assume j: "normalizeToJSON olib spec = Inr j" "decode_root j = Some root"
    and p: "parse_paths olib pre (rt_Paths root) (sort (map fst (rt_Paths root))) [] = Inr (pc_Endpoints pc)"
  have "(pe_Path pe, pe_Method pe) \<in> set (map (\<lambda>e. (pe_Path e, pe_Method e)) (pc_Endpoints pc))" using assms(2) by simp
  then have "pe_Path pe \<in> set (sort (map fst (rt_Paths root)))" unfolding parse_paths_ops [OF p] by (rule operations_of_paths)
  with j show ?thesis by auto
qed

section \<open>Properties\<close>

text \<open>C39: The import copies the paths of a document as they are, with the placeholders of OpenAPI in single braces, while
  the client fills placeholders in double braces only. So for a tool that \<^verbatim>\<open>Parse\<close> made of a path without double
  braces, the URL that a call asks for has the document's path unchanged behind the base URL, whatever arguments the
  agent gives: a required path parameter is sent as its placeholder, and an argument shows at most in the query.\<close>

theorem imported_path_unfilled:
  assumes "Parse olib pre spec = Inr pc" "pe \<in> set (pc_Endpoints pc)" "\<not> js_includes (pe_Path pe) ''{{''"
    and "rendered_url clib w conn (imported_endpoint uuid cid pe) params = Inr u"
  shows "(\<exists>j root. normalizeToJSON olib spec = Inr j \<and> decode_root j = Some root \<and> pe_Path pe \<in> fst ` set (rt_Paths root)) \<and>
    lib_Parse clib (full_url (conn_base_url conn) (pe_Path pe)) = Inr u \<and>
    (\<exists>q. with_query clib w (imported_endpoint uuid cid pe) params u = u\<lparr>u_rawquery := q\<rparr>)"
proof (intro conjI)
  show "\<exists>j root. normalizeToJSON olib spec = Inr j \<and> decode_root j = Some root \<and> pe_Path pe \<in> fst ` set (rt_Paths root)"
    using assms(1,2) by (rule imported_paths)
  show "lib_Parse clib (full_url (conn_base_url conn) (pe_Path pe)) = Inr u"
    using assms(4) render_path_braces [OF assms(3)]
    by (auto simp: rendered_url_def imported_endpoint_def Let_def split: sum.splits)
  show "\<exists>q. with_query clib w (imported_endpoint uuid cid pe) params u = u\<lparr>u_rawquery := q\<rparr>"
    by (cases "ep_method (imported_endpoint uuid cid pe) = ''GET''") (auto simp: with_query_def intro: exI [of _ "u_rawquery u"])
qed

text \<open>The tool \<^verbatim>\<open>get_pet\<close> of the sample document, called with a pet: the server is asked for
  \<^verbatim>\<open>/pets/{petId}?petId=7\<close>.\<close>

definition pets_url :: url where
  "pets_url = shop_url\<lparr>u_hostname := ''pets'', u_path := ''/pets/{petId}''\<rparr>"

definition pets_lib :: client_lib where
  "pets_lib = shop_lib\<lparr>lib_Parse := \<lambda>s. if s = ''https://pets/pets/{petId}'' then Inr pets_url else Inl ''parse error''\<rparr>"

definition pets_conn :: connection where
  "pets_conn = shop_conn\<lparr>conn_base_url := ''https://pets''\<rparr>"

definition get_pet :: ParsedEndpoint where
  "get_pet = pc_Endpoints (projr (Parse pet_lib [] ''A'')) ! 1"

definition pet_args :: "args option" where
  "pet_args = Some [(''petId'', JNumber ''7'')]"

theorem imported_path_unfilled_witness:
  "lib_Parse pets_lib (full_url (conn_base_url pets_conn) ''/pets/{petId}'') = Inr pets_url \<and>
   with_query pets_lib shop_world (imported_endpoint ''e1'' ''c9'' get_pet) pet_args pets_url = pets_url\<lparr>u_rawquery := ''petId=7''\<rparr>"
proof -
  have p: "pe_Path get_pet = ''/pets/{petId}''" by code_simp
  have l: "Suc 0 < length (pc_Endpoints (projr (Parse pet_lib [] ''A'')))" by code_simp
  have "\<not> isl (Parse pet_lib [] ''A'')" by code_simp
  then have "Parse pet_lib [] ''A'' = Inr (projr (Parse pet_lib [] ''A''))" by (rule sum.collapse(2) [symmetric])
  moreover have "get_pet \<in> set (pc_Endpoints (projr (Parse pet_lib [] ''A'')))" using l by (simp add: get_pet_def)
  moreover have "\<not> js_includes (pe_Path get_pet) ''{{''" unfolding p by code_simp
  moreover have "rendered_url pets_lib shop_world pets_conn (imported_endpoint ''e1'' ''c9'' get_pet) pet_args = Inr pets_url" by code_simp
  ultimately have "lib_Parse pets_lib (full_url (conn_base_url pets_conn) (pe_Path get_pet)) = Inr pets_url"
    using imported_path_unfilled by blast
  moreover have "with_query pets_lib shop_world (imported_endpoint ''e1'' ''c9'' get_pet) pet_args pets_url =
      pets_url\<lparr>u_rawquery := ''petId=7''\<rparr>" by code_simp
  ultimately show ?thesis by (simp only: p conj_absorb simp_thms)
qed

end
