(* ===== verification/Gateway_Redaction.thy ===== *)
theory Gateway_Redaction
  imports Gateway_Integrity
begin

text \<open>
  Masking of sensitive values, \<^verbatim>\<open>pkg/redaction\<close>. The spans that a compiled regular expression finds in a text and
  the expansion of a template against a match (Go's \<^verbatim>\<open>regexp\<close>) are part of a rule; that they are found from left to
  right without overlap is the hypothesis of the theorems. The check digit of credit cards is defined here. Values are
  the JSON values of \<^verbatim>\<open>Gateway_Integrity\<close>.
\<close>

section \<open>Definitions\<close>

type_synonym span = "nat \<times> nat"

record compiledRule =
  cr_class :: string
  cr_find :: "string \<Rightarrow> span list"
  cr_validate :: "(string \<Rightarrow> bool) option"
  cr_expand :: "(string \<Rightarrow> span \<Rightarrow> string) option"

record redactor =
  rd_enabled :: bool
  rd_rules :: "compiledRule list"

record finding =
  fd_class :: string
  fd_count :: nat

type_synonym counts = "string \<rightharpoonup> nat"

text \<open>\<^verbatim>\<open>text[a:b]\<close>\<close>

definition slice :: "string \<Rightarrow> nat \<Rightarrow> nat \<Rightarrow> string" where
  "slice s a b = take (b - a) (drop a s)"

subsection \<open>Credit cards\<close>

text \<open>The loop of \<^verbatim>\<open>luhnValid\<close>, from the last digit to the first.\<close>

fun luhn_loop :: "nat list \<Rightarrow> bool \<Rightarrow> nat \<Rightarrow> nat" where
  "luhn_loop [] dbl acc = acc"
| "luhn_loop (d # ds) dbl acc =
     (let e = (if dbl then (if 2 * d > 9 then 2 * d - 9 else 2 * d) else d) in luhn_loop ds (\<not> dbl) (acc + e))"

definition digit_value :: "char \<Rightarrow> nat" where
  "digit_value c = of_char c - 48"

definition luhnValid :: "string \<Rightarrow> bool" where
  "luhnValid digits = (luhn_loop (rev (map digit_value digits)) False 0 mod 10 = 0)"

definition is_digit_char :: "char \<Rightarrow> bool" where
  "is_digit_char c \<longleftrightarrow> 48 \<le> (of_char c :: nat) \<and> (of_char c :: nat) \<le> 57"

definition isValidCreditCard :: "string \<Rightarrow> bool" where
  "isValidCreditCard m =
     (let digits = filter (\<lambda>c. c \<noteq> CHR '' '' \<and> c \<noteq> CHR ''-'') m in
      if length digits < 13 \<or> 19 < length digits then False
      else if \<not> list_all is_digit_char digits then False
      else luhnValid digits)"

subsection \<open>Rules\<close>

definition mask :: "compiledRule \<Rightarrow> string \<Rightarrow> span \<Rightarrow> string" where
  "mask rule text m =
     (case cr_expand rule of Some ex \<Rightarrow> ex text m | None \<Rightarrow> ''[REDACTED:'' @ cr_class rule @ '']'')"

fun apply_loop :: "compiledRule \<Rightarrow> string \<Rightarrow> span list \<Rightarrow> string \<Rightarrow> nat \<Rightarrow> nat \<Rightarrow> string \<times> nat" where
  "apply_loop rule text [] out pos cnt = (out @ drop pos text, cnt)"
| "apply_loop rule text ((start, stop) # ms) out pos cnt =
     (if start < pos then apply_loop rule text ms out pos cnt
      else if (case cr_validate rule of Some v \<Rightarrow> \<not> v (slice text start stop) | None \<Rightarrow> False)
      then apply_loop rule text ms out pos cnt
      else apply_loop rule text ms (out @ slice text pos start @ mask rule text (start, stop)) stop (cnt + 1))"

definition applyRule :: "string \<Rightarrow> compiledRule \<Rightarrow> string \<times> nat" where
  "applyRule text rule =
     (let matches = cr_find rule text in
      if length matches = 0 then (text, 0)
      else (let (out, cnt) = apply_loop rule text matches [] 0 0 in if cnt = 0 then (text, 0) else (out, cnt)))"

definition add_count :: "counts \<Rightarrow> string \<Rightarrow> nat \<Rightarrow> counts" where
  "add_count c k n = c(k \<mapsto> (case c k of None \<Rightarrow> 0 | Some m \<Rightarrow> m) + n)"

text \<open>The classes that can occur are those of the rules; \<open>classes\<close> lists the keys of the map in sorted order.\<close>

definition findingsFromCounts :: "string list \<Rightarrow> counts \<Rightarrow> finding list" where
  "findingsFromCounts classes c =
     map (\<lambda>k. \<lparr>fd_class = k, fd_count = the (c k)\<rparr>) (filter (\<lambda>k. c k \<noteq> None) classes)"

definition rule_classes :: "redactor \<Rightarrow> string list" where
  "rule_classes r = sort (remdups (map cr_class (rd_rules r)))"

fun apply_rules :: "compiledRule list \<Rightarrow> string \<Rightarrow> counts \<Rightarrow> string \<times> counts" where
  "apply_rules [] text c = (text, c)"
| "apply_rules (rule # rules) text c =
     (let (text', n) = applyRule text rule in
      apply_rules rules text' (if 0 < n then add_count c (cr_class rule) n else c))"

definition RedactBytes :: "redactor \<Rightarrow> string \<Rightarrow> string \<times> finding list" where
  "RedactBytes r b =
     (if \<not> rd_enabled r then (b, [])
      else (let (text, c) = apply_rules (rd_rules r) b Map.empty in (text, findingsFromCounts (rule_classes r) c)))"

definition add_findings :: "finding list \<Rightarrow> counts \<Rightarrow> counts" where
  "add_findings fs c = foldl (\<lambda>c f. add_count c (fd_class f) (fd_count f)) c fs"

text \<open>\<^verbatim>\<open>redactValue\<close>: the copy of a value, and the counts with its findings added (in the order of the list; the sums do
  not depend on it).\<close>

fun redactValue :: "redactor \<Rightarrow> json \<Rightarrow> counts \<Rightarrow> json \<times> counts"
  and redactList :: "redactor \<Rightarrow> json list \<Rightarrow> counts \<Rightarrow> json list \<times> counts"
  and redactPairs :: "redactor \<Rightarrow> (string \<times> json) list \<Rightarrow> counts \<Rightarrow> (string \<times> json) list \<times> counts" where
  "redactValue r (JString s) c = (let (t, fs) = RedactBytes r s in (JString t, add_findings fs c))"
| "redactValue r (JObject kvs) c = (let (kvs', c') = redactPairs r kvs c in (JObject kvs', c'))"
| "redactValue r (JArray vs) c = (let (vs', c') = redactList r vs c in (JArray vs', c'))"
| "redactValue r JNull c = (JNull, c)"
| "redactValue r (JBoolean b) c = (JBoolean b, c)"
| "redactValue r (JNumber n) c = (JNumber n, c)"
| "redactList r [] c = ([], c)"
| "redactList r (v # vs) c =
     (let (v', c1) = redactValue r v c; (vs', c2) = redactList r vs c1 in (v' # vs', c2))"
| "redactPairs r [] c = ([], c)"
| "redactPairs r ((k, v) # kvs) c =
     (let (v', c1) = redactValue r v c; (kvs', c2) = redactPairs r kvs c1 in ((k, v') # kvs', c2))"

definition RedactMap :: "redactor \<Rightarrow> (string \<times> json) list \<Rightarrow> (string \<times> json) list \<times> finding list" where
  "RedactMap r m = (let (m', c) = redactPairs r m Map.empty in (m', findingsFromCounts (rule_classes r) c))"

subsection \<open>The rules of a redactor\<close>

text \<open>The built-in patterns by their names in \<^verbatim>\<open>patterns.go\<close>, or one of the configuration. Of \<^verbatim>\<open>regexp\<close>: whether a pattern
  compiles, the spans it finds in a text, and the expansion of a template.\<close>

datatype pattern =
    emailRe | jwtRe | awsKeyRe | creditCardRe | ibanRe | secretAssignRe | bearerRe | openAIKeyRe
  | Custom string

record regexp_lib =
  rx_compiles :: "string \<Rightarrow> bool"
  rx_find :: "pattern \<Rightarrow> string \<Rightarrow> span list"
  rx_expand :: "pattern \<Rightarrow> string \<Rightarrow> string \<Rightarrow> span \<Rightarrow> string"

definition plain_rule :: "regexp_lib \<Rightarrow> string \<Rightarrow> pattern \<Rightarrow> compiledRule" where
  "plain_rule lib cls re = \<lparr>cr_class = cls, cr_find = rx_find lib re, cr_validate = None, cr_expand = None\<rparr>"

definition template_rule :: "regexp_lib \<Rightarrow> string \<Rightarrow> pattern \<Rightarrow> string \<Rightarrow> compiledRule" where
  "template_rule lib cls re tpl = (plain_rule lib cls re)\<lparr>cr_expand := Some (rx_expand lib re tpl)\<rparr>"

definition builtinRules :: "regexp_lib \<Rightarrow> compiledRule list" where
  "builtinRules lib =
     [plain_rule lib ''email'' emailRe,
      plain_rule lib ''jwt'' jwtRe,
      plain_rule lib ''aws_access_key'' awsKeyRe,
      (plain_rule lib ''credit_card'' creditCardRe)\<lparr>cr_validate := Some isValidCreditCard\<rparr>,
      plain_rule lib ''iban'' ibanRe,
      template_rule lib ''secret'' secretAssignRe ''${1}=[REDACTED:secret]'',
      template_rule lib ''secret'' bearerRe ''${1}[REDACTED:secret]'',
      plain_rule lib ''secret'' openAIKeyRe]"

text \<open>\<^verbatim>\<open>New\<close>: the custom rules, as pairs of class and pattern, come after the built-in ones; the first that does not compile
  is reported.\<close>

definition New_Redactor :: "regexp_lib \<Rightarrow> bool \<Rightarrow> (string \<times> string) list \<Rightarrow> string + redactor" where
  "New_Redactor lib enabled customs =
     (case find (\<lambda>(cls, p). \<not> rx_compiles lib p) customs of
        Some (cls, p) \<Rightarrow> Inl cls
      | None \<Rightarrow>
          Inr \<lparr>rd_enabled = enabled,
               rd_rules = builtinRules lib @ map (\<lambda>(cls, p). plain_rule lib cls (Custom p)) customs\<rparr>)"

section \<open>Reference notions\<close>

text \<open>The text between the spans: before the first, between each two, after the last.\<close>

fun gaps :: "string \<Rightarrow> nat \<Rightarrow> span list \<Rightarrow> string list" where
  "gaps text pos [] = [drop pos text]"
| "gaps text pos ((a, b) # ms) = slice text pos a # gaps text b ms"

text \<open>Spans in order, without overlap and inside the text.\<close>

fun spans_ok :: "nat \<Rightarrow> nat \<Rightarrow> span list \<Rightarrow> bool" where
  "spans_ok pos n [] \<longleftrightarrow> pos \<le> n"
| "spans_ok pos n ((a, b) # ms) \<longleftrightarrow> pos \<le> a \<and> a \<le> b \<and> spans_ok b n ms"

definition accepted :: "compiledRule \<Rightarrow> string \<Rightarrow> span list" where
  "accepted rule text =
     filter (\<lambda>(a, b). case cr_validate rule of Some v \<Rightarrow> v (slice text a b) | None \<Rightarrow> True) (cr_find rule text)"

text \<open>The weighted sum of Luhn's check, with the weights written out.\<close>

definition luhn_weight :: "nat \<Rightarrow> nat \<Rightarrow> nat" where
  "luhn_weight i d = (if even i then d else (2 * d) div 10 + (2 * d) mod 10)"

definition luhn_sum :: "nat list \<Rightarrow> nat" where
  "luhn_sum ds = sum_list (map2 luhn_weight [0..<length ds] (rev ds))"

text \<open>A value with a function applied to every text in it, but not to the keys of objects.\<close>

primrec map_strings :: "(string \<Rightarrow> string) \<Rightarrow> json \<Rightarrow> json" where
  "map_strings f JNull = JNull"
| "map_strings f (JBoolean b) = JBoolean b"
| "map_strings f (JNumber n) = JNumber n"
| "map_strings f (JString s) = JString (f s)"
| "map_strings f (JArray vs) = JArray (map (map_strings f) vs)"
| "map_strings f (JObject kvs) = JObject (map (map_prod id (map_strings f)) kvs)"

section \<open>Lemmas\<close>

subsection \<open>Rules\<close>

lemma spans_ok_mono: "spans_ok p n ms \<Longrightarrow> q \<le> p \<Longrightarrow> spans_ok q n ms"
  by (cases ms) auto

lemma spans_ok_filter: "spans_ok p n ms \<Longrightarrow> spans_ok p n (filter P ms)"
  by (induction p n ms rule: spans_ok.induct) (auto intro: spans_ok_mono)

text \<open>The loop puts the mask of each accepted span between the gaps.\<close>

lemma apply_loop_join:
  assumes "spans_ok pos n ms" "\<And>m. cr_expand rl = None"
  shows "apply_loop rl tx ms out pos cnt =
    (let acc = filter (\<lambda>(a, b). case cr_validate rl of Some v \<Rightarrow> v (slice tx a b) | None \<Rightarrow> True) ms in
     (out @ js_join (''[REDACTED:'' @ cr_class rl @ '']'') (gaps tx pos acc), cnt + length acc))"
  using assms
proof (induction rl tx ms out pos cnt rule: apply_loop.induct)
  case (2 rl tx start stop ms out pos cnt)
  let ?ok = "\<lambda>(a, b). case cr_validate rl of Some v \<Rightarrow> v (slice tx a b) | None \<Rightarrow> True"
  have p: "pos \<le> start" "start \<le> stop" "spans_ok stop n ms" "spans_ok pos n ms"
    using 2(4) spans_ok_mono [of stop n ms pos] by auto
  have g: "js_join d (x # gaps tx q ns) = x @ d @ js_join d (gaps tx q ns)" for d x q ns
    by (cases ns) auto
  show ?case
  proof (cases "?ok (start, stop)")
    case True
    then show ?thesis
      using p 2(3) [OF _ _ p(3)] 2(5) by (auto simp: Let_def mask_def g split: option.splits)
  next
    case False
    then show ?thesis
      using p 2(2) [OF _ _ p(4)] 2(5) by (auto simp: Let_def split: option.splits)
  qed
qed simp

lemma applyRule_join:
  assumes "spans_ok 0 (length tx) (cr_find rl tx)" "cr_expand rl = None"
  shows "applyRule tx rl =
    (js_join (''[REDACTED:'' @ cr_class rl @ '']'') (gaps tx 0 (accepted rl tx)), length (accepted rl tx))"
proof -
  have "apply_loop rl tx (cr_find rl tx) [] 0 0 =
      (js_join (''[REDACTED:'' @ cr_class rl @ '']'') (gaps tx 0 (accepted rl tx)), length (accepted rl tx))"
    using apply_loop_join [OF assms(1), of rl tx "[]" 0] assms(2) by (simp add: accepted_def Let_def)
  then show ?thesis
    by (auto simp: applyRule_def Let_def accepted_def)
qed

subsection \<open>Luhn's check\<close>

lemma luhn_loop_sum:
  "\<forall>d \<in> set ds. d \<le> 9 \<Longrightarrow> dbl = odd k \<Longrightarrow>
   luhn_loop ds dbl acc = acc + sum_list (map2 luhn_weight [k..<k + length ds] ds)"
proof (induction ds arbitrary: dbl k acc)
  case (Cons d ds)
  have upt: "[k..<k + length (d # ds)] = k # [Suc k..<Suc k + length ds]"
    using upt_conv_Cons [of k "k + length (d # ds)"] by simp
  have "(if dbl then (if 2 * d > 9 then 2 * d - 9 else 2 * d) else d) = luhn_weight k d"
    using Cons.prems by (auto simp: luhn_weight_def mod_if div_if)
  then show ?case
    using Cons.IH [of "\<not> dbl" "Suc k"] Cons.prems unfolding upt by (simp add: Let_def)
qed simp

lemma digit_value_le: "is_digit_char c \<Longrightarrow> digit_value c \<le> 9"
  unfolding is_digit_char_def digit_value_def by linarith

lemma luhnValid_sum:
  "list_all is_digit_char s \<Longrightarrow> luhnValid s \<longleftrightarrow> luhn_sum (map digit_value s) mod 10 = 0"
  using luhn_loop_sum [of "rev (map digit_value s)" False 0 0] digit_value_le
  by (simp add: luhnValid_def luhn_sum_def list_all_iff rev_map)

text \<open>The weights permute the digits: no two digits have the same.\<close>

lemma luhn_weight_cases: "d \<le> 9 \<Longrightarrow> luhn_weight i d = (if even i then d else if d < 5 then 2 * d else 2 * d - 9)"
  by (auto simp: luhn_weight_def mod_if div_if)

lemma luhn_weight_inj: "x \<le> 9 \<Longrightarrow> y \<le> 9 \<Longrightarrow> luhn_weight i x = luhn_weight i y \<Longrightarrow> x = y"
  by (simp add: luhn_weight_cases split: if_splits) presburger+

lemma luhn_weight_le: "d \<le> 9 \<Longrightarrow> luhn_weight i d \<le> 9"
  by (auto simp: luhn_weight_cases)

lemma sum_map2_update:
  "j < length xs \<Longrightarrow> length ks = length xs \<Longrightarrow>
   sum_list (map2 f ks (xs[j := x])) + f (ks ! j) (xs ! j) = sum_list (map2 f ks xs) + (f (ks ! j) x :: nat)"
proof (induction xs arbitrary: j ks)
  case (Cons y ys)
  then show ?case by (cases ks; cases j) (auto simp: add_ac)
qed simp

lemma luhn_sum_update:
  assumes "i < length ds"
  shows "luhn_sum (ds[i := d]) + luhn_weight (length ds - Suc i) (ds ! i) = luhn_sum ds + luhn_weight (length ds - Suc i) d"
  using sum_map2_update [of "length ds - Suc i" "rev ds" "[0..<length ds]" luhn_weight d] assms
  by (simp add: luhn_sum_def rev_update rev_nth)

lemma digit_value_inj: "is_digit_char a \<Longrightarrow> is_digit_char b \<Longrightarrow> digit_value a = digit_value b \<Longrightarrow> a = b"
proof -
  assume "is_digit_char a" "is_digit_char b" "digit_value a = digit_value b"
  then have "(of_char a :: nat) = of_char b" unfolding is_digit_char_def digit_value_def by linarith
  then show "a = b" by simp
qed

lemma mod_ten_unique:
  "a + x = b + y \<Longrightarrow> x \<le> 9 \<Longrightarrow> y \<le> 9 \<Longrightarrow> b mod 10 = 0 \<Longrightarrow> a mod 10 = 0 \<Longrightarrow> x = (y :: nat)"
  by presburger

lemma luhn_single_digit:
  assumes "list_all is_digit_char s" "i < length s" "is_digit_char c" "luhnValid s" "luhnValid (s[i := c])"
  shows "s ! i = c"
proof -
  let ?k = "length s - Suc i" and ?x = "digit_value (s ! i)" and ?y = "digit_value c"
  have si: "is_digit_char (s ! i)" using assms(1,2) by (simp add: list_all_length)
  have "list_all is_digit_char (s[i := c])"
    using assms(1,3) set_update_subset_insert [of s i c] by (auto simp: list_all_iff)
  then have z: "luhn_sum (map digit_value s) mod 10 = 0" "luhn_sum ((map digit_value s)[i := ?y]) mod 10 = 0"
    using luhnValid_sum assms(1,4,5) by (simp_all add: map_update)
  have e: "luhn_sum ((map digit_value s)[i := ?y]) + luhn_weight ?k ?x = luhn_sum (map digit_value s) + luhn_weight ?k ?y"
    using luhn_sum_update [of i "map digit_value s" ?y] assms(2) by simp
  have d: "?x \<le> 9" "?y \<le> 9" using si assms(3) by (simp_all add: digit_value_le)
  have "luhn_weight ?k ?x = luhn_weight ?k ?y"
    by (rule mod_ten_unique [OF e luhn_weight_le [OF d(1)] luhn_weight_le [OF d(2)] z])
  with d have "?x = ?y" by (rule luhn_weight_inj)
  with si assms(3) show ?thesis by (rule digit_value_inj)
qed

subsection \<open>Values\<close>

lemma redactValue_map:
  "fst (redactValue r v c) = map_strings (\<lambda>s. fst (RedactBytes r s)) v"
  "fst (redactList r vs c) = map (map_strings (\<lambda>s. fst (RedactBytes r s))) vs"
  "fst (redactPairs r kvs c) = map (map_prod id (map_strings (\<lambda>s. fst (RedactBytes r s)))) kvs"
  by (induction r v c and r vs c and r kvs c rule: redactValue_redactList_redactPairs.induct)
    (auto simp: split_beta Let_def prod_eq_iff)

lemma RedactMap_map: "fst (RedactMap r m) = map (map_prod id (map_strings (\<lambda>s. fst (RedactBytes r s)))) m"
  by (simp add: RedactMap_def split_beta redactValue_map)

text \<open>Values for the examples: the rule for card numbers, with a finder that takes the whole text.\<close>

definition whole_text :: "string \<Rightarrow> span list" where
  "whole_text s = [(0, length s)]"

definition card_rule :: compiledRule where
  "card_rule = \<lparr>cr_class = ''credit_card'', cr_find = whole_text, cr_validate = Some isValidCreditCard, cr_expand = None\<rparr>"

section \<open>Properties\<close>

text \<open>Masking hides what was found and nothing else: the masked text is the text between the accepted matches, joined
  by the tag of the class, so that it does not depend on the matched values; the number reported is the number of
  accepted matches, and a match that fails the extra check stays as it is.\<close>

theorem masked_text_is_join:
  assumes "spans_ok 0 (length s) (cr_find rl s)" "cr_expand rl = None"
  shows "applyRule s rl =
    (js_join (''[REDACTED:'' @ cr_class rl @ '']'') (gaps s 0 (accepted rl s)), length (accepted rl s))"
  by (rule applyRule_join [OF assms])

theorem masked_text_is_join_witness:
  "applyRule ''4111-1111-1111-1111'' card_rule = (''[REDACTED:credit_card]'', 1)"
proof -
  have "accepted card_rule ''4111-1111-1111-1111'' = [(0, 19)]" by code_simp
  then show ?thesis
    using masked_text_is_join [of "''4111-1111-1111-1111''" card_rule]
    by (simp add: card_rule_def whole_text_def slice_def)
qed

text \<open>The check digit does its work: two card numbers that differ in exactly one digit are not both accepted.\<close>

theorem luhn_detects_single_error:
  assumes "list_all is_digit_char s" "i < length s" "is_digit_char c" "s ! i \<noteq> c"
  shows "\<not> (luhnValid s \<and> luhnValid (s[i := c]))"
  using luhn_single_digit [OF assms(1-3)] assms(4) by blast

theorem luhn_detects_single_error_witness: "\<not> (luhnValid ''79927398713'' \<and> luhnValid (''79927398713''[3 := CHR ''7'']))"
proof -
  have "list_all is_digit_char ''79927398713''" "is_digit_char (CHR ''7'')" "''79927398713'' ! 3 \<noteq> CHR ''7''" by code_simp+
  then show ?thesis by (intro luhn_detects_single_error) simp_all
qed

end
