(* ===== verification/Gateway_Mcp.thy ===== *)
theory Gateway_Mcp
  imports Gateway_Client Gateway_Redaction Gateway_Api
begin

text \<open>
  The MCP server, \<^verbatim>\<open>pkg/mcp/server.go\<close>: authentication of agents and their scopes, the JSON-RPC requests (listing and
  calling of tools, the administrative tools), the sessions of the two HTTP transports and of standard input, and the
  channel through which audit entries reach the store. Tool calls go through the client of \<^verbatim>\<open>Gateway_Client\<close>, the store and
  the vault. Messages are represented by their decoded values; the text of an error is a value of a datatype. What a
  request cannot determine is an argument (\<open>mcp_outcome\<close>): failures of the store and of the vault's file, the world of a
  call, fresh identifiers, the time a call takes.
\<close>

section \<open>Definitions\<close>

subsection \<open>Messages\<close>

record rpc_request =
  rpc_method :: string
  rpc_params :: "json option"
  rpc_id :: "json option"

record tool =
  tl_name :: string
  tl_description :: string
  tl_inputSchema :: json
  tl_meta :: "(string \<times> json) list"

datatype tool_error =
    LoadEndpoints db_error
  | LoadConnections db_error
  | ToolNotFound string
  | CallFailed call_error
  | BadArgument string string
  | RegisterConnection db_error
  | RegisterEndpoint db_error
  | RegisterSecret string
  | UnknownAdminTool string

datatype rpc_message =
    InvalidParams
  | AdminRequired string
  | ScopeFailed string
  | DefinitionChanged string
  | ToolFailed tool_error
  | ListFailed db_error
  | MethodNotFound string

datatype rpc_result = RInitialize | RTools "tool list" | RContent string

record rpc_response =
  rs_id :: "json option"
  rs_outcome :: "(int \<times> rpc_message) + rpc_result"

subsection \<open>The server\<close>

record audit_entry =
  ae_id :: string
  ae_identity :: string
  ae_tool :: string
  ae_status :: string
  ae_duration :: int
  ae_errMsg :: string
  ae_redaction :: string

datatype sse_event = EndpointEvent string | MessageEvent rpc_response | Keepalive

record mcp_session =
  se_identity :: string
  se_role :: string
  se_scopes :: "string list"
  se_tokenHash :: string
  se_stream :: "sse_event list"

text \<open>What is fixed when the server is made: \<open>mc_oauth\<close> is the validator of OAuth tokens if one is enabled, which gives the
  subject and the scopes of a valid token.\<close>

record mcp_config =
  mc_auth :: auth_manager
  mc_corsOrigins :: "string list"
  mc_maxSessions :: int
  mc_oauth :: "(string \<Rightarrow> (string \<times> string list) option) option"
  mc_redactor :: "redactor option"
  mc_toolPinningStrict :: bool

record mcp_lib =
  ml_auth :: auth_lib
  ml_store :: store_env
  ml_vault :: vault_lib
  ml_client :: client_lib
  ml_error_text :: "tool_error \<Rightarrow> string"

record mcp_server =
  ms_now :: int
  ms_db :: db
  ms_client :: GatewayClient
  ms_vault :: local_vault
  ms_sessions :: "(string \<times> mcp_session) list"
  ms_activeQueries :: int
  ms_auditCh :: "audit_entry list"

record mcp_outcome =
  mo_fault :: fault
  mo_fault2 :: fault
  mo_token_fault :: fault
  mo_world :: world
  mo_uuid :: string
  mo_log_id :: string
  mo_nonce :: string
  mo_write :: write_outcome
  mo_duration :: int

definition NewMCPServer :: "int \<Rightarrow> db \<Rightarrow> GatewayClient \<Rightarrow> local_vault \<Rightarrow> mcp_server" where
  "NewMCPServer now d client lv =
     \<lparr>ms_now = now, ms_db = d, ms_client = client, ms_vault = lv, ms_sessions = [], ms_activeQueries = 0, ms_auditCh = []\<rparr>"

definition GetActiveSessionCount :: "mcp_server \<Rightarrow> nat" where
  "GetActiveSessionCount s = length (ms_sessions s)"

subsection \<open>Audit entries\<close>

definition audit_capacity :: nat where
  "audit_capacity = 1000"

definition logAuditAsync :: "audit_entry \<Rightarrow> mcp_server \<Rightarrow> mcp_server" where
  "logAuditAsync e s =
     (if length (ms_auditCh s) < audit_capacity then s\<lparr>ms_auditCh := ms_auditCh s @ [e]\<rparr> else s)"

definition formatFindings :: "finding list \<Rightarrow> string" where
  "formatFindings fs = js_join '','' (map (\<lambda>f. fd_class f @ CHR ''='' # nat_to_string (fd_count f)) fs)"

definition audit_message :: "audit_entry \<Rightarrow> string" where
  "audit_message e =
     (if ae_redaction e \<noteq> [] then
        (if ae_errMsg e \<noteq> [] then ae_errMsg e @ ''; redacted: '' @ ae_redaction e else ''redacted: '' @ ae_redaction e)
      else ae_errMsg e)"

definition audit_row_of :: "audit_entry \<Rightarrow> audit_row" where
  "audit_row_of e =
     \<lparr>log_timestamp = [], log_client_identity = ae_identity e, log_tool_name = ae_tool e, log_status = ae_status e,
      log_duration_ms = ae_duration e, log_error_message = audit_message e, log_id = ae_id e\<rparr>"

text \<open>One turn of the worker: it takes the oldest entry from the channel and writes it; a failed write is only logged.\<close>

definition auditWorker :: "fault \<Rightarrow> string \<Rightarrow> mcp_server \<Rightarrow> mcp_server" where
  "auditWorker f ts s =
     (case ms_auditCh s of
        [] \<Rightarrow> s
      | e # ch \<Rightarrow> s\<lparr>ms_auditCh := ch, ms_db := snd (LogAudit f ts (audit_row_of e) (ms_db s))\<rparr>)"

subsection \<open>Authentication\<close>

record mcp_http =
  mh_method :: string
  mh_url :: string
  mh_headers :: "(string \<times> string) list"
  mh_body :: "rpc_request option"

definition extractToken :: "mcp_http \<Rightarrow> string" where
  "extractToken r =
     (let authHeader = header_get (mh_headers r) ''Authorization'' in
      if go_HasPrefix (js_toLowerCase authHeader) ''bearer '' then go_TrimSpace (drop 7 authHeader)
      else Query_Get (url_query (mh_url r)) ''token'')"

definition sessionTokenHash :: "mcp_lib \<Rightarrow> string \<Rightarrow> string" where
  "sessionTokenHash lib token = hash_token (ml_store lib) token"

fun matchScope :: "string \<Rightarrow> string list \<Rightarrow> bool" where
  "matchScope toolName [] = False"
| "matchScope toolName (scope # scopes) =
     (if scope = ''*'' then True
      else if go_HasSuffix scope ''*'' \<and> go_HasPrefix toolName (take (length scope - 1) scope) then True
      else if toolName = scope then True
      else matchScope toolName scopes)"

definition split_scopes :: "string \<Rightarrow> string list" where
  "split_scopes s = filter (\<lambda>t. t \<noteq> []) (map go_TrimSpace (go_Split s (CHR '','')))"

type_synonym identity = "string \<times> string \<times> string list"

definition oauth_identity :: "mcp_config \<Rightarrow> string \<Rightarrow> identity option" where
  "oauth_identity cfg token =
     (case mc_oauth cfg of
        None \<Rightarrow> None
      | Some ValidateToken \<Rightarrow>
          (case ValidateToken token of
             None \<Rightarrow> None
           | Some (subject, scopes) \<Rightarrow> Some (if subject = [] then ''oauth-client'' else subject, ''user'', scopes)))"

definition resolveAuth :: "mcp_config \<Rightarrow> mcp_lib \<Rightarrow> fault \<Rightarrow> string \<Rightarrow> db \<Rightarrow> identity option" where
  "resolveAuth cfg lib f token d =
     (if VerifyGatewayToken (ml_auth lib) (mc_auth cfg) token then Some (''master'', ''admin'', [''*''])
      else case GetClientToken (hash_token (ml_store lib)) f token d of
             Inr ct \<Rightarrow>
               if tok_enabled ct then Some (tok_client_name ct, tok_client_role ct, split_scopes (tok_scopes ct))
               else oauth_identity cfg token
           | Inl _ \<Rightarrow> oauth_identity cfg token)"

definition allowedOrigin :: "mcp_config \<Rightarrow> mcp_http \<Rightarrow> string" where
  "allowedOrigin cfg r =
     (let origin = header_get (mh_headers r) ''Origin'' in
      if origin = [] then []
      else case find (\<lambda>x. x = ''*'' \<or> go_EqualFold x origin) (mc_corsOrigins cfg) of None \<Rightarrow> [] | Some x \<Rightarrow> x)"

subsection \<open>Tools\<close>

definition conn_map :: "connection list \<Rightarrow> string \<rightharpoonup> connection" where
  "conn_map conns = map_of (rev (map (\<lambda>c. (conn_id c, c)) conns))"

text \<open>The name under which an endpoint of an enabled connection is exposed.\<close>

definition resolved_name :: "connection \<Rightarrow> stored_endpoint \<Rightarrow> string" where
  "resolved_name conn ep = (if conn_tool_prefix conn \<noteq> [] then conn_tool_prefix conn @ ep_tool_name ep else ep_tool_name ep)"

definition live_conn :: "connection list \<Rightarrow> stored_endpoint \<Rightarrow> connection option" where
  "live_conn conns ep =
     (case conn_map conns (ep_connection_id ep) of
        None \<Rightarrow> None
      | Some conn \<Rightarrow> (if \<not> conn_enabled conn then None else Some conn))"

definition empty_schema :: json where
  "empty_schema = JObject [(''type'', JString ''object''), (''properties'', JObject [])]"

definition tool_schema :: "mcp_lib \<Rightarrow> string \<Rightarrow> json" where
  "tool_schema lib schema =
     (if schema \<noteq> [] then
        (case il_unmarshal (integrity (ml_store lib)) schema of
           Some (JObject m) \<Rightarrow> JObject m
         | Some JNull \<Rightarrow> JNull
         | _ \<Rightarrow> empty_schema)
      else empty_schema)"

definition toolMeta :: "stored_endpoint \<Rightarrow> (string \<times> json) list" where
  "toolMeta ep =
     (if ep_definition_hash ep = [] then []
      else (''definitionHash'', JString (ep_definition_hash ep)) #
           (if ep_version ep \<noteq> 0 then [(''version'', JNumber (int_to_string (ep_version ep)))] else []))"

definition endpoint_tool :: "mcp_lib \<Rightarrow> connection list \<Rightarrow> string list \<Rightarrow> stored_endpoint \<Rightarrow> tool option" where
  "endpoint_tool lib conns scopes ep =
     (case live_conn conns ep of
        None \<Rightarrow> None
      | Some conn \<Rightarrow>
          (let toolName = resolved_name conn ep in
           if \<not> matchScope toolName scopes then None
           else Some \<lparr>tl_name = toolName, tl_description = ep_tool_description ep,
                      tl_inputSchema = tool_schema lib (ep_parameters_schema ep), tl_meta = toolMeta ep\<rparr>))"

definition property :: "string \<Rightarrow> string \<Rightarrow> string \<Rightarrow> string \<times> json" where
  "property name ty desc = (name, JObject [(''type'', JString ty), (''description'', JString desc)])"

definition admin_schema :: "(string \<times> json) list \<Rightarrow> string list \<Rightarrow> json" where
  "admin_schema props req =
     JObject [(''type'', JString ''object''), (''properties'', JObject props), (''required'', JArray (map JString req))]"

definition admin_tools :: "tool list" where
  "admin_tools =
     [\<lparr>tl_name = ''admin_add_connection'',
       tl_description = ''Administratively register a new target API Connection into the Gateway.'',
       tl_inputSchema = admin_schema
         [property ''name'' ''string'' ''Human name for connection'',
          property ''base_url'' ''string'' ''Base target URL, e.g. https://api.stripe.com'',
          property ''auth_type'' ''string'' ''none, basic, bearer, custom_headers'',
          property ''auth_secret_ref'' ''string'' ''Secret path inside the vault proxy'',
          property ''tool_prefix'' ''string'' ''Optional namespacing prefix prepended to all tools'',
          property ''enabled'' ''boolean'' ''Active state'']
         [''name'', ''base_url'', ''auth_type''],
       tl_meta = []\<rparr>,
      \<lparr>tl_name = ''admin_add_endpoint'',
       tl_description = ''Administratively expose a target HTTP endpoint path as an MCP tool.'',
       tl_inputSchema = admin_schema
         [property ''connection_id'' ''string'' ''Target API connection ID UUID'',
          property ''tool_name'' ''string'' ''Exposed tool method identifier, e.g. get_billing_records'',
          property ''tool_description'' ''string'' ''Description explaining when the LLM should invoke this tool'',
          property ''path'' ''string'' ''Endpoint URI path, e.g. /v1/records/{{id}}'',
          property ''method'' ''string'' ''GET, POST, PUT, DELETE'',
          property ''parameters_schema'' ''string'' ''JSON Schema string defining expected variables'',
          property ''template'' ''string'' ''Optional JSON post template body mapping parameters'']
         [''connection_id'', ''tool_name'', ''tool_description'', ''path'', ''method''],
       tl_meta = []\<rparr>,
      \<lparr>tl_name = ''admin_register_vault_secret'',
       tl_description = ''Administratively insert secure private credentials directly into the integrated Vault.'',
       tl_inputSchema = admin_schema
         [property ''key'' ''string'' ''Secret lookup path reference'',
          property ''value'' ''string'' ''Plain private credential or JSON header map'']
         [''key'', ''value''],
       tl_meta = []\<rparr>]"

definition listTools ::
  "mcp_lib \<Rightarrow> mcp_outcome \<Rightarrow> string \<Rightarrow> string list \<Rightarrow> mcp_server \<Rightarrow> (db_error + tool list) \<times> mcp_server" where
  "listTools lib oc role scopes s =
     (case GetAllEndpoints (mo_fault oc) (ms_now s) (ms_db s) of
        (Inl e, d) \<Rightarrow> (Inl e, s\<lparr>ms_db := d\<rparr>)
      | (Inr eps, d) \<Rightarrow>
          (case GetConnections (mo_fault2 oc) (ms_now s) d of
             (Inl e, d) \<Rightarrow> (Inl e, s\<lparr>ms_db := d\<rparr>)
           | (Inr conns, d) \<Rightarrow>
               (Inr (List.map_filter (endpoint_tool lib conns scopes) eps @
                     (if role = ''admin'' then filter (\<lambda>t. matchScope (tl_name t) scopes) admin_tools else [])),
                s\<lparr>ms_db := d\<rparr>)))"

definition findEndpoint ::
  "mcp_outcome \<Rightarrow> string \<Rightarrow> mcp_server \<Rightarrow> (tool_error + (stored_endpoint \<times> connection) option) \<times> mcp_server" where
  "findEndpoint oc name s =
     (case GetAllEndpoints (mo_fault oc) (ms_now s) (ms_db s) of
        (Inl e, d) \<Rightarrow> (Inl (LoadEndpoints e), s\<lparr>ms_db := d\<rparr>)
      | (Inr eps, d) \<Rightarrow>
          (case GetConnections (mo_fault2 oc) (ms_now s) d of
             (Inl e, d) \<Rightarrow> (Inl (LoadConnections e), s\<lparr>ms_db := d\<rparr>)
           | (Inr conns, d) \<Rightarrow>
               (Inr (case find (\<lambda>ep. case live_conn conns ep of None \<Rightarrow> False | Some c \<Rightarrow> resolved_name c ep = name) eps of
                       None \<Rightarrow> None
                     | Some ep \<Rightarrow> map_option (Pair ep) (live_conn conns ep)),
                s\<lparr>ms_db := d\<rparr>)))"

definition toolDefinitionChanged :: "mcp_lib \<Rightarrow> mcp_outcome \<Rightarrow> string \<Rightarrow> mcp_server \<Rightarrow> (tool_error + bool) \<times> mcp_server" where
  "toolDefinitionChanged lib oc name s =
     (if go_HasPrefix name ''admin_'' then (Inr False, s)
      else case findEndpoint oc name s of
             (Inl e, s) \<Rightarrow> (Inl e, s)
           | (Inr None, s) \<Rightarrow> (Inr False, s)
           | (Inr (Some (ep, _)), s) \<Rightarrow>
               (Inr (tool_changed (integrity (ml_store lib)) (ep_definition_hash ep)
                  \<lparr>td_name = name, td_description = ep_tool_description ep, td_method = ep_method ep, td_path = ep_path ep,
                   td_schema = ep_parameters_schema ep\<rparr>), s))"

subsection \<open>Administrative tools\<close>

definition requireStringArg :: "args \<Rightarrow> string \<Rightarrow> string option" where
  "requireStringArg args key = (case map_of args key of Some (JString v) \<Rightarrow> (if v = [] then None else Some v) | _ \<Rightarrow> None)"

definition optionalStringArg :: "args \<Rightarrow> string \<Rightarrow> string" where
  "optionalStringArg args key = (case map_of args key of Some (JString v) \<Rightarrow> v | _ \<Rightarrow> [])"

text \<open>The required arguments of a tool, in the order in which they are asked for; the first that is missing is reported.\<close>

fun require_args :: "string \<Rightarrow> args \<Rightarrow> string list \<Rightarrow> tool_error + string list" where
  "require_args tool args [] = Inr []"
| "require_args tool args (k # ks) =
     (case requireStringArg args k of
        None \<Rightarrow> Inl (BadArgument tool k)
      | Some v \<Rightarrow> (case require_args tool args ks of Inl e \<Rightarrow> Inl e | Inr vs \<Rightarrow> Inr (v # vs)))"

definition admin_connection :: "args \<Rightarrow> string \<Rightarrow> string list \<Rightarrow> connection" where
  "admin_connection args uuid vs =
     \<lparr>conn_id = uuid, conn_name = vs ! 0, conn_description = [], conn_base_url = vs ! 1, conn_auth_type = vs ! 2,
      conn_auth_secret_ref = optionalStringArg args ''auth_secret_ref'',
      conn_enabled = (case map_of args ''enabled'' of Some (JBoolean b) \<Rightarrow> b | _ \<Rightarrow> True),
      conn_tool_prefix = optionalStringArg args ''tool_prefix''\<rparr>"

definition admin_endpoint :: "args \<Rightarrow> string \<Rightarrow> string list \<Rightarrow> stored_endpoint" where
  "admin_endpoint args uuid vs =
     \<lparr>ep_id = uuid, ep_connection_id = vs ! 0, ep_tool_name = vs ! 1, ep_tool_description = vs ! 2, ep_path = vs ! 3,
      ep_method = vs ! 4, ep_parameters_schema = optionalStringArg args ''parameters_schema'',
      ep_template = optionalStringArg args ''template'', ep_definition_hash = [], ep_version = 0\<rparr>"

text \<open>The verb \<^verbatim>\<open>%q\<close> on printable text in UTF-8.\<close>

definition quote_char :: "char \<Rightarrow> string" where
  "quote_char c =
     (let n = of_char c :: nat in
      if c = quote \<or> c = backslash then [backslash, c]
      else if 7 \<le> n \<and> n \<le> 13 then [backslash, ''abtnvfr'' ! (n - 7)]
      else if n < 32 \<or> n = 127 then [backslash, CHR ''x'', hex_digit lower_hex (n div 16), hex_digit lower_hex (n mod 16)]
      else [c])"

definition fmt_q :: "string \<Rightarrow> string" where
  "fmt_q s = quote # concat (map quote_char s) @ [quote]"

definition registered_text :: "string \<Rightarrow> string \<Rightarrow> string \<Rightarrow> string" where
  "registered_text kind name uuid = ''Successfully registered '' @ kind @ '' '' @ fmt_q name @ ''. ID: '' @ uuid"

definition handleAdminTool ::
  "mcp_lib \<Rightarrow> mcp_outcome \<Rightarrow> string \<Rightarrow> args \<Rightarrow> mcp_server \<Rightarrow> (tool_error + string) \<times> mcp_server" where
  "handleAdminTool lib oc name args s =
     (if name = ''admin_add_connection'' then
        (case require_args name args [''name'', ''base_url'', ''auth_type''] of
           Inl e \<Rightarrow> (Inl e, s)
         | Inr vs \<Rightarrow>
             (case SaveConnection (mo_fault oc) (admin_connection args (mo_uuid oc) vs) (ms_db s) of
                (Inl e, d) \<Rightarrow> (Inl (RegisterConnection e), s\<lparr>ms_db := d\<rparr>)
              | (Inr _, d) \<Rightarrow> (Inr (registered_text ''connection'' (vs ! 0) (mo_uuid oc)), s\<lparr>ms_db := d\<rparr>)))
      else if name = ''admin_add_endpoint'' then
        (case require_args name args [''connection_id'', ''tool_name'', ''tool_description'', ''path'', ''method''] of
           Inl e \<Rightarrow> (Inl e, s)
         | Inr vs \<Rightarrow>
             (case SaveEndpoint (hash_def (ml_store lib)) (mo_fault oc) (mo_fault2 oc) (admin_endpoint args (mo_uuid oc) vs) (ms_db s) of
                (Inl e, d) \<Rightarrow> (Inl (RegisterEndpoint e), s\<lparr>ms_db := d\<rparr>)
              | (Inr _, d) \<Rightarrow> (Inr (registered_text ''tool'' (vs ! 1) (mo_uuid oc)), s\<lparr>ms_db := d\<rparr>)))
      else if name = ''admin_register_vault_secret'' then
        (case require_args name args [''key'', ''value''] of
           Inl e \<Rightarrow> (Inl e, s)
         | Inr vs \<Rightarrow>
             (case SetSecret (ml_vault lib) (mo_nonce oc) (mo_write oc) (vs ! 0) (vs ! 1) (ms_vault s) of
                (Inl e, lv) \<Rightarrow> (Inl (RegisterSecret e), s\<lparr>ms_vault := lv\<rparr>)
              | (Inr _, lv) \<Rightarrow>
                  (Inr (''Successfully stored secret reference '' @ fmt_q (vs ! 0)), s\<lparr>ms_vault := lv\<rparr>)))
      else (Inl (UnknownAdminTool name), s))"

subsection \<open>Requests\<close>

definition callTool ::
  "mcp_lib \<Rightarrow> mcp_outcome \<Rightarrow> string \<Rightarrow> args option \<Rightarrow> mcp_server \<Rightarrow> (tool_error + string) \<times> mcp_server" where
  "callTool lib oc name args s =
     (if go_HasPrefix name ''admin_'' then handleAdminTool lib oc name (arg_list args) s
      else case findEndpoint oc name s of
             (Inl e, s) \<Rightarrow> (Inl e, s)
           | (Inr None, s) \<Rightarrow> (Inl (ToolNotFound name), s)
           | (Inr (Some (ep, conn)), s) \<Rightarrow>
               (case ExecuteCall (ml_client lib) (\<lambda>ref. GetSecret ref (ms_vault s)) (mo_world oc) conn ep args (ms_client s) of
                  (r, gc, ev) \<Rightarrow> (case r of Inl e \<Rightarrow> Inl (CallFailed e) | Inr out \<Rightarrow> Inr out, s\<lparr>ms_client := gc\<rparr>)))"

text \<open>Decoding of the parameters of \<^verbatim>\<open>tools/call\<close> into \<^verbatim>\<open>CallToolRequest\<close>: names match without regard to case, null leaves a
  text as it is and makes a map nil, a map is merged into the one already there, a value of another type is an error.\<close>

fun decode_field :: "(string \<times> args option) option \<Rightarrow> string \<times> json \<Rightarrow> (string \<times> args option) option" where
  "decode_field None kv = None"
| "decode_field (Some (name, args)) (k, v) =
     (if go_EqualFold k ''name'' then
        (case v of JString n \<Rightarrow> Some (n, args) | JNull \<Rightarrow> Some (name, args) | _ \<Rightarrow> None)
      else if go_EqualFold k ''arguments'' then
        (case v of
           JObject m \<Rightarrow> Some (name, Some (foldl (\<lambda>a (k, v). AList.update k v a) (arg_list args) m))
         | JNull \<Rightarrow> Some (name, None)
         | _ \<Rightarrow> None)
      else Some (name, args))"

definition decode_call :: "json option \<Rightarrow> (string \<times> args option) option" where
  "decode_call params =
     (case params of
        Some (JObject kvs) \<Rightarrow> foldl decode_field (Some ([], None)) kvs
      | Some JNull \<Rightarrow> Some ([], None)
      | _ \<Rightarrow> None)"

definition redact_args :: "mcp_config \<Rightarrow> args option \<Rightarrow> args option \<times> finding list" where
  "redact_args cfg args =
     (case mc_redactor cfg of
        None \<Rightarrow> (args, [])
      | Some r \<Rightarrow>
          if 0 < length (arg_list args) then (let (m, fs) = RedactMap r (arg_list args) in (Some m, fs)) else (args, []))"

definition redact_result :: "mcp_config \<Rightarrow> tool_error + string \<Rightarrow> (tool_error + string) \<times> finding list" where
  "redact_result cfg r =
     (case (r, mc_redactor cfg) of
        (Inr t, Some rd) \<Rightarrow> (let (t', fs) = RedactBytes rd t in (Inr t', fs))
      | _ \<Rightarrow> (r, []))"

text \<open>A call in execution: who called, the tool and its arguments after redaction, and what was redacted in them. The counter
  of running calls is raised when the execution begins and lowered when the tool has returned.\<close>

record flight =
  fl_identity :: string
  fl_tool :: string
  fl_args :: "args option"
  fl_findings :: "finding list"

definition begin_call :: "mcp_config \<Rightarrow> string \<Rightarrow> string \<Rightarrow> args option \<Rightarrow> mcp_server \<Rightarrow> flight \<times> mcp_server" where
  "begin_call cfg identity name args s =
     (let (args', fs) = redact_args cfg args in
      (\<lparr>fl_identity = identity, fl_tool = name, fl_args = args', fl_findings = fs\<rparr>,
       s\<lparr>ms_activeQueries := ms_activeQueries s + 1\<rparr>))"

definition finish_call ::
  "mcp_config \<Rightarrow> mcp_lib \<Rightarrow> mcp_outcome \<Rightarrow> flight \<Rightarrow> mcp_server \<Rightarrow> ((int \<times> rpc_message) + rpc_result) \<times> mcp_server" where
  "finish_call cfg lib oc fl s =
     (let (r, s) = callTool lib oc (fl_tool fl) (fl_args fl) s;
          s = s\<lparr>ms_activeQueries := ms_activeQueries s - 1\<rparr>;
          (r, fs') = redact_result cfg r;
          entry = \<lparr>ae_id = mo_log_id oc, ae_identity = fl_identity fl, ae_tool = fl_tool fl,
                   ae_status = (case r of Inl _ \<Rightarrow> ''failure'' | Inr _ \<Rightarrow> ''success''), ae_duration = mo_duration oc,
                   ae_errMsg = (case r of Inl e \<Rightarrow> ml_error_text lib e | Inr _ \<Rightarrow> []),
                   ae_redaction = formatFindings (fl_findings fl @ fs')\<rparr>
      in (case r of Inl e \<Rightarrow> Inl (-32603, ToolFailed e) | Inr t \<Rightarrow> Inr (RContent t), logAuditAsync entry s))"

text \<open>The execution of a call that was permitted.\<close>

definition run_call ::
  "mcp_config \<Rightarrow> mcp_lib \<Rightarrow> mcp_outcome \<Rightarrow> string \<Rightarrow> string \<Rightarrow> args option \<Rightarrow> mcp_server \<Rightarrow>
   ((int \<times> rpc_message) + rpc_result) \<times> mcp_server" where
  "run_call cfg lib oc identity name args s =
     (let (fl, s) = begin_call cfg identity name args s in finish_call cfg lib oc fl s)"

text \<open>The checks before a call: it is refused, or permitted with the name of the tool and its arguments.\<close>

definition admit_call ::
  "mcp_config \<Rightarrow> mcp_lib \<Rightarrow> mcp_outcome \<Rightarrow> identity \<Rightarrow> json option \<Rightarrow> mcp_server \<Rightarrow>
   ((int \<times> rpc_message) + string \<times> args option) \<times> mcp_server" where
  "admit_call cfg lib oc who params s =
     (case who of (identity, role, scopes) \<Rightarrow>
      case decode_call params of
        None \<Rightarrow> (Inl (-32602, InvalidParams), s)
      | Some (name, args) \<Rightarrow>
          if go_HasPrefix name ''admin_'' \<and> role \<noteq> ''admin'' then (Inl (-32601, AdminRequired name), s)
          else if \<not> matchScope name scopes then (Inl (-32601, ScopeFailed name), s)
          else if mc_toolPinningStrict cfg then
            (case toolDefinitionChanged lib oc name s of
               (Inl e, s) \<Rightarrow> (Inl (-32603, ToolFailed e), s)
             | (Inr True, s) \<Rightarrow> (Inl (-32001, DefinitionChanged name), s)
             | (Inr False, s) \<Rightarrow> (Inr (name, args), s))
          else (Inr (name, args), s))"

definition tools_call ::
  "mcp_config \<Rightarrow> mcp_lib \<Rightarrow> mcp_outcome \<Rightarrow> identity \<Rightarrow> json option \<Rightarrow> mcp_server \<Rightarrow> ((int \<times> rpc_message) + rpc_result) \<times> mcp_server" where
  "tools_call cfg lib oc who params s =
     (case admit_call cfg lib oc who params s of
        (Inl e, s) \<Rightarrow> (Inl e, s)
      | (Inr (name, args), s) \<Rightarrow> run_call cfg lib oc (fst who) name args s)"

definition handleRequest ::
  "mcp_config \<Rightarrow> mcp_lib \<Rightarrow> mcp_outcome \<Rightarrow> identity \<Rightarrow> rpc_request \<Rightarrow> mcp_server \<Rightarrow> rpc_response \<times> mcp_server" where
  "handleRequest cfg lib oc who req s =
     (let (r, s') =
        (if rpc_method req = ''initialize'' then (Inr RInitialize, s)
         else if rpc_method req = ''tools/list'' then
           (case listTools lib oc (fst (snd who)) (snd (snd who)) s of
              (Inl e, s) \<Rightarrow> (Inl (-32603, ListFailed e), s)
            | (Inr tools, s) \<Rightarrow> (Inr (RTools tools), s))
         else if rpc_method req = ''tools/call'' then tools_call cfg lib oc who (rpc_params req) s
         else (Inl (-32601, MethodNotFound (rpc_method req)), s))
      in (\<lparr>rs_id = rpc_id req, rs_outcome = r\<rparr>, s'))"

subsection \<open>Transports\<close>

text \<open>An HTTP response: the status, the header that allows an origin, whether the challenge for OAuth is sent, and the
  JSON-RPC message in the body if there is one. \<open>Inl\<close> is a plain text.\<close>

record mcp_reply =
  mr_status :: nat
  mr_origin :: string
  mr_challenge :: bool
  mr_body :: "string + rpc_response"

definition text_reply :: "nat \<Rightarrow> string \<Rightarrow> string \<Rightarrow> mcp_reply" where
  "text_reply st origin msg = \<lparr>mr_status = st, mr_origin = origin, mr_challenge = False, mr_body = Inl msg\<rparr>"

definition writeUnauthorized :: "mcp_config \<Rightarrow> string \<Rightarrow> mcp_reply" where
  "writeUnauthorized cfg origin =
     \<lparr>mr_status = 401, mr_origin = origin, mr_challenge = (mc_oauth cfg \<noteq> None),
      mr_body = Inl ''Unauthorized: Invalid gateway token''\<rparr>"

definition ServeStreamable :: "mcp_config \<Rightarrow> mcp_lib \<Rightarrow> mcp_outcome \<Rightarrow> mcp_http \<Rightarrow> mcp_server \<Rightarrow> mcp_reply \<times> mcp_server" where
  "ServeStreamable cfg lib oc r s =
     (let origin = allowedOrigin cfg r in
      case resolveAuth cfg lib (mo_token_fault oc) (extractToken r) (ms_db s) of
        None \<Rightarrow> (writeUnauthorized cfg origin, s)
      | Some who \<Rightarrow>
          (case mh_body r of
             None \<Rightarrow> (text_reply 400 origin ''Invalid JSON-RPC request'', s)
           | Some req \<Rightarrow>
               if rpc_id req = None then (text_reply 202 origin [], s)
               else (let (resp, s) = handleRequest cfg lib oc who req s in
                     (\<lparr>mr_status = 200, mr_origin = origin, mr_challenge = False, mr_body = Inr resp\<rparr>, s))))"

text \<open>\<^verbatim>\<open>ServeSSE\<close> up to the point where the stream is open (\<open>mo_uuid\<close> is the fresh session id, \<open>flush\<close> whether the
  connection can stream), and what happens when the client goes away or the ticker fires.\<close>

definition ServeSSE :: "mcp_config \<Rightarrow> mcp_lib \<Rightarrow> mcp_outcome \<Rightarrow> bool \<Rightarrow> mcp_http \<Rightarrow> mcp_server \<Rightarrow> mcp_reply \<times> mcp_server" where
  "ServeSSE cfg lib oc flush r s =
     (case resolveAuth cfg lib (mo_token_fault oc) (extractToken r) (ms_db s) of
        None \<Rightarrow> (writeUnauthorized cfg [], s)
      | Some (identity, role, scopes) \<Rightarrow>
          if \<not> flush then (text_reply 500 [] ''Streaming unsupported'', s)
          else let origin = allowedOrigin cfg r in
          if mc_maxSessions cfg \<le> int (length (ms_sessions s)) then (text_reply 429 origin ''Too many active SSE sessions'', s)
          else (text_reply 200 origin [],
                s\<lparr>ms_sessions := AList.update (mo_uuid oc)
                   \<lparr>se_identity = identity, se_role = role, se_scopes = scopes,
                    se_tokenHash = sessionTokenHash lib (extractToken r), se_stream = [EndpointEvent (mo_uuid oc)]\<rparr>
                   (ms_sessions s)\<rparr>))"

definition write_event :: "string \<Rightarrow> sse_event \<Rightarrow> mcp_server \<Rightarrow> mcp_server" where
  "write_event sid e s =
     s\<lparr>ms_sessions := AList.map_entry sid (\<lambda>se. se\<lparr>se_stream := se_stream se @ [e]\<rparr>) (ms_sessions s)\<rparr>"

definition close_session :: "string \<Rightarrow> mcp_server \<Rightarrow> mcp_server" where
  "close_session sid s = s\<lparr>ms_sessions := AList.delete sid (ms_sessions s)\<rparr>"

definition ServeMessages :: "mcp_config \<Rightarrow> mcp_lib \<Rightarrow> mcp_outcome \<Rightarrow> mcp_http \<Rightarrow> mcp_server \<Rightarrow> mcp_reply \<times> mcp_server" where
  "ServeMessages cfg lib oc r s =
     (if mh_method r \<noteq> ''POST'' then (text_reply 405 [] ''Method not allowed'', s)
      else let sessionID = Query_Get (url_query (mh_url r)) ''sessionId'' in
      case map_of (ms_sessions s) sessionID of
        None \<Rightarrow> (text_reply 400 [] ''Session not found or expired'', s)
      | Some session \<Rightarrow>
          if sessionTokenHash lib (extractToken r) \<noteq> se_tokenHash session
          then (text_reply 401 [] ''Unauthorized: token does not match session'', s)
          else (case mh_body r of
             None \<Rightarrow> (text_reply 400 [] ''Invalid JSON-RPC request'', s)
           | Some req \<Rightarrow>
               if rpc_id req = None then (text_reply 202 [] [], s)
               else (let (resp, s) = handleRequest cfg lib oc (se_identity session, se_role session, se_scopes session) req s in
                     (\<lparr>mr_status = 200, mr_origin = [], mr_challenge = False, mr_body = Inr resp\<rparr>,
                      write_event sessionID (MessageEvent resp) s))))"

text \<open>Standard input: the identity that the environment's token gives, and the requests that can be decoded, one after
  the other; the first that cannot ends the loop.\<close>

definition stdio_identity :: "mcp_config \<Rightarrow> mcp_lib \<Rightarrow> fault \<Rightarrow> string \<Rightarrow> db \<Rightarrow> identity" where
  "stdio_identity cfg lib f token d =
     (if token = [] then (''master'', ''admin'', [''*''])
      else if VerifyGatewayToken (ml_auth lib) (mc_auth cfg) token then (''master'', ''admin'', [''*''])
      else case GetClientToken (hash_token (ml_store lib)) f token d of
             Inr ct \<Rightarrow>
               if tok_enabled ct then (tok_client_name ct, tok_client_role ct, split_scopes (tok_scopes ct))
               else (''invalid-token'', ''unauthenticated'', [])
           | Inl _ \<Rightarrow> (''invalid-token'', ''unauthenticated'', []))"

fun stdio_loop ::
  "mcp_config \<Rightarrow> mcp_lib \<Rightarrow> identity \<Rightarrow> (mcp_outcome \<times> rpc_request option) list \<Rightarrow> mcp_server \<Rightarrow> rpc_response list \<times> mcp_server"
where
  "stdio_loop cfg lib who [] s = ([], s)"
| "stdio_loop cfg lib who ((oc, None) # inputs) s = ([], s)"
| "stdio_loop cfg lib who ((oc, Some req) # inputs) s =
     (let (resp, s) = handleRequest cfg lib oc who req s;
          (resps, s) = stdio_loop cfg lib who inputs s
      in (resp # resps, s))"

definition StartStdioMode ::
  "mcp_config \<Rightarrow> mcp_lib \<Rightarrow> fault \<Rightarrow> string \<Rightarrow> (mcp_outcome \<times> rpc_request option) list \<Rightarrow> mcp_server \<Rightarrow> rpc_response list \<times> mcp_server" where
  "StartStdioMode cfg lib f token inputs s = stdio_loop cfg lib (stdio_identity cfg lib f token (ms_db s)) inputs s"

subsection \<open>The server as a process\<close>

text \<open>
  The requests of different agents overlap while their tools are executed. The process keeps the calls that are running, each with
  the HTTP request that it came with and the session whose stream gets the answer, if it came through one. A request that
  does not call a tool, or whose call is not overtaken, is one step (\<open>Streamable\<close>, \<open>Messages\<close>); the others begin and
  finish in two.
\<close>

record running =
  ru_flight :: flight
  ru_http :: mcp_http
  ru_id :: "json option"
  ru_session :: "string option"

record mcp_process =
  pr_server :: mcp_server
  pr_running :: "running list"

datatype mcp_op =
    Streamable mcp_outcome mcp_http
  | OpenSSE mcp_outcome bool mcp_http
  | Messages mcp_outcome mcp_http
  | BeginStreamable mcp_outcome mcp_http
  | BeginMessages mcp_outcome mcp_http
  | FinishCall mcp_outcome nat
  | Tick string
  | CloseSSE string
  | Audit fault string
  | Elapse nat

text \<open>A request of an authenticated caller that calls a tool: the call is admitted and its execution begins, or it is refused.\<close>

definition start_call ::
  "mcp_config \<Rightarrow> mcp_lib \<Rightarrow> mcp_outcome \<Rightarrow> identity \<Rightarrow> mcp_http \<Rightarrow> string option \<Rightarrow> mcp_process \<Rightarrow> mcp_process" where
  "start_call cfg lib oc who r sid p =
     (case mh_body r of
        None \<Rightarrow> p
      | Some req \<Rightarrow>
          if rpc_id req = None \<or> rpc_method req \<noteq> ''tools/call'' then p
          else case admit_call cfg lib oc who (rpc_params req) (pr_server p) of
                 (Inl e, s) \<Rightarrow> p\<lparr>pr_server := s\<rparr>
               | (Inr (name, args), s) \<Rightarrow>
                   (let (fl, s) = begin_call cfg (fst who) name args s in
                    \<lparr>pr_server = s,
                     pr_running = pr_running p @ [\<lparr>ru_flight = fl, ru_http = r, ru_id = rpc_id req, ru_session = sid\<rparr>]\<rparr>))"

definition end_call :: "mcp_config \<Rightarrow> mcp_lib \<Rightarrow> mcp_outcome \<Rightarrow> nat \<Rightarrow> mcp_process \<Rightarrow> mcp_process" where
  "end_call cfg lib oc i p =
     (if i < length (pr_running p) then
        (let ru = pr_running p ! i;
             (r, s) = finish_call cfg lib oc (ru_flight ru) (pr_server p)
         in \<lparr>pr_server = (case ru_session ru of
                            None \<Rightarrow> s
                          | Some sid \<Rightarrow> write_event sid (MessageEvent \<lparr>rs_id = ru_id ru, rs_outcome = r\<rparr>) s),
             pr_running = take i (pr_running p) @ drop (Suc i) (pr_running p)\<rparr>)
      else p)"

definition on_server :: "(mcp_server \<Rightarrow> mcp_server) \<Rightarrow> mcp_process \<Rightarrow> mcp_process" where
  "on_server f p = p\<lparr>pr_server := f (pr_server p)\<rparr>"

fun mcp_step :: "mcp_config \<Rightarrow> mcp_lib \<Rightarrow> mcp_op \<Rightarrow> mcp_process \<Rightarrow> mcp_process" where
  "mcp_step cfg lib (Streamable oc r) p = on_server (\<lambda>s. snd (ServeStreamable cfg lib oc r s)) p"
| "mcp_step cfg lib (OpenSSE oc flush r) p = on_server (\<lambda>s. snd (ServeSSE cfg lib oc flush r s)) p"
| "mcp_step cfg lib (Messages oc r) p = on_server (\<lambda>s. snd (ServeMessages cfg lib oc r s)) p"
| "mcp_step cfg lib (BeginStreamable oc r) p =
     (case resolveAuth cfg lib (mo_token_fault oc) (extractToken r) (ms_db (pr_server p)) of
        None \<Rightarrow> p
      | Some who \<Rightarrow> start_call cfg lib oc who r None p)"
| "mcp_step cfg lib (BeginMessages oc r) p =
     (let sessionID = Query_Get (url_query (mh_url r)) ''sessionId'' in
      case map_of (ms_sessions (pr_server p)) sessionID of
        None \<Rightarrow> p
      | Some se \<Rightarrow>
          if mh_method r \<noteq> ''POST'' \<or> sessionTokenHash lib (extractToken r) \<noteq> se_tokenHash se then p
          else start_call cfg lib oc (se_identity se, se_role se, se_scopes se) r (Some sessionID) p)"
| "mcp_step cfg lib (FinishCall oc i) p = end_call cfg lib oc i p"
| "mcp_step cfg lib (Tick sid) p = on_server (write_event sid Keepalive) p"
| "mcp_step cfg lib (CloseSSE sid) p = on_server (close_session sid) p"
| "mcp_step cfg lib (Audit f ts) p = on_server (auditWorker f ts) p"
| "mcp_step cfg lib (Elapse n) p = on_server (\<lambda>s. s\<lparr>ms_now := ms_now s + int n\<rparr>) p"

text \<open>The states that a server reaches which was started on a database that \<^verbatim>\<open>NewDB\<close> opened, with what happened before: each
  operation with the state in which it took place.\<close>

inductive mcp_trace :: "mcp_config \<Rightarrow> mcp_lib \<Rightarrow> (mcp_op \<times> mcp_process) list \<Rightarrow> mcp_process \<Rightarrow> bool" for cfg lib where
  started: "file_ok (hash_def (ml_store lib)) fk dbf \<Longrightarrow> NewDB None fk dbf = Inr d \<Longrightarrow>
    mcp_trace cfg lib [] \<lparr>pr_server = NewMCPServer now (EnableConfigCache ttl d) client lv, pr_running = []\<rparr>"
| stepped: "mcp_trace cfg lib past p \<Longrightarrow> mcp_trace cfg lib (past @ [(op, p)]) (mcp_step cfg lib op p)"

section \<open>Reference notions\<close>

definition server_inv :: "mcp_config \<Rightarrow> mcp_lib \<Rightarrow> mcp_server \<Rightarrow> bool" where
  "server_inv cfg lib s \<longleftrightarrow>
     int (GetActiveSessionCount s) \<le> max 0 (mc_maxSessions cfg) \<and> distinct (map fst (ms_sessions s)) \<and>
     length (ms_auditCh s) \<le> audit_capacity \<and> tables_wf (known (hash_def (ml_store lib))) (ms_db s)"

definition mcp_inv :: "mcp_config \<Rightarrow> mcp_lib \<Rightarrow> mcp_process \<Rightarrow> bool" where
  "mcp_inv cfg lib p \<longleftrightarrow> server_inv cfg lib (pr_server p) \<and> ms_activeQueries (pr_server p) = int (length (pr_running p))"

text \<open>What administration can change: the tables of the store and the vault.\<close>

definition same_config :: "mcp_server \<Rightarrow> mcp_server \<Rightarrow> bool" where
  "same_config s' s \<longleftrightarrow> same_tables (ms_db s') (ms_db s) \<and> ms_vault s' = ms_vault s"

text \<open>The tokens that administer: the gateway's own, and the enabled ones of clients with the role \<^verbatim>\<open>admin\<close>.\<close>

definition admin_token :: "mcp_config \<Rightarrow> mcp_lib \<Rightarrow> db \<Rightarrow> string \<Rightarrow> bool" where
  "admin_token cfg lib d token \<longleftrightarrow>
     VerifyGatewayToken (ml_auth lib) (mc_auth cfg) token \<or>
     list_ex (\<lambda>t. tok_token t = hash_token (ml_store lib) token \<and> tok_enabled t \<and> tok_client_role t = ''admin'') (t_tokens d)"

text \<open>The HTTP request behind an operation of the process: for the end of a call the one that the call came with.\<close>

fun requested :: "mcp_process \<Rightarrow> mcp_op \<Rightarrow> mcp_http option" where
  "requested p (Streamable oc r) = Some r"
| "requested p (OpenSSE oc flush r) = Some r"
| "requested p (Messages oc r) = Some r"
| "requested p (BeginStreamable oc r) = Some r"
| "requested p (BeginMessages oc r) = Some r"
| "requested p (FinishCall oc i) = (if i < length (pr_running p) then Some (ru_http (pr_running p ! i)) else None)"
| "requested p _ = None"

text \<open>A token with the digest \<open>h\<close> was presented at some time, and administered at that time.\<close>

definition administered :: "mcp_config \<Rightarrow> mcp_lib \<Rightarrow> (mcp_op \<times> mcp_process) list \<Rightarrow> string \<Rightarrow> bool" where
  "administered cfg lib past h \<longleftrightarrow>
     (\<exists>(op, q) \<in> set past. \<exists>r. requested q op = Some r \<and> sessionTokenHash lib (extractToken r) = h \<and>
        admin_token cfg lib (ms_db (pr_server q)) (extractToken r))"

definition in_scope :: "string \<Rightarrow> string \<Rightarrow> bool" where
  "in_scope name scope \<longleftrightarrow> scope = name \<or> (\<exists>p. scope = p @ ''*'' \<and> prefix p name)"

text \<open>The worker, run until the channel is empty.\<close>

fun drain :: "string list \<Rightarrow> mcp_server \<Rightarrow> mcp_server" where
  "drain [] s = s"
| "drain (ts # tss) s = drain tss (auditWorker None ts s)"

section \<open>Lemmas\<close>

subsection \<open>Scopes\<close>

lemma matchScope_iff: "matchScope name scopes \<longleftrightarrow> list_ex (in_scope name) scopes"
proof (induction scopes)
  case (Cons sc scopes)
  have "(\<exists>p. sc = p @ ''*'' \<and> prefix p name) \<longleftrightarrow> go_HasSuffix sc ''*'' \<and> go_HasPrefix name (take (length sc - 1) sc)"
    by (auto simp: go_HasSuffix_def go_HasPrefix_def suffix_def)
  moreover have "sc = ''*'' \<Longrightarrow> go_HasSuffix sc ''*'' \<and> go_HasPrefix name (take (length sc - 1) sc)"
    by (simp add: go_HasSuffix_def go_HasPrefix_def)
  ultimately show ?case using Cons by (auto simp: in_scope_def)
qed simp

subsection \<open>Frames\<close>

lemma same_tables_refl [simp]: "same_tables d d"
  by (simp add: same_tables_def)

lemma same_tables_trans: "same_tables a b \<Longrightarrow> same_tables b c \<Longrightarrow> same_tables a c"
  by (simp add: same_tables_def)

text \<open>The parts of a server that no request changes.\<close>

definition same_rest :: "mcp_server \<Rightarrow> mcp_server \<Rightarrow> bool" where
  "same_rest s' s \<longleftrightarrow>
     ms_now s' = ms_now s \<and> ms_sessions s' = ms_sessions s \<and> ms_activeQueries s' = ms_activeQueries s"

definition reads_only :: "mcp_server \<Rightarrow> mcp_server \<Rightarrow> bool" where
  "reads_only s' s \<longleftrightarrow> same_config s' s \<and> same_rest s' s \<and> ms_auditCh s' = ms_auditCh s"

lemmas frame_defs = same_config_def same_rest_def reads_only_def

lemma reads_only_refl [simp]: "reads_only s s"
  by (simp add: frame_defs)

lemma catalogue_frame:
  "reads_only (snd (listTools lib oc role scopes s)) s" "reads_only (snd (findEndpoint oc name s)) s"
proof -
  obtain r d where e: "GetAllEndpoints (mo_fault oc) (ms_now s) (ms_db s) = (r, d)" by force
  obtain q d' where c: "GetConnections (mo_fault2 oc) (ms_now s) d = (q, d')" by force
  have "same_tables d (ms_db s)" "same_tables d' d" using reads_keep_tables e c by (metis snd_conv)+
  then show "reads_only (snd (listTools lib oc role scopes s)) s" "reads_only (snd (findEndpoint oc name s)) s"
    by (auto simp: listTools_def findEndpoint_def frame_defs e c split: sum.splits intro: same_tables_trans)
qed

lemma findEndpoint_frame: "findEndpoint oc name s = (r, s') \<Longrightarrow> reads_only s' s"
  using catalogue_frame(2) by (metis snd_conv)

lemma toolDefinitionChanged_frame: "toolDefinitionChanged lib oc name s = (r, s') \<Longrightarrow> reads_only s' s"
  using findEndpoint_frame [of oc name s]
  by (auto simp: toolDefinitionChanged_def split: if_splits prod.splits sum.splits option.splits)

lemma handleAdminTool_frame:
  "same_rest (snd (handleAdminTool lib oc name args s)) s"
  "ms_auditCh (snd (handleAdminTool lib oc name args s)) = ms_auditCh s"
  by (auto simp: handleAdminTool_def same_rest_def split: sum.split prod.split)

text \<open>A call either administers, or looks its tool up and leaves the configuration alone.\<close>

lemma callTool_cases:
  assumes "callTool lib oc name args s = (r, s')"
  obtains (admin) "go_HasPrefix name ''admin_''" "s' = snd (handleAdminTool lib oc name (arg_list args) s)"
    | (call) s1 gc where "\<not> go_HasPrefix name ''admin_''" "reads_only s1 s" "s' = s1\<lparr>ms_client := gc\<rparr>"
proof (cases "go_HasPrefix name ''admin_''")
  case True
  then show thesis using assms admin by (simp add: callTool_def)
next
  case False
  obtain q s1 where f: "findEndpoint oc name s = (q, s1)" by force
  then have "reads_only s1 s" by (rule findEndpoint_frame)
  then show thesis
    using assms call [OF False, of s1] call [OF False, of s1 "ms_client s1"] False by (auto simp: callTool_def f split: sum.splits option.splits prod.splits)
qed

lemma callTool_frame:
  assumes "callTool lib oc name args s = (r, s')"
  shows "same_rest s' s" "ms_auditCh s' = ms_auditCh s" "\<not> go_HasPrefix name ''admin_'' \<Longrightarrow> same_config s' s"
  using assms
proof (atomize (full), cases rule: callTool_cases)
  case admin
  then show "same_rest s' s \<and> ms_auditCh s' = ms_auditCh s \<and> (\<not> go_HasPrefix name ''admin_'' \<longrightarrow> same_config s' s)"
    using handleAdminTool_frame [of lib oc name "arg_list args" s] by simp
next
  case (call s1 gc)
  then show "same_rest s' s \<and> ms_auditCh s' = ms_auditCh s \<and> (\<not> go_HasPrefix name ''admin_'' \<longrightarrow> same_config s' s)"
    by (simp add: frame_defs)
qed

abbreviation store_ok :: "mcp_lib \<Rightarrow> db \<Rightarrow> bool" where
  "store_ok lib \<equiv> tables_wf (known (hash_def (ml_store lib)))"

lemma known_stamp [simp]: "known H (stamp H ep d)"
  by (simp add: known_def)

lemma store_ok_admin:
  assumes "store_ok lib (ms_db s)"
  shows "store_ok lib (ms_db (snd (handleAdminTool lib oc name args s)))"
proof -
  let ?H = "hash_def (ml_store lib)"
  have "store_ok lib (snd (SaveConnection f c (ms_db s)))" "store_ok lib (snd (SaveEndpoint ?H f g e (ms_db s)))" for f g c e
    using assms SaveConnection_wf SaveEndpoint_tables by simp_all
  then show ?thesis
    using assms by (simp add: handleAdminTool_def split_beta split: sum.split)
qed

lemma same_config_wf: "same_config s' s \<Longrightarrow> tables_wf P (ms_db s) \<Longrightarrow> tables_wf P (ms_db s')"
  using db_wf_same_tables by (auto simp: same_config_def)

lemma callTool_wf:
  "callTool lib oc name args s = (r, s') \<Longrightarrow> store_ok lib (ms_db s) \<Longrightarrow> store_ok lib (ms_db s')"
proof (cases "go_HasPrefix name ''admin_''")
  case True
  then show "callTool lib oc name args s = (r, s') \<Longrightarrow> store_ok lib (ms_db s) \<Longrightarrow> ?thesis"
    using store_ok_admin [of lib s oc name "arg_list args"] by (simp add: callTool_def)
next
  case False
  then show "callTool lib oc name args s = (r, s') \<Longrightarrow> store_ok lib (ms_db s) \<Longrightarrow> ?thesis"
    using callTool_frame(3) same_config_wf by blast
qed

text \<open>What a part of a request does at most: it changes the counter of running calls by \<open>n\<close>, it may append an entry to the
  channel, and only what administers changes the configuration.\<close>

definition call_frame :: "mcp_lib \<Rightarrow> bool \<Rightarrow> int \<Rightarrow> mcp_server \<Rightarrow> mcp_server \<Rightarrow> bool" where
  "call_frame lib adm n s' s \<longleftrightarrow>
     ms_now s' = ms_now s \<and> ms_sessions s' = ms_sessions s \<and> ms_activeQueries s' = ms_activeQueries s + n \<and>
     (adm \<or> same_config s' s) \<and>
     (length (ms_auditCh s) \<le> audit_capacity \<longrightarrow> length (ms_auditCh s') \<le> audit_capacity) \<and>
     (store_ok lib (ms_db s) \<longrightarrow> store_ok lib (ms_db s'))"

lemma reads_only_frame: "reads_only s' s \<Longrightarrow> call_frame lib adm 0 s' s"
  using same_config_wf by (auto simp: call_frame_def reads_only_def same_rest_def)

lemma call_frame_trans: "call_frame lib adm n s'' s' \<Longrightarrow> call_frame lib adm m s' s \<Longrightarrow> call_frame lib adm (m + n) s'' s"
  by (auto simp: call_frame_def same_config_def intro: same_tables_trans)

lemma call_frame_mono: "call_frame lib adm n s' s \<Longrightarrow> (adm \<Longrightarrow> adm') \<Longrightarrow> call_frame lib adm' n s' s"
  by (auto simp: call_frame_def)

lemma logAuditAsync_frame:
  "call_frame lib adm 0 (logAuditAsync e s) s" "ms_vault (logAuditAsync e s) = ms_vault s" "ms_client (logAuditAsync e s) = ms_client s"
  by (auto simp: logAuditAsync_def call_frame_def same_config_def)

lemma begin_call_frame: "call_frame lib adm 1 (snd (begin_call cfg identity name args s)) s"
  by (simp add: begin_call_def split_beta call_frame_def same_config_def)

lemma begin_call_tool [simp]: "fl_tool (fst (begin_call cfg identity name args s)) = name"
  by (simp add: begin_call_def split_beta)

lemma finish_call_state:
  assumes "callTool lib oc (fl_tool fl) (fl_args fl) s = (r, s1)"
  obtains e where "snd (finish_call cfg lib oc fl s) = logAuditAsync e (s1\<lparr>ms_activeQueries := ms_activeQueries s1 - 1\<rparr>)"
  by (simp add: finish_call_def assms split_beta Let_def)

lemma finish_call_frame:
  "call_frame lib (go_HasPrefix (fl_tool fl) ''admin_'') (-1) (snd (finish_call cfg lib oc fl s)) s"
proof -
  obtain r s1 where c: "callTool lib oc (fl_tool fl) (fl_args fl) s = (r, s1)" by force
  obtain e where e: "snd (finish_call cfg lib oc fl s) = logAuditAsync e (s1\<lparr>ms_activeQueries := ms_activeQueries s1 - 1\<rparr>)"
    using finish_call_state [OF c] .
  have "call_frame lib (go_HasPrefix (fl_tool fl) ''admin_'') (-1) (s1\<lparr>ms_activeQueries := ms_activeQueries s1 - 1\<rparr>) s"
    using callTool_frame [OF c] callTool_wf [OF c] by (auto simp: call_frame_def same_rest_def same_config_def)
  from call_frame_trans [OF logAuditAsync_frame(1) this] show ?thesis by (simp add: e)
qed

lemma admit_call_frame: "call_frame lib adm 0 (snd (admit_call cfg lib oc who params s)) s"
proof (cases who)
  case w: (fields identity role scopes)
  show ?thesis
  proof (cases "decode_call params")
    case (Some na)
    obtain name args where na: "na = (name, args)" by force
    obtain r s1 where t: "toolDefinitionChanged lib oc name s = (r, s1)" by force
    have "call_frame lib adm 0 s1 s" using toolDefinitionChanged_frame [OF t] by (rule reads_only_frame)
    then show ?thesis by (auto simp: admit_call_def w Some na t reads_only_frame split: sum.split bool.split)
  qed (simp add: admit_call_def w reads_only_frame)
qed

lemma admit_call_admin:
  "admit_call cfg lib oc (identity, role, scopes) params s = (Inr (name, args), s') \<Longrightarrow> go_HasPrefix name ''admin_'' \<Longrightarrow> role = ''admin''"
  by (auto simp: admit_call_def split: option.splits if_splits prod.splits sum.splits bool.splits)

lemma run_call_frame: "call_frame lib (go_HasPrefix name ''admin_'') 0 (snd (run_call cfg lib oc identity name args s)) s"
  using call_frame_trans [OF finish_call_frame begin_call_frame, of lib "fst (begin_call cfg identity name args s)" cfg oc cfg identity name args s]
  by (simp add: run_call_def split_beta)

lemma tools_call_frame: "call_frame lib (role = ''admin'') 0 (snd (tools_call cfg lib oc (identity, role, scopes) params s)) s"
proof -
  obtain r s1 where a: "admit_call cfg lib oc (identity, role, scopes) params s = (r, s1)" by force
  have f: "call_frame lib (role = ''admin'') 0 s1 s" using admit_call_frame a by (metis snd_conv)
  show ?thesis
  proof (cases r)
    case (Inr na)
    then obtain name args where na: "r = Inr (name, args)" by (cases na) auto
    have "call_frame lib (role = ''admin'') 0 (snd (run_call cfg lib oc identity name args s1)) s1"
      using run_call_frame admit_call_admin [OF a [unfolded na]] by (rule call_frame_mono)
    from call_frame_trans [OF this f] show ?thesis by (simp add: tools_call_def a na)
  qed (simp add: tools_call_def a f)
qed

lemma handleRequest_frame: "call_frame lib (role = ''admin'') 0 (snd (handleRequest cfg lib oc (identity, role, scopes) req s)) s"
proof -
  have "call_frame lib (role = ''admin'') 0 (snd (listTools lib oc role scopes s)) s"
    by (rule reads_only_frame [OF catalogue_frame(1)])
  then show ?thesis
    using tools_call_frame [of lib role cfg oc identity scopes "rpc_params req" s]
    by (auto simp: handleRequest_def Let_def split_beta reads_only_frame split: sum.split prod.split)
qed

subsection \<open>Tokens\<close>

lemma resolveAuth_admin:
  assumes "resolveAuth cfg lib f token d = Some (identity, ''admin'', scopes)"
  shows "admin_token cfg lib d token"
proof (cases "VerifyGatewayToken (ml_auth lib) (mc_auth cfg) token")
  case False
  then have "find (\<lambda>t. tok_token t = hash_token (ml_store lib) token) (t_tokens d) \<noteq> None"
    using assms by (auto simp: resolveAuth_def oauth_identity_def GetClientToken_def split: option.splits sum.splits if_splits)
  then obtain t where t: "find (\<lambda>t. tok_token t = hash_token (ml_store lib) token) (t_tokens d) = Some t" by auto
  then have "tok_enabled t \<and> tok_client_role t = ''admin''"
    using assms False
    by (auto simp: resolveAuth_def oauth_identity_def GetClientToken_def split: option.splits sum.splits if_splits)
  with find_Some_mem [OF t] show ?thesis by (auto simp: admin_token_def list_ex_iff)
qed (simp add: admin_token_def)

lemma unprivileged_request:
  assumes "role \<noteq> ''admin''"
  shows "same_config (snd (handleRequest cfg lib oc (identity, role, scopes) req s)) s"
  using handleRequest_frame [of lib role cfg oc identity scopes req s] assms by (simp add: call_frame_def)

lemma ServeStreamable_frame:
  "snd (ServeStreamable cfg lib oc r s) = s \<or>
   (\<exists>identity role scopes req.
      resolveAuth cfg lib (mo_token_fault oc) (extractToken r) (ms_db s) = Some (identity, role, scopes) \<and>
      snd (ServeStreamable cfg lib oc r s) = snd (handleRequest cfg lib oc (identity, role, scopes) req s))"
  by (auto simp: ServeStreamable_def Let_def split_beta split: option.split)

lemma ServeStreamable_unprivileged:
  assumes "\<not> admin_token cfg lib (ms_db s) (extractToken r)"
  shows "same_config (snd (ServeStreamable cfg lib oc r s)) s"
proof (rule disjE [OF ServeStreamable_frame [of cfg lib oc r s]])
  assume "\<exists>identity role scopes req.
      resolveAuth cfg lib (mo_token_fault oc) (extractToken r) (ms_db s) = Some (identity, role, scopes) \<and>
      snd (ServeStreamable cfg lib oc r s) = snd (handleRequest cfg lib oc (identity, role, scopes) req s)"
  then obtain identity role scopes req where
    a: "resolveAuth cfg lib (mo_token_fault oc) (extractToken r) (ms_db s) = Some (identity, role, scopes)"
      "snd (ServeStreamable cfg lib oc r s) = snd (handleRequest cfg lib oc (identity, role, scopes) req s)" by blast
  have "role \<noteq> ''admin''" using a(1) assms resolveAuth_admin by blast
  then show ?thesis unfolding a(2) by (rule unprivileged_request)
qed (simp add: same_config_def)

subsection \<open>Invariant\<close>

lemma write_event_sessions [simp]:
  "map fst (ms_sessions (write_event sid e s)) = map fst (ms_sessions s)"
  "length (ms_sessions (write_event sid e s)) = length (ms_sessions s)"
  "ms_db (write_event sid e s) = ms_db s" "ms_auditCh (write_event sid e s) = ms_auditCh s"
  "ms_activeQueries (write_event sid e s) = ms_activeQueries s"
proof -
  show m: "map fst (ms_sessions (write_event sid e s)) = map fst (ms_sessions s)"
  proof -
    have "map fst (AList.map_entry k f xs) = map fst xs" for k f and xs :: "(string \<times> mcp_session) list"
      by (induction xs) auto
    then show ?thesis by (simp add: write_event_def)
  qed
  from arg_cong [OF m, of length] show "length (ms_sessions (write_event sid e s)) = length (ms_sessions s)" by simp
qed (simp_all add: write_event_def)

lemma write_event_inv: "server_inv cfg lib s \<Longrightarrow> server_inv cfg lib (write_event sid e s)"
  by (simp add: server_inv_def GetActiveSessionCount_def)

lemma call_frame_inv: "call_frame lib adm n s' s \<Longrightarrow> server_inv cfg lib s \<Longrightarrow> server_inv cfg lib s'"
  by (simp add: server_inv_def call_frame_def GetActiveSessionCount_def)

lemma ServeSSE_inv: "server_inv cfg lib s \<Longrightarrow> server_inv cfg lib (snd (ServeSSE cfg lib oc flush r s))"
proof -
  assume inv: "server_inv cfg lib s"
  have "length (AList.update k v xs) \<le> Suc (length xs)" for k :: string and v :: mcp_session and xs
    by (induction xs) auto
  then have "int (length (AList.update k v (ms_sessions s))) \<le> int (length (ms_sessions s)) + 1" for k v
    by (metis of_nat_Suc of_nat_mono add.commute)
  from order_trans [OF this] inv show ?thesis
    by (auto simp: ServeSSE_def server_inv_def GetActiveSessionCount_def Let_def distinct_update not_le split: option.split)
qed

lemma close_session_inv: "server_inv cfg lib s \<Longrightarrow> server_inv cfg lib (close_session sid s)"
proof -
  assume inv: "server_inv cfg lib s"
  have "length (AList.delete sid (ms_sessions s)) \<le> length (ms_sessions s)" by (simp add: AList.delete_eq)
  with inv show ?thesis by (simp add: close_session_def server_inv_def GetActiveSessionCount_def distinct_delete)
qed

lemma auditWorker_inv: "server_inv cfg lib s \<Longrightarrow> server_inv cfg lib (auditWorker f ts s)"
  using LogAudit_wf by (auto simp: auditWorker_def server_inv_def GetActiveSessionCount_def split: list.split)

text \<open>Requests that are one step leave the counter as it is.\<close>

lemma ServeStreamable_call_frame: "call_frame lib True 0 (snd (ServeStreamable cfg lib oc r s)) s"
  using ServeStreamable_frame [of cfg lib oc r s] handleRequest_frame call_frame_mono reads_only_frame
  by (metis reads_only_refl)

lemma ServeMessages_state:
  "snd (ServeMessages cfg lib oc r s) = s \<or>
   (\<exists>se req resp. map_of (ms_sessions s) (Query_Get (url_query (mh_url r)) ''sessionId'') = Some se \<and>
      sessionTokenHash lib (extractToken r) = se_tokenHash se \<and>
      snd (ServeMessages cfg lib oc r s) = write_event (Query_Get (url_query (mh_url r)) ''sessionId'') (MessageEvent resp)
        (snd (handleRequest cfg lib oc (se_identity se, se_role se, se_scopes se) req s)))"
  by (auto simp: ServeMessages_def Let_def split_beta split: option.split)

lemma simple_steps_inv:
  assumes "server_inv cfg lib s"
  shows "server_inv cfg lib (snd (ServeStreamable cfg lib oc r s))" "server_inv cfg lib (snd (ServeMessages cfg lib oc r s))"
    "ms_activeQueries (snd (ServeStreamable cfg lib oc r s)) = ms_activeQueries s"
    "ms_activeQueries (snd (ServeMessages cfg lib oc r s)) = ms_activeQueries s"
proof -
  show "server_inv cfg lib (snd (ServeStreamable cfg lib oc r s))" using assms ServeStreamable_call_frame call_frame_inv by blast
  show "ms_activeQueries (snd (ServeStreamable cfg lib oc r s)) = ms_activeQueries s"
    using ServeStreamable_call_frame [of lib cfg oc r s] by (simp add: call_frame_def)
  have "server_inv cfg lib (snd (handleRequest cfg lib oc (i, role, sc) req s)) \<and>
      ms_activeQueries (snd (handleRequest cfg lib oc (i, role, sc) req s)) = ms_activeQueries s" for i role sc req
    using assms call_frame_inv [OF handleRequest_frame] handleRequest_frame [of lib role cfg oc i sc req s]
    by (auto simp: call_frame_def)
  then show "server_inv cfg lib (snd (ServeMessages cfg lib oc r s))" "ms_activeQueries (snd (ServeMessages cfg lib oc r s)) = ms_activeQueries s"
    using ServeMessages_state [of cfg lib oc r s] assms by (auto simp: write_event_inv)
qed

text \<open>The two halves of a call.\<close>

lemma start_call_cases:
  obtains (none) "pr_running (start_call cfg lib oc (identity, role, scopes) r sid p) = pr_running p"
      "call_frame lib adm 0 (pr_server (start_call cfg lib oc (identity, role, scopes) r sid p)) (pr_server p)"
    | (begun) ru where "pr_running (start_call cfg lib oc (identity, role, scopes) r sid p) = pr_running p @ [ru]"
      "call_frame lib adm 1 (pr_server (start_call cfg lib oc (identity, role, scopes) r sid p)) (pr_server p)"
      "ru_http ru = r" "go_HasPrefix (fl_tool (ru_flight ru)) ''admin_'' \<Longrightarrow> role = ''admin''"
proof (cases "\<exists>req. mh_body r = Some req \<and> rpc_id req \<noteq> None \<and> rpc_method req = ''tools/call''")
  case True
  then obtain req where q: "mh_body r = Some req" "rpc_id req \<noteq> None" "rpc_method req = ''tools/call''" by blast
  obtain x s1 where a: "admit_call cfg lib oc (identity, role, scopes) (rpc_params req) (pr_server p) = (x, s1)" by force
  have f: "call_frame lib adm 0 s1 (pr_server p)" using admit_call_frame a by (metis snd_conv)
  show thesis
  proof (cases x)
    case (Inl e)
    then show thesis using none f by (simp add: start_call_def q a)
  next
    case (Inr na)
    then obtain name args where na: "x = Inr (name, args)" by (cases na) auto
    note f1 = call_frame_trans [OF begin_call_frame f, of cfg identity name args]
    show thesis
      using begun f1 admit_call_admin [OF a [unfolded na]] by (simp add: start_call_def q a na split_beta Let_def)
  qed
next
  case False
  then have "start_call cfg lib oc (identity, role, scopes) r sid p = p"
    by (auto simp: start_call_def split: option.split)
  then show thesis using none reads_only_frame by simp
qed

lemma end_call_cases:
  obtains (none) "end_call cfg lib oc i p = p"
    | (ended) ru s1 where "i < length (pr_running p)" "ru = pr_running p ! i"
        "call_frame lib (go_HasPrefix (fl_tool (ru_flight ru)) ''admin_'') (-1) s1 (pr_server p)"
        "\<exists>sid e. pr_server (end_call cfg lib oc i p) \<in> {s1, write_event sid e s1}"
        "pr_running (end_call cfg lib oc i p) = take i (pr_running p) @ drop (Suc i) (pr_running p)"
proof (cases "i < length (pr_running p)")
  case True
  let ?ru = "pr_running p ! i"
  let ?s1 = "snd (finish_call cfg lib oc (ru_flight ?ru) (pr_server p))"
  have "\<exists>sid e. pr_server (end_call cfg lib oc i p) \<in> {?s1, write_event sid e ?s1}"
    using True by (auto simp: end_call_def split_beta Let_def split: option.split)
  then show thesis using ended [OF True refl finish_call_frame] True by (simp add: end_call_def split_beta Let_def)
qed (use none in \<open>simp add: end_call_def\<close>)

lemma call_frame_process:
  assumes "call_frame lib adm n (pr_server q) (pr_server p)" "int (length (pr_running q)) = int (length (pr_running p)) + n" "mcp_inv cfg lib p"
  shows "mcp_inv cfg lib q"
proof -
  have "server_inv cfg lib (pr_server q)" using assms(3) call_frame_inv [OF assms(1)] by (simp add: mcp_inv_def)
  with assms show ?thesis by (simp add: mcp_inv_def call_frame_def)
qed

lemma start_call_inv: "mcp_inv cfg lib p \<Longrightarrow> mcp_inv cfg lib (start_call cfg lib oc who r sid p)"
proof (cases who)
  case w: (fields identity role scopes)
  assume inv: "mcp_inv cfg lib p"
  show ?thesis
    unfolding w
    by (rule start_call_cases [of cfg lib oc identity role scopes r sid p True]; erule call_frame_process) (simp_all add: inv)
qed

lemma end_call_inv: "mcp_inv cfg lib p \<Longrightarrow> mcp_inv cfg lib (end_call cfg lib oc i p)"
proof (rule end_call_cases [of cfg lib oc i p])
  fix ru s1
  assume inv: "mcp_inv cfg lib p" and i: "i < length (pr_running p)"
    and f: "call_frame lib (go_HasPrefix (fl_tool (ru_flight ru)) ''admin_'') (-1) s1 (pr_server p)"
    and s: "\<exists>sid e. pr_server (end_call cfg lib oc i p) \<in> {s1, write_event sid e s1}"
    and r: "pr_running (end_call cfg lib oc i p) = take i (pr_running p) @ drop (Suc i) (pr_running p)"
  have "server_inv cfg lib s1" "ms_activeQueries s1 = int (length (pr_running p)) - 1"
    using inv call_frame_inv [OF f] f by (auto simp: mcp_inv_def call_frame_def)
  then show ?thesis using s i write_event_inv by (auto simp: mcp_inv_def r)
qed simp

lemma on_server_inv:
  assumes "mcp_inv cfg lib p" "server_inv cfg lib (pr_server p) \<Longrightarrow> server_inv cfg lib (f (pr_server p))"
    and "ms_activeQueries (f (pr_server p)) = ms_activeQueries (pr_server p)"
  shows "mcp_inv cfg lib (on_server f p)"
  using assms by (simp add: mcp_inv_def on_server_def)

lemma steps_activeQueries:
  "ms_activeQueries (snd (ServeSSE cfg lib oc flush r s)) = ms_activeQueries s" "ms_activeQueries (close_session sid s) = ms_activeQueries s"
  "ms_activeQueries (auditWorker f ts s) = ms_activeQueries s"
  by (auto simp: ServeSSE_def Let_def close_session_def auditWorker_def split: option.split list.split)

lemma mcp_step_inv:
  assumes "mcp_inv cfg lib p"
  shows "mcp_inv cfg lib (mcp_step cfg lib op p)"
proof (cases op)
  case (BeginStreamable oc r)
  then show ?thesis using assms start_call_inv by (simp split: option.split)
next
  case (BeginMessages oc r)
  then show ?thesis using assms start_call_inv by (simp add: Let_def split: option.split)
next
  case (FinishCall oc i)
  then show ?thesis using assms end_call_inv by simp
next
  case (Elapse n)
  then show ?thesis using assms by (simp add: mcp_inv_def on_server_def server_inv_def GetActiveSessionCount_def)
qed (use assms in \<open>auto intro!: on_server_inv ServeSSE_inv close_session_inv write_event_inv auditWorker_inv
       simp: simple_steps_inv steps_activeQueries mcp_inv_def [of cfg lib p]\<close>)

lemma NewDB_known: "file_ok H fk dbf \<Longrightarrow> NewDB None fk dbf = Inr d \<Longrightarrow> tables_wf (known H) d"
  by (drule (1) NewDB_wf) (erule tables_wf_mono, auto simp: known_def unpinned_def)

lemma mcp_trace_inv: "mcp_trace cfg lib past p \<Longrightarrow> mcp_inv cfg lib p"
proof (induction rule: mcp_trace.induct)
  case (started fk dbf d now ttl client lv)
  then show ?case
    using EnableConfigCache_wf [OF NewDB_known [OF started]]
    by (simp add: mcp_inv_def server_inv_def NewMCPServer_def GetActiveSessionCount_def)
qed (rule mcp_step_inv)

subsection \<open>Rights\<close>

text \<open>What sessions and running calls may do, they may because a token administered when the session was opened or the call
  was begun.\<close>

definition session_rights :: "mcp_server \<Rightarrow> (string \<times> string) set" where
  "session_rights s = (\<lambda>(sid, se). (se_role se, se_tokenHash se)) ` set (ms_sessions s)"

definition rights_ok :: "mcp_config \<Rightarrow> mcp_lib \<Rightarrow> (mcp_op \<times> mcp_process) list \<Rightarrow> mcp_process \<Rightarrow> bool" where
  "rights_ok cfg lib past p \<longleftrightarrow>
     (\<forall>h. (''admin'', h) \<in> session_rights (pr_server p) \<longrightarrow> administered cfg lib past h) \<and>
     (\<forall>ru \<in> set (pr_running p). go_HasPrefix (fl_tool (ru_flight ru)) ''admin_'' \<longrightarrow>
        administered cfg lib past (sessionTokenHash lib (extractToken (ru_http ru))))"

lemma administered_mono: "administered cfg lib past h \<Longrightarrow> administered cfg lib (past @ new) h"
  by (auto simp: administered_def)

lemma administered_now:
  "requested p op = Some r \<Longrightarrow> admin_token cfg lib (ms_db (pr_server p)) (extractToken r) \<Longrightarrow>
   administered cfg lib (past @ [(op, p)]) (sessionTokenHash lib (extractToken r))"
  by (auto simp: administered_def)

lemma session_rights_frame: "call_frame lib adm n s' s \<Longrightarrow> session_rights s' = session_rights s"
  by (simp add: session_rights_def call_frame_def)

lemma session_rights_events [simp]:
  "session_rights (write_event sid e s) = session_rights s" "session_rights (close_session sid s) \<subseteq> session_rights s"
  "session_rights (auditWorker f ts s) = session_rights s" "session_rights (s\<lparr>ms_now := t\<rparr>) = session_rights s"
proof -
  have "(\<lambda>(sid, se). (se_role se, se_tokenHash se)) ` set (AList.map_entry sid (\<lambda>se. se\<lparr>se_stream := se_stream se @ [e]\<rparr>) xs) =
      (\<lambda>(sid, se). (se_role se, se_tokenHash se)) ` set xs" for xs
    by (induction xs) auto
  then show "session_rights (write_event sid e s) = session_rights s" by (simp add: session_rights_def write_event_def)
  show "session_rights (close_session sid s) \<subseteq> session_rights s"
    by (auto simp: session_rights_def close_session_def AList.delete_eq)
qed (auto simp: session_rights_def auditWorker_def split: list.split)

lemma ServeSSE_rights:
  "session_rights (snd (ServeSSE cfg lib oc flush r s)) \<subseteq> session_rights s \<union>
     {(role, sessionTokenHash lib (extractToken r)) | role. \<exists>i sc. resolveAuth cfg lib (mo_token_fault oc) (extractToken r) (ms_db s) = Some (i, role, sc)}"
proof -
  have "(\<lambda>(sid, se). (se_role se, se_tokenHash se)) ` set (AList.update k v xs) \<subseteq>
      insert (se_role v, se_tokenHash v) ((\<lambda>(sid, se). (se_role se, se_tokenHash se)) ` set xs)"
    for k :: string and v :: mcp_session and xs
    by (induction xs) auto
  note upd = this [THEN subsetD]
  show ?thesis
  proof (cases "resolveAuth cfg lib (mo_token_fault oc) (extractToken r) (ms_db s)")
    case (Some a)
    obtain i role sc where a: "a = (i, role, sc)" by (cases a)
    show ?thesis
      by (auto simp: ServeSSE_def Some a session_rights_def Let_def dest!: upd)
  qed (simp add: ServeSSE_def)
qed

lemma ServeMessages_rights [simp]: "session_rights (snd (ServeMessages cfg lib oc r s)) = session_rights s"
  using ServeMessages_state [of cfg lib oc r s] session_rights_frame [OF handleRequest_frame] by auto

lemma start_call_rights:
  assumes "rights_ok cfg lib past p" "role = ''admin'' \<Longrightarrow> administered cfg lib (past @ new) (sessionTokenHash lib (extractToken r))"
  shows "rights_ok cfg lib (past @ new) (start_call cfg lib oc (identity, role, scopes) r sid p)"
  by (rule start_call_cases [of cfg lib oc identity role scopes r sid p True])
    (use assms administered_mono session_rights_frame in \<open>fastforce simp: rights_ok_def\<close>)+

lemma end_call_rights: "rights_ok cfg lib past p \<Longrightarrow> rights_ok cfg lib (past @ new) (end_call cfg lib oc i p)"
proof (rule end_call_cases [of cfg lib oc i p])
  fix ru s1
  assume ok: "rights_ok cfg lib past p"
    and f: "call_frame lib (go_HasPrefix (fl_tool (ru_flight ru)) ''admin_'') (-1) s1 (pr_server p)"
    and s: "\<exists>sid e. pr_server (end_call cfg lib oc i p) \<in> {s1, write_event sid e s1}"
    and r: "pr_running (end_call cfg lib oc i p) = take i (pr_running p) @ drop (Suc i) (pr_running p)"
  have "session_rights (pr_server (end_call cfg lib oc i p)) = session_rights (pr_server p)"
    using s session_rights_frame [OF f] session_rights_events(1) by (metis empty_iff insert_iff)
  moreover have "set (pr_running (end_call cfg lib oc i p)) \<subseteq> set (pr_running p)"
    unfolding r using set_take_subset set_drop_subset by fastforce
  ultimately show ?thesis using ok administered_mono by (auto simp: rights_ok_def)
qed (auto simp: rights_ok_def administered_mono)

lemma server_rights:
  assumes "rights_ok cfg lib past p" "session_rights (f (pr_server p)) \<subseteq> session_rights (pr_server p)"
  shows "rights_ok cfg lib (past @ new) (on_server f p)"
  using assms administered_mono by (auto simp: rights_ok_def on_server_def)

lemma session_mem: "map_of (ms_sessions s) sid = Some se \<Longrightarrow> (se_role se, se_tokenHash se) \<in> session_rights s"
  by (force simp: session_rights_def dest: map_of_SomeD)

lemma mcp_step_rights:
  assumes "rights_ok cfg lib past p"
  shows "rights_ok cfg lib (past @ [(op, p)]) (mcp_step cfg lib op p)"
proof (cases op)
  case (Streamable oc r)
  then show ?thesis using server_rights [OF assms] session_rights_frame [OF ServeStreamable_call_frame] by simp
next
  case (OpenSSE oc flush r)
  have "administered cfg lib (past @ [(op, p)]) h"
    if h: "(''admin'', h) \<in> session_rights (snd (ServeSSE cfg lib oc flush r (pr_server p)))" for h
  proof (cases "(''admin'', h) \<in> session_rights (pr_server p)")
    case True
    then show ?thesis using assms administered_mono by (simp add: rights_ok_def)
  next
    case False
    with h ServeSSE_rights [of cfg lib oc flush r "pr_server p"] obtain i sc where
      "resolveAuth cfg lib (mo_token_fault oc) (extractToken r) (ms_db (pr_server p)) = Some (i, ''admin'', sc)"
      and h: "h = sessionTokenHash lib (extractToken r)" by blast
    then have "admin_token cfg lib (ms_db (pr_server p)) (extractToken r)" by (simp add: resolveAuth_admin)
    then show ?thesis unfolding h by (intro administered_now) (simp_all add: OpenSSE)
  qed
  then show ?thesis using assms administered_mono by (auto simp: rights_ok_def OpenSSE on_server_def)
next
  case (BeginStreamable oc r)
  show ?thesis
  proof (cases "resolveAuth cfg lib (mo_token_fault oc) (extractToken r) (ms_db (pr_server p))")
    case (Some who)
    obtain identity role scopes where w: "who = (identity, role, scopes)" by (metis prod.exhaust)
    have "role = ''admin'' \<Longrightarrow> administered cfg lib (past @ [(op, p)]) (sessionTokenHash lib (extractToken r))"
      using resolveAuth_admin [of cfg lib "mo_token_fault oc" "extractToken r" "ms_db (pr_server p)" identity scopes] Some
      by (intro administered_now) (simp_all add: BeginStreamable w)
    from start_call_rights [OF assms this] show ?thesis by (simp add: BeginStreamable Some w)
  qed (use assms server_rights [of cfg lib past p id] in \<open>simp add: BeginStreamable on_server_def\<close>)
next
  case (BeginMessages oc r)
  let ?sid = "Query_Get (url_query (mh_url r)) ''sessionId''"
  show ?thesis
  proof (cases "\<exists>se. map_of (ms_sessions (pr_server p)) ?sid = Some se \<and> mh_method r = ''POST'' \<and>
      sessionTokenHash lib (extractToken r) = se_tokenHash se")
    case True
    then obtain se where se: "map_of (ms_sessions (pr_server p)) ?sid = Some se" "mh_method r = ''POST''"
      "sessionTokenHash lib (extractToken r) = se_tokenHash se" by blast
    have "se_role se = ''admin'' \<Longrightarrow> administered cfg lib (past @ [(op, p)]) (sessionTokenHash lib (extractToken r))"
      using session_mem [OF se(1)] assms administered_mono unfolding se(3) by (simp add: rights_ok_def)
    from start_call_rights [OF assms this] show ?thesis by (simp add: BeginMessages se)
  next
    case False
    then have "mcp_step cfg lib op p = p" by (auto simp: BeginMessages Let_def split: option.split)
    then show ?thesis using assms server_rights [of cfg lib past p id] by (simp add: on_server_def)
  qed
next
  case (FinishCall oc i)
  then show ?thesis using end_call_rights [OF assms] by simp
qed (use server_rights [OF assms] in simp_all)

lemma mcp_trace_rights: "mcp_trace cfg lib past p \<Longrightarrow> rights_ok cfg lib past p"
proof (induction rule: mcp_trace.induct)
  case (started fk dbf d now ttl client lv)
  then show ?case by (simp add: rights_ok_def session_rights_def NewMCPServer_def)
qed (rule mcp_step_rights)

lemma same_config_refl [simp]: "same_config s s"
  by (simp add: same_config_def)

lemma same_config_event [simp]: "same_config (write_event sid e s') s = same_config s' s"
  by (simp add: same_config_def write_event_def)

lemma quiet_steps:
  "same_config (snd (ServeSSE cfg lib oc flush r s)) s" "same_config (close_session sid s) s" "same_config (s\<lparr>ms_now := t\<rparr>) s"
  by (auto simp: same_config_def ServeSSE_def Let_def close_session_def split: option.split)

lemma start_call_config: "same_config (pr_server (start_call cfg lib oc who r sid p)) (pr_server p)"
proof (cases who)
  case w: (fields identity role scopes)
  show ?thesis
    unfolding w by (rule start_call_cases [of cfg lib oc identity role scopes r sid p False]) (auto simp: call_frame_def)
qed

text \<open>Whoever changes the configuration presented a token that administers, or did when the session was opened.\<close>

lemma step_administers:
  assumes "rights_ok cfg lib past p" "\<not> same_config (pr_server (mcp_step cfg lib op p)) (pr_server p)" "\<forall>f ts. op \<noteq> Audit f ts"
  shows "\<exists>r. requested p op = Some r \<and> administered cfg lib (past @ [(op, p)]) (sessionTokenHash lib (extractToken r)) \<and>
    (\<forall>oc. op = Streamable oc r \<longrightarrow> admin_token cfg lib (ms_db (pr_server p)) (extractToken r))"
proof (cases op)
  case (Streamable oc r)
  then have "admin_token cfg lib (ms_db (pr_server p)) (extractToken r)"
    using assms(2) ServeStreamable_unprivileged [of cfg lib "pr_server p" r oc] by (auto simp: on_server_def)
  with Streamable administered_now [of p op r] show ?thesis by simp
next
  case (Messages oc r)
  let ?sid = "Query_Get (url_query (mh_url r)) ''sessionId''"
  from assms(2) Messages obtain se req resp where se: "map_of (ms_sessions (pr_server p)) ?sid = Some se"
    "sessionTokenHash lib (extractToken r) = se_tokenHash se"
    and n: "\<not> same_config (snd (handleRequest cfg lib oc (se_identity se, se_role se, se_scopes se) req (pr_server p))) (pr_server p)"
    using ServeMessages_state [of cfg lib oc r "pr_server p"] by (auto simp: on_server_def)
  have "se_role se = ''admin''" using n unprivileged_request by blast
  with session_mem [OF se(1)] assms(1) se(2) administered_mono show ?thesis by (auto simp: Messages rights_ok_def)
next
  case (FinishCall oc i)
  show ?thesis
  proof (rule end_call_cases [of cfg lib oc i p])
    fix ru s1
    assume i: "i < length (pr_running p)" "ru = pr_running p ! i"
      and f: "call_frame lib (go_HasPrefix (fl_tool (ru_flight ru)) ''admin_'') (-1) s1 (pr_server p)"
      and s: "\<exists>sid e. pr_server (end_call cfg lib oc i p) \<in> {s1, write_event sid e s1}"
    from s assms(2) have "\<not> same_config s1 (pr_server p)" by (auto simp: FinishCall)
    with f have "go_HasPrefix (fl_tool (ru_flight ru)) ''admin_''" by (simp add: call_frame_def)
    with assms(1) i administered_mono show ?thesis by (auto simp: FinishCall rights_ok_def)
  qed (use assms(2) FinishCall in simp)
qed (use assms(2,3) start_call_config in \<open>auto simp: on_server_def quiet_steps Let_def split: option.splits if_splits\<close>)

subsection \<open>The catalogue\<close>

lemma admin_tool_names: "t \<in> set admin_tools \<Longrightarrow> go_HasPrefix (tl_name t) ''admin_''"
  by (auto simp: admin_tools_def go_HasPrefix_def)

lemma endpoint_tool_name:
  "endpoint_tool lib conns scopes ep = Some t \<Longrightarrow>
   \<exists>c. live_conn conns ep = Some c \<and> tl_name t = resolved_name c ep \<and> matchScope (tl_name t) scopes"
  by (auto simp: endpoint_tool_def Let_def split: option.splits if_splits)

lemma set_map_filter: "y \<in> set (List.map_filter f xs) \<longleftrightarrow> (\<exists>x \<in> set xs. f x = Some y)"
  by (force simp: map_filter_def)

lemma listed_iff_found:
  assumes "listTools lib oc role scopes s = (Inr tools, s1)" "findEndpoint oc name s = (Inr fnd, s2)"
    and "\<not> go_HasPrefix name ''admin_''"
  shows "name \<in> set (map tl_name tools) \<longleftrightarrow> matchScope name scopes \<and> fnd \<noteq> None"
proof -
  obtain eps d conns d' where r: "GetAllEndpoints (mo_fault oc) (ms_now s) (ms_db s) = (Inr eps, d)"
    "GetConnections (mo_fault2 oc) (ms_now s) d = (Inr conns, d')"
    using assms(1) by (auto simp: listTools_def split: prod.splits sum.splits)
  let ?named = "\<lambda>ep. case live_conn conns ep of None \<Rightarrow> False | Some c \<Rightarrow> resolved_name c ep = name"
  have "fnd \<noteq> None \<longleftrightarrow> (\<exists>ep \<in> set eps. ?named ep)"
    using assms(2) by (auto simp: findEndpoint_def r find_None_iff split: option.splits dest!: find_Some_mem)
  moreover have "name \<in> set (map tl_name tools) \<longleftrightarrow> (\<exists>ep \<in> set eps. \<exists>t. endpoint_tool lib conns scopes ep = Some t \<and> tl_name t = name)"
    using assms(1,3) admin_tool_names
    by (auto simp: listTools_def r image_iff Bex_def set_map_filter split: if_splits; blast)
  moreover have "(\<exists>t. endpoint_tool lib conns scopes ep = Some t \<and> tl_name t = name) \<longleftrightarrow> ?named ep \<and> matchScope name scopes" for ep
    by (auto simp: endpoint_tool_def Let_def split: option.splits)
  ultimately show ?thesis by blast
qed

lemma findEndpoint_counter:
  "findEndpoint oc name (s\<lparr>ms_activeQueries := n\<rparr>) = map_prod id (\<lambda>s. s\<lparr>ms_activeQueries := n\<rparr>) (findEndpoint oc name s)"
  by (simp add: findEndpoint_def split: prod.split sum.split)

lemma listed_finds: "listTools lib oc role scopes s = (Inr tools, s1) \<Longrightarrow> \<exists>fnd s2. findEndpoint oc name s = (Inr fnd, s2)"
  by (auto simp: listTools_def findEndpoint_def split: prod.splits sum.splits)

lemma run_call_outcome:
  assumes "findEndpoint oc name s = (Inr fnd, s2)" "\<not> go_HasPrefix name ''admin_''"
  shows "fst (run_call cfg lib oc identity name args s) = Inl (-32603, ToolFailed (ToolNotFound name)) \<longleftrightarrow> fnd = None"
proof -
  obtain fl where fl: "begin_call cfg identity name args s = (fl, s\<lparr>ms_activeQueries := ms_activeQueries s + 1\<rparr>)" "fl_tool fl = name"
    by (simp add: begin_call_def split_beta)
  let ?s = "s\<lparr>ms_activeQueries := ms_activeQueries s + 1\<rparr>"
  have f: "findEndpoint oc name ?s = (Inr fnd, s2\<lparr>ms_activeQueries := ms_activeQueries s + 1\<rparr>)"
    using assms(1) by (simp add: findEndpoint_counter)
  have "fst (callTool lib oc name (fl_args fl) ?s) = Inl (ToolNotFound name) \<longleftrightarrow> fnd = None"
    using assms(2) f by (auto simp: callTool_def split: option.split prod.split sum.split)
  moreover have "fst (finish_call cfg lib oc fl ?s) = Inl (-32603, ToolFailed (ToolNotFound name)) \<longleftrightarrow>
      fst (callTool lib oc name (fl_args fl) ?s) = Inl (ToolNotFound name)"
    by (auto simp: finish_call_def fl(2) split_beta Let_def redact_result_def split: sum.split option.split)
  ultimately show ?thesis by (simp add: run_call_def fl(1))
qed

lemma run_call_not_scope: "fst (run_call cfg lib oc identity name args s) \<noteq> Inl (-32601, m)"
  by (simp add: run_call_def finish_call_def split_beta Let_def split: sum.split)

lemma listed_iff_called:
  assumes "listTools lib oc role scopes s = (Inr tools, s1)" "decode_call params = Some (name, args)"
    and "\<not> go_HasPrefix name ''admin_''" "\<not> mc_toolPinningStrict cfg"
  shows "name \<in> set (map tl_name tools) \<longleftrightarrow>
    fst (tools_call cfg lib oc (identity, role, scopes) params s) \<notin> {Inl (-32601, ScopeFailed name), Inl (-32603, ToolFailed (ToolNotFound name))}"
proof -
  obtain fnd s2 where f: "findEndpoint oc name s = (Inr fnd, s2)" using listed_finds [OF assms(1)] by blast
  have "admit_call cfg lib oc (identity, role, scopes) params s =
      (if matchScope name scopes then Inr (name, args) else Inl (-32601, ScopeFailed name), s)"
    using assms(2-4) by (simp add: admit_call_def)
  then show ?thesis
    unfolding listed_iff_found [OF assms(1) f assms(3)]
    using run_call_outcome [OF f assms(3), of cfg lib identity args] run_call_not_scope [of cfg lib oc identity name args s]
    by (simp add: tools_call_def)
qed

subsection \<open>The audit channel\<close>

lemma drain_all:
  assumes "length tss = length (ms_auditCh s)" "distinct (map ae_id (ms_auditCh s))"
    "\<forall>e \<in> set (ms_auditCh s). \<forall>r \<in> set (t_audit (ms_db s)). log_id r \<noteq> ae_id e"
  shows "ms_auditCh (drain tss s) = [] \<and>
    t_audit (ms_db (drain tss s)) =
      t_audit (ms_db s) @ map2 (\<lambda>ts e. (audit_row_of e)\<lparr>log_timestamp := ts\<rparr>) tss (ms_auditCh s)"
  using assms
proof (induction tss arbitrary: s)
  case (Cons ts tss)
  then obtain e ch where ch: "ms_auditCh s = e # ch" by (cases "ms_auditCh s") auto
  have i: "log_id (audit_row_of x) = ae_id x" for x by (simp add: audit_row_of_def)
  let ?s = "auditWorker None ts s"
  have s: "ms_auditCh ?s = ch"
    "t_audit (ms_db ?s) = t_audit (ms_db s) @ [(audit_row_of e)\<lparr>log_timestamp := ts\<rparr>]"
    using Cons.prems by (auto simp: auditWorker_def ch LogAudit_def list_ex_iff i)
  have "ms_auditCh (drain tss ?s) = [] \<and> t_audit (ms_db (drain tss ?s)) =
      t_audit (ms_db ?s) @ map2 (\<lambda>ts e. (audit_row_of e)\<lparr>log_timestamp := ts\<rparr>) tss (ms_auditCh ?s)"
    using Cons.prems by (intro Cons.IH) (auto simp: s ch i)
  then show ?case by (simp add: s ch)
qed simp

subsection \<open>Pinning\<close>

lemma found_name:
  "findEndpoint oc name s = (Inr (Some (ep, conn)), s1) \<Longrightarrow> name = resolved_name conn ep"
  by (auto simp: findEndpoint_def split: prod.splits sum.splits option.splits dest!: find_Some_mem)

lemma prefixed_changed:
  assumes "findEndpoint oc name s = (Inr (Some (ep, conn)), s1)" "\<not> go_HasPrefix name ''admin_''"
    and "conn_tool_prefix conn \<noteq> []"
    and "ep_definition_hash ep = tool_hash (integrity (ml_store lib)) (endpoint_def ep)" "ep_definition_hash ep \<noteq> []"
    and "json_lib_ok (integrity (ml_store lib))"
    and "no_collision (integrity (ml_store lib)) ((endpoint_def ep)\<lparr>td_name := name\<rparr>) (endpoint_def ep)"
  shows "toolDefinitionChanged lib oc name s = (Inr True, s1)"
proof -
  let ?d = "(endpoint_def ep)\<lparr>td_name := name\<rparr>"
  have "name \<noteq> ep_tool_name ep" using found_name [OF assms(1)] assms(3) by (simp add: resolved_name_def)
  then have "\<not> same_def (integrity (ml_store lib)) ?d (endpoint_def ep)" by (simp add: same_def_def endpoint_def_def)
  then have "tool_hash (integrity (ml_store lib)) ?d \<noteq> ep_definition_hash ep"
    using tool_hash_eq [OF assms(6,7)] assms(4) by simp
  moreover have "?d = \<lparr>td_name = name, td_description = ep_tool_description ep, td_method = ep_method ep,
      td_path = ep_path ep, td_schema = ep_parameters_schema ep\<rparr>"
    by (simp add: endpoint_def_def)
  ultimately show ?thesis
    using assms(1,2,5) by (simp add: toolDefinitionChanged_def tool_changed_def)
qed

subsection \<open>The local vault as a provider\<close>

interpretation local_store: vault_provider "\<lambda>lv k. GetSecret k lv" "\<lambda>k v lv. snd (SetSecret vl nonce wr k v lv)" for vl nonce wr
  by unfold_locales (simp add: GetSecret_def SetSecret_def saveLocked_def update_conv split: write_outcome.split)

lemma registered_vault:
  assumes "handleAdminTool lib oc ''admin_register_vault_secret'' args s = (r, s')"
    and "requireStringArg args ''key'' = Some k" "requireStringArg args ''value'' = Some v"
  shows "ms_vault s' = snd (SetSecret (ml_vault lib) (mo_nonce oc) (mo_write oc) k v (ms_vault s))"
  using assms by (auto simp: handleAdminTool_def split: prod.splits sum.splits)

text \<open>A text in an argument after redaction.\<close>

definition redacted :: "mcp_config \<Rightarrow> string \<Rightarrow> string" where
  "redacted cfg t = (case mc_redactor cfg of None \<Rightarrow> t | Some rd \<Rightarrow> fst (RedactBytes rd t))"

lemma redact_args_text:
  assumes "map_of m x = Some (JString t)"
  shows "map_of (arg_list (fst (redact_args cfg (Some m)))) x = Some (JString (redacted cfg t))"
proof (cases "mc_redactor cfg")
  case (Some rd)
  have "m \<noteq> []" using assms by auto
  moreover have "map_of (fst (RedactMap rd m)) x = map_option (map_strings (\<lambda>t. fst (RedactBytes rd t))) (map_of m x)"
    unfolding RedactMap_map map_of_map_prod ..
  ultimately show ?thesis using assms by (simp add: redact_args_def Some arg_list_def split_beta redacted_def)
qed (simp add: redact_args_def arg_list_def redacted_def assms)

lemma registered_by_call:
  assumes "run_call cfg lib oc identity ''admin_register_vault_secret'' (Some m) s = (r, s')"
    and "map_of m ''key'' = Some (JString k)" "map_of m ''value'' = Some (JString v)"
  shows "redacted cfg k \<noteq> [] \<Longrightarrow> redacted cfg v \<noteq> [] \<Longrightarrow>
      ms_vault s' = snd (SetSecret (ml_vault lib) (mo_nonce oc) (mo_write oc) (redacted cfg k) (redacted cfg v) (ms_vault s))"
    "ms_client s' = ms_client s"
proof -
  let ?n = "''admin_register_vault_secret''" and ?a = "arg_list (fst (redact_args cfg (Some m)))"
  let ?s = "s\<lparr>ms_activeQueries := ms_activeQueries s + 1\<rparr>"
  obtain q s1 where h: "handleAdminTool lib oc ?n ?a ?s = (q, s1)" by force
  have c: "callTool lib oc ?n (fst (redact_args cfg (Some m))) ?s = (q, s1)" using h by (simp add: callTool_def go_HasPrefix_def)
  let ?fl = "fst (begin_call cfg identity ?n (Some m) s)"
  have fl: "fl_tool ?fl = ?n" "fl_args ?fl = fst (redact_args cfg (Some m))" "snd (begin_call cfg identity ?n (Some m) s) = ?s"
    by (simp_all add: begin_call_def split_beta)
  obtain e where "snd (finish_call cfg lib oc ?fl ?s) = logAuditAsync e (s1\<lparr>ms_activeQueries := ms_activeQueries s1 - 1\<rparr>)"
    using finish_call_state [of lib oc ?fl ?s q s1] c fl by metis
  then have s': "ms_vault s' = ms_vault s1" "ms_client s' = ms_client s1"
    using assms(1) fl(3) by (auto simp: run_call_def split_beta logAuditAsync_frame dest!: arg_cong [where f = snd])
  show "ms_client s' = ms_client s" using h s' by (auto simp: handleAdminTool_def split: sum.splits prod.splits)
  show "ms_vault s' = snd (SetSecret (ml_vault lib) (mo_nonce oc) (mo_write oc) (redacted cfg k) (redacted cfg v) (ms_vault s))"
    if "redacted cfg k \<noteq> []" "redacted cfg v \<noteq> []"
  proof -
    have "requireStringArg ?a ''key'' = Some (redacted cfg k)" "requireStringArg ?a ''value'' = Some (redacted cfg v)"
      using redact_args_text [OF assms(2), of cfg] redact_args_text [OF assms(3), of cfg] that by (simp_all add: requireStringArg_def)
    from registered_vault [OF h this] s' show ?thesis by simp
  qed
qed

subsection \<open>A server for the examples\<close>

definition agent_conn :: connection where
  "agent_conn = shop_conn\<lparr>conn_tool_prefix := ''shop_''\<rparr>"

definition agent_ep :: stored_endpoint where
  "agent_ep = shop_ep\<lparr>ep_definition_hash := tool_hash toy_integrity (endpoint_def shop_ep), ep_version := 1\<rparr>"

definition agent_lib :: mcp_lib where
  "agent_lib =
     \<lparr>ml_auth = toy_lib, ml_store = g_store toy_env, ml_vault = plain_lib, ml_client = shop_lib,
      ml_error_text = (\<lambda>e. ''error'')\<rparr>"

definition agent_config :: mcp_config where
  "agent_config =
     \<lparr>mc_auth = g_auth toy_env, mc_corsOrigins = [], mc_maxSessions = 1,
      mc_oauth = Some (\<lambda>t. if t = ''oa'' then Some ([], [''*'']) else None), mc_redactor = None, mc_toolPinningStrict = True\<rparr>"

definition agent_file :: db_file where
  "agent_file = new_file\<lparr>f_prefix_column := True, f_hash_column := True, f_version_column := True,
     f_connections := [agent_conn], f_endpoints := [agent_ep]\<rparr>"

definition agent_db :: db where
  "agent_db = (empty_db False)\<lparr>t_connections := [agent_conn], t_endpoints := [agent_ep]\<rparr>"

definition agent_server :: mcp_server where
  "agent_server = NewMCPServer 0 agent_db shop_client (gw_vault toy_gateway)"

definition agent_outcome :: mcp_outcome where
  "agent_outcome =
     \<lparr>mo_fault = None, mo_fault2 = None, mo_token_fault = None, mo_world = shop_world, mo_uuid = ''u1'', mo_log_id = ''l1'',
      mo_nonce = [], mo_write = Written, mo_duration = 3\<rparr>"

definition oauth_request :: mcp_http where
  "oauth_request =
     \<lparr>mh_method = ''POST'', mh_url = ''/mcp'', mh_headers = [(''authorization'', ''Bearer oa'')],
      mh_body = Some \<lparr>rpc_method = ''tools/call'',
        rpc_params = Some (JObject [(''name'', JString ''admin_add_connection'')]), rpc_id = Some (JNumber ''1'')\<rparr>\<rparr>"

lemma agent_db_wf: "db_wf (hash_def (ml_store agent_lib)) agent_db"
  by (simp add: tables_wf_def pinned_def agent_db_def agent_ep_def agent_lib_def toy_env_def hash_def_def empty_db_def endpoint_def_def)

lemma agent_finds: "findEndpoint agent_outcome ''shop_get_order'' agent_server = (Inr (Some (agent_ep, agent_conn)), agent_server)"
proof -
  have "live_conn [agent_conn] agent_ep = Some agent_conn" "resolved_name agent_conn agent_ep = ''shop_get_order''"
    by code_simp+
  then show ?thesis
    by (simp add: findEndpoint_def agent_server_def NewMCPServer_def agent_outcome_def agent_db_def empty_db_def
        GetAllEndpoints_def GetConnections_def)
qed

subsection \<open>Registration\<close>

lemma saved_endpoint_found:
  assumes "db_wf (hash_def (ml_store lib)) (ms_db s)" "c \<in> set (t_connections (ms_db s))" "conn_enabled c"
    and "handleAdminTool lib oc ''admin_add_endpoint'' args s = (Inr msg, s')"
    and "requireStringArg args ''connection_id'' = Some (conn_id c)" "requireStringArg args ''tool_name'' = Some tn"
    and "listTools lib oc' role [''*''] s' = (Inr tools, s2)" "mo_fault oc' = None" "mo_fault2 oc' = None"
  shows "(if conn_tool_prefix c \<noteq> [] then conn_tool_prefix c @ tn else tn) \<in> set (map tl_name tools)"
proof -
  obtain vs where vs: "require_args ''admin_add_endpoint'' args
      [''connection_id'', ''tool_name'', ''tool_description'', ''path'', ''method''] = Inr vs"
    using assms(4) by (auto simp: handleAdminTool_def split: sum.splits)
  have v: "vs ! 0 = conn_id c" "vs ! 1 = tn"
    using vs assms(5,6) by (auto split: sum.splits option.splits)
  let ?ep = "admin_endpoint args (mo_uuid oc) vs"
  let ?st = "stamp (hash_def (ml_store lib)) ?ep (ms_db s)"
  have db: "ms_db s' = invalidateCaches ((ms_db s)\<lparr>t_endpoints := upsert ep_id ?st (t_endpoints (ms_db s))\<rparr>)"
    using assms(4) vs by (auto simp: handleAdminTool_def SaveEndpoint_def Let_def split: option.splits prod.splits sum.splits if_splits)
  then have e: "GetAllEndpoints None (ms_now s') (ms_db s') = (Inr (t_endpoints (ms_db s')),
      (ms_db s')\<lparr>epCache := cache_Set (ms_now s') all_key (t_endpoints (ms_db s')) (epCache (ms_db s'))\<rparr>)" (is "_ = (_, ?d)")
    by (simp add: GetAllEndpoints_def invalidateCaches_def cache_Get_Purge)
  have "fst (GetConnections None (ms_now s') ?d) = Inr (t_connections (ms_db s))"
    unfolding db by (simp add: GetConnections_def invalidateCaches_def cache_Get_Purge)
  then obtain d' where c: "GetConnections None (ms_now s') ?d = (Inr (t_connections (ms_db s)), d')"
    by (metis prod.collapse)
  have "distinct (map conn_id (t_connections (ms_db s)))" using assms(1) by (simp add: tables_wf_def)
  then have "conn_map (t_connections (ms_db s)) (conn_id c) = Some c"
    using assms(2) by (simp add: conn_map_def rev_map [symmetric] comp_def)
  then have "live_conn (t_connections (ms_db s)) ?st = Some c"
    using assms(3) v by (simp add: live_conn_def admin_endpoint_def)
  moreover have "ep_tool_name ?st = tn" using v by (simp add: admin_endpoint_def)
  ultimately obtain t where t: "endpoint_tool lib (t_connections (ms_db s)) [''*''] ?st = Some t"
    "tl_name t = (if conn_tool_prefix c \<noteq> [] then conn_tool_prefix c @ tn else tn)"
    by (simp add: endpoint_tool_def resolved_name_def)
  have "y \<in> set (upsert key y xs)" for key :: "stored_endpoint \<Rightarrow> string" and y xs by (induction xs) auto
  then have "t \<in> set (List.map_filter (endpoint_tool lib (t_connections (ms_db s)) [''*'']) (t_endpoints (ms_db s')))"
    using t(1) by (auto simp: set_map_filter db)
  then have "t \<in> set tools" using assms(7-9) by (auto simp: listTools_def e c)
  then show ?thesis unfolding t(2) [symmetric] by simp
qed

section \<open>Properties\<close>


definition agent_start :: mcp_process where
  "agent_start =
     \<lparr>pr_server = NewMCPServer 0 (EnableConfigCache 5 agent_db) shop_client (gw_vault toy_gateway), pr_running = []\<rparr>"

lemma agent_trace: "mcp_trace agent_config agent_lib [] agent_start"
proof -
  have "file_ok (hash_def (ml_store agent_lib)) False agent_file"
    by (simp add: file_ok_def agent_file_def new_file_def known_def pinned_def agent_ep_def agent_lib_def toy_env_def hash_def_def
        endpoint_def_def)
  moreover have "NewDB None False agent_file = Inr agent_db"
    by (simp add: NewDB_def initSchema_def agent_file_def new_file_def agent_db_def empty_db_def)
  ultimately show ?thesis unfolding agent_start_def by (rule mcp_trace.started)
qed

definition register_request :: mcp_http where
  "register_request =
     \<lparr>mh_method = ''POST'', mh_url = ''/mcp'', mh_headers = [(''authorization'', ''Bearer gw'')],
      mh_body = Some \<lparr>rpc_method = ''tools/call'', rpc_params = Some (JObject [(''name'', JString ''admin_register_vault_secret''),
        (''arguments'', JObject [(''key'', JString ''shop/key''), (''value'', JString ''k9'')])]), rpc_id = Some (JNumber ''1'')\<rparr>\<rparr>"


text \<open>C10: In every state that the server reaches which was started on a database that \<^verbatim>\<open>NewDB\<close> opened, whatever requests
  arrive, overlap, fail or are cut off: there are never more sessions than the limit, no two with the same id, at most
  1000 audit entries wait, the counter of active queries is the number of calls that are running, and the tables have
  unique keys and names, and for every tool the hash of its definition or, if it is from an earlier version, none.\<close>

theorem mcp_invariant:
  assumes "mcp_trace cfg lib past p"
  shows "mcp_inv cfg lib p"
  using assms by (rule mcp_trace_inv)

theorem mcp_invariant_witness:
  "mcp_inv agent_config agent_lib
     (mcp_step agent_config agent_lib (FinishCall agent_outcome 0)
       (mcp_step agent_config agent_lib (BeginStreamable agent_outcome register_request) agent_start))"
  by (rule mcp_invariant [OF mcp_trace.stepped [OF mcp_trace.stepped [OF agent_trace]]])

text \<open>C17: Listing and calling agree, where tools are not pinned strictly: a tool that is not administrative is listed for a
  caller exactly when a call of it, made in the same state, gets through to the target API, that is, is refused neither
  as out of the caller's scopes nor as unknown.\<close>

theorem listed_tools_are_callable:
  assumes "listTools lib oc role scopes s = (Inr tools, s1)" "decode_call params = Some (name, args)"
    and "\<not> go_HasPrefix name ''admin_''" "\<not> mc_toolPinningStrict cfg"
  shows "name \<in> set (map tl_name tools) \<longleftrightarrow>
    fst (tools_call cfg lib oc (identity, role, scopes) params s) \<notin> {Inl (-32601, ScopeFailed name), Inl (-32603, ToolFailed (ToolNotFound name))}"
  using listed_iff_called [OF assms] .

lemma agent_lists:
  "listTools agent_lib agent_outcome ''user'' [''shop_*''] agent_server =
     (Inr [\<lparr>tl_name = ''shop_get_order'', tl_description = ''One order'', tl_inputSchema = JObject [],
            tl_meta = toolMeta agent_ep\<rparr>], agent_server)"
proof -
  have "endpoint_tool agent_lib [agent_conn] [''shop_*''] agent_ep =
      Some \<lparr>tl_name = ''shop_get_order'', tl_description = ''One order'', tl_inputSchema = JObject [], tl_meta = toolMeta agent_ep\<rparr>"
    by code_simp
  then show ?thesis
    by (simp add: listTools_def agent_server_def NewMCPServer_def agent_outcome_def agent_db_def empty_db_def
        GetAllEndpoints_def GetConnections_def map_filter_def)
qed

theorem listed_tools_are_callable_witness:
  "fst (tools_call (agent_config\<lparr>mc_toolPinningStrict := False\<rparr>) agent_lib agent_outcome (''cli'', ''user'', [''shop_*''])
     (Some (JObject [(''name'', JString ''shop_get_order'')])) agent_server) \<noteq> Inl (-32603, ToolFailed (ToolNotFound ''shop_get_order''))"
proof -
  let ?q = "Some (JObject [(''name'', JString ''shop_get_order'')])"
  have "decode_call ?q = Some (''shop_get_order'', None)" by code_simp
  from listed_tools_are_callable [OF agent_lists this, of "agent_config\<lparr>mc_toolPinningStrict := False\<rparr>" "''cli''"]
  show ?thesis by (simp add: go_HasPrefix_def)
qed

text \<open>A tool that an administrator registers through the server is offered: after the tool was added to an enabled
  connection, the next list for a caller with all scopes has it under its full name, whatever was cached before.\<close>

theorem registered_tool_is_listed:
  assumes "db_wf (hash_def (ml_store lib)) (ms_db s)" "c \<in> set (t_connections (ms_db s))" "conn_enabled c"
    and "handleAdminTool lib oc ''admin_add_endpoint'' args s = (Inr msg, s')"
    and "requireStringArg args ''connection_id'' = Some (conn_id c)" "requireStringArg args ''tool_name'' = Some tn"
    and "listTools lib oc' role [''*''] s' = (Inr tools, s2)" "mo_fault oc' = None" "mo_fault2 oc' = None"
  shows "(if conn_tool_prefix c \<noteq> [] then conn_tool_prefix c @ tn else tn) \<in> set (map tl_name tools)"
  by (rule saved_endpoint_found [OF assms])

definition refund_args :: args where
  "refund_args =
     [(''connection_id'', JString ''c1''), (''tool_name'', JString ''refund''), (''tool_description'', JString ''Refund an order''),
      (''path'', JString ''/orders/{{id}}/refund''), (''method'', JString ''POST'')]"

theorem registered_tool_is_listed_witness:
  "''shop_refund'' \<in> set (map tl_name (projr (fst (listTools agent_lib agent_outcome ''user'' [''*'']
      (snd (handleAdminTool agent_lib agent_outcome ''admin_add_endpoint'' refund_args agent_server))))))"
proof -
  let ?h = "handleAdminTool agent_lib agent_outcome ''admin_add_endpoint'' refund_args agent_server"
  let ?l = "listTools agent_lib agent_outcome ''user'' [''*''] (snd ?h)"
  have "\<not> isl (fst ?h)" "\<not> isl (fst ?l)" "conn_enabled agent_conn" "conn_tool_prefix agent_conn = ''shop_''"
    "requireStringArg refund_args ''connection_id'' = Some (conn_id agent_conn)"
    "requireStringArg refund_args ''tool_name'' = Some ''refund''"
    by code_simp+
  moreover from this have "?h = (Inr (projr (fst ?h)), snd ?h)" "?l = (Inr (projr (fst ?l)), snd ?l)"
    by (metis prod.collapse sum.collapse(2))+
  moreover have "ms_db agent_server = agent_db" "agent_conn \<in> set (t_connections agent_db)"
    "mo_fault agent_outcome = None" "mo_fault2 agent_outcome = None"
    by (simp_all add: agent_server_def NewMCPServer_def agent_db_def agent_outcome_def)
  ultimately show ?thesis
    using registered_tool_is_listed [of agent_lib agent_server agent_conn agent_outcome refund_args "projr (fst ?h)" "snd ?h"
        "''refund''" agent_outcome "''user''" "projr (fst ?l)" "snd ?l"] agent_db_wf
    by simp
qed

text \<open>C18: A secret that an administrator registers through the server is what the target API gets: calls through a bearer
  connection that refers to it send exactly this secret with every request, if no older value of it is cached; this is so
  at once, even when the vault could not write its file. It is so where redaction is off or leaves key and value as they
  are; otherwise the vault keeps the masked value (\<open>masked_secret_stored\<close>).\<close>

theorem registered_secret_is_sent:
  assumes "run_call cfg lib oc identity ''admin_register_vault_secret'' (Some m) s = (r, s')"
    and "map_of m ''key'' = Some (JString k)" "map_of m ''value'' = Some (JString v)" "k \<noteq> []" "v \<noteq> []"
    and "redacted cfg k = k" "redacted cfg v = v"
    and "conn_auth_type conn = ''bearer''" "conn_auth_secret_ref conn = k"
    and "cache_Get (w_clock w 1) (gc_secretCache (ms_client s)) k = None"
  shows "list_all (carries (''Bearer '' @ v))
    (snd (snd (ExecuteCall (ml_client lib) (\<lambda>ref. GetSecret ref (ms_vault s')) w conn ep params (ms_client s'))))"
proof -
  note r = registered_by_call [OF assms(1-3)]
  have "ms_vault s' = snd (SetSecret (ml_vault lib) (mo_nonce oc) (mo_write oc) k v (ms_vault s))" "ms_client s' = ms_client s"
    using r assms(4-7) by simp_all
  with local_store.bearer_sent [OF assms(8,9,4,10)] show ?thesis by simp
qed

definition key_args :: args where
  "key_args = [(''key'', JString ''shop/key''), (''value'', JString ''k9'')]"

theorem registered_secret_is_sent_witness:
  "list_all (carries ''Bearer k9'')
    (snd (snd (ExecuteCall shop_lib
      (\<lambda>ref. GetSecret ref (ms_vault (snd (run_call agent_config agent_lib agent_outcome ''master'' ''admin_register_vault_secret'' (Some key_args) agent_server))))
      shop_world shop_conn shop_ep shop_args
      (ms_client (snd (run_call agent_config agent_lib agent_outcome ''master'' ''admin_register_vault_secret'' (Some key_args) agent_server))))))"
proof -
  let ?h = "run_call agent_config agent_lib agent_outcome ''master'' ''admin_register_vault_secret'' (Some key_args) agent_server"
  have "map_of key_args ''key'' = Some (JString ''shop/key'')" "map_of key_args ''value'' = Some (JString ''k9'')"
    "conn_auth_type shop_conn = ''bearer''" "conn_auth_secret_ref shop_conn = ''shop/key''" by code_simp+
  moreover have "gc_secretCache (ms_client agent_server) = None"
    by (simp add: agent_server_def NewMCPServer_def shop_client_def SetMaxRetries_def EnableResponseCache_def NewGatewayClient_def)
  moreover have "ml_client agent_lib = shop_lib" by (simp add: agent_lib_def)
  moreover have "redacted agent_config t = t" for t by (simp add: redacted_def agent_config_def)
  ultimately show ?thesis
    using registered_secret_is_sent [of agent_config agent_lib agent_outcome "''master''" key_args agent_server "fst ?h" "snd ?h"
        "''shop/key''" "''k9''" shop_conn shop_world shop_ep shop_args] by (simp add: cache_Get_def)
qed

text \<open>A scope is a name, or a prefix followed by an asterisk; a tool is in scope exactly when one of the caller's scopes
  is its name or has a prefix of its name, so that without scopes no tool is.\<close>

theorem scope_patterns: "matchScope name scopes \<longleftrightarrow> list_ex (in_scope name) scopes"
  by (rule matchScope_iff)

text \<open>C22: Audit entries are not lost in the channel or reordered: when the writes succeed, the worker empties the channel
  and appends one row for each waiting entry to the audit log, in the order in which the calls ended.\<close>

theorem audit_entries_written:
  assumes "length tss = length (ms_auditCh s)" "distinct (map ae_id (ms_auditCh s))"
    "\<forall>e \<in> set (ms_auditCh s). \<forall>r \<in> set (t_audit (ms_db s)). log_id r \<noteq> ae_id e"
  shows "ms_auditCh (drain tss s) = [] \<and>
    t_audit (ms_db (drain tss s)) =
      t_audit (ms_db s) @ map2 (\<lambda>ts e. (audit_row_of e)\<lparr>log_timestamp := ts\<rparr>) tss (ms_auditCh s)"
  using assms by (rule drain_all)

definition sample_entry :: audit_entry where
  "sample_entry = \<lparr>ae_id = ''l1'', ae_identity = ''cli'', ae_tool = ''list'', ae_status = ''success'', ae_duration = 3,
                   ae_errMsg = [], ae_redaction = ''email=1''\<rparr>"

theorem audit_entries_written_witness:
  "map log_error_message (t_audit (ms_db (drain [''t1''] (agent_server\<lparr>ms_auditCh := [sample_entry]\<rparr>)))) = [''redacted: email=1'']"
proof -
  have "ms_auditCh (agent_server\<lparr>ms_auditCh := [sample_entry]\<rparr>) = [sample_entry]"
    "t_audit (ms_db (agent_server\<lparr>ms_auditCh := [sample_entry]\<rparr>)) = []"
    by (simp_all add: agent_server_def NewMCPServer_def agent_db_def empty_db_def)
  then show ?thesis
    using audit_entries_written [of "[''t1'']" "agent_server\<lparr>ms_auditCh := [sample_entry]\<rparr>"]
    by (simp add: audit_row_of_def audit_message_def sample_entry_def)
qed

text \<open>C38: Strict pinning refuses tools that never changed: the hash that the store records is of the tool's own name, the
  one that a call is compared with is of the name with the connection's prefix, so that every tool of a connection with
  a prefix is refused as changed.\<close>

theorem strict_pinning_refuses_prefixed:
  assumes "mc_toolPinningStrict cfg" "decode_call params = Some (name, args)" "matchScope name scopes"
    and "findEndpoint oc name s = (Inr (Some (ep, conn)), s1)" "\<not> go_HasPrefix name ''admin_''"
    and "conn_tool_prefix conn \<noteq> []"
    and "ep_definition_hash ep = tool_hash (integrity (ml_store lib)) (endpoint_def ep)" "ep_definition_hash ep \<noteq> []"
    and "json_lib_ok (integrity (ml_store lib))"
    and "no_collision (integrity (ml_store lib)) ((endpoint_def ep)\<lparr>td_name := name\<rparr>) (endpoint_def ep)"
  shows "tools_call cfg lib oc (identity, role, scopes) params s = (Inl (-32001, DefinitionChanged name), s1)"
  using assms(1-3,5) prefixed_changed [OF assms(4-10)] by (simp add: tools_call_def admit_call_def)

theorem strict_pinning_refuses_prefixed_witness:
  "tools_call agent_config agent_lib agent_outcome (''cli'', ''user'', [''*''])
     (Some (JObject [(''name'', JString ''shop_get_order'')])) agent_server =
   (Inl (-32001, DefinitionChanged ''shop_get_order''), agent_server)"
proof -
  have "mc_toolPinningStrict agent_config" "decode_call (Some (JObject [(''name'', JString ''shop_get_order'')])) = Some (''shop_get_order'', None)"
    "matchScope ''shop_get_order'' [''*'']" "\<not> go_HasPrefix ''shop_get_order'' ''admin_''" "conn_tool_prefix agent_conn \<noteq> []"
    "ep_definition_hash agent_ep = tool_hash (integrity (ml_store agent_lib)) (endpoint_def agent_ep)" "ep_definition_hash agent_ep \<noteq> []"
    by code_simp+
  moreover have "integrity (ml_store agent_lib) = toy_integrity" by (simp add: agent_lib_def toy_env_def)
  ultimately show ?thesis
    using toy_integrity_ok agent_finds by (intro strict_pinning_refuses_prefixed [where args = None and ep = agent_ep and conn = agent_conn]) simp_all
qed

text \<open>Redaction does not cover errors: when a call fails, the error goes to the client and into the audit log as it is,
  whatever the redactor; the error of a target API that answers with a status from 400 up holds the body it sent.\<close>

theorem failed_call_not_redacted:
  assumes "callTool lib oc name (fst (redact_args cfg args)) (s\<lparr>ms_activeQueries := ms_activeQueries s + 1\<rparr>) = (Inl e, s1)"
    and "length (ms_auditCh s1) < audit_capacity"
  shows "fst (run_call cfg lib oc identity name args s) = Inl (-32603, ToolFailed e) \<and>
    ae_errMsg (last (ms_auditCh (snd (run_call cfg lib oc identity name args s)))) = ml_error_text lib e"
  using assms by (simp add: run_call_def begin_call_def finish_call_def split_beta Let_def redact_result_def logAuditAsync_def)

definition refusing_world :: world where
  "refusing_world = shop_world\<lparr>w_server := (\<lambda>i t r. Response 404 ''no order for jo@example.org'')\<rparr>"

lemma refused_call:
  assumes "vault ''shop/key'' = Inr ''k1''"
  shows "ExecuteCall shop_lib vault refusing_world shop_conn shop_ep shop_args shop_client =
     (Inl (ErrorStatus 404 ''no order for jo@example.org''), shop_client,
      [SecretRead ''shop/key'', Dialled (ByAddr (V4 0x08080404) ''443''), Sent shop_request])"
proof -
  have "rendered_url shop_lib refusing_world shop_conn shop_ep shop_args = Inr shop_url"
    "validateEgress sample_policy (w_lookup refusing_world) shop_url = Inr ()"
    "with_query shop_lib refusing_world shop_ep shop_args shop_url = shop_url"
    "ep_method shop_ep = ''GET''" "lib_String shop_lib shop_url = ''https://api.example/orders/7''"
    "lib_NewRequest shop_lib ''GET'' ''https://api.example/orders/7'' = Inr shop_url"
    "request_body refusing_world shop_ep shop_args = None"
    by code_simp+
  moreover note shop_credentials [of vault refusing_world, OF assms]
  moreover have "doWithRetry shop_client shop_lib refusing_world shop_request ''GET'' =
      (Inr (404, ''no order for jo@example.org''), [Dialled (ByAddr (V4 0x08080404) ''443''), Sent shop_request])"
    by (simp add: doWithRetry_def Let_def http_Do_def attempt_outcome_def shop_egress shop_steps refusing_world_def
        shop_world_def shop_lib_def shop_request_def shop_url_def maxResponseBytes_def isIdempotent_def)
  moreover have "\<lparr>hq_method = ''GET'', hq_url = shop_url, hq_headers = hq_headers shop_request, hq_body = None\<rparr> = shop_request"
    by (simp add: shop_request_def)
  ultimately show ?thesis by (simp add: ExecuteCall_def shop_egress shop_get)
qed

definition masking_config :: mcp_config where
  "masking_config = agent_config\<lparr>mc_redactor := Some \<lparr>rd_enabled = True, rd_rules = [card_rule]\<rparr>\<rparr>"

definition shop_server :: mcp_server where
  "shop_server = agent_server\<lparr>ms_db := agent_db\<lparr>t_connections := [shop_conn], t_endpoints := [shop_ep]\<rparr>,
     ms_vault := \<lparr>lv_secrets = [(''shop/key'', ''k1'')], lv_file = None\<rparr>\<rparr>"

lemma shop_finds:
  "findEndpoint (agent_outcome\<lparr>mo_world := wd\<rparr>) ''get_order'' (shop_server\<lparr>ms_activeQueries := n\<rparr>) =
     (Inr (Some (shop_ep, shop_conn)), shop_server\<lparr>ms_activeQueries := n\<rparr>)"
proof -
  have "live_conn [shop_conn] shop_ep = Some shop_conn" "resolved_name shop_conn shop_ep = ''get_order''"
    by code_simp+
  then show ?thesis
    by (simp add: findEndpoint_def shop_server_def agent_server_def NewMCPServer_def agent_outcome_def agent_db_def empty_db_def
        GetAllEndpoints_def GetConnections_def)
qed

theorem failed_call_not_redacted_witness:
  "fst (run_call masking_config agent_lib (agent_outcome\<lparr>mo_world := refusing_world\<rparr>) ''cli'' ''get_order'' shop_args shop_server) =
   Inl (-32603, ToolFailed (CallFailed (ErrorStatus 404 ''no order for jo@example.org'')))"
proof -
  let ?s = "shop_server\<lparr>ms_activeQueries := ms_activeQueries shop_server + 1\<rparr>"
  have r: "fst (redact_args masking_config shop_args) = shop_args" by code_simp
  have "ms_client shop_server = shop_client" "ml_client agent_lib = shop_lib" "GetSecret ''shop/key'' (ms_vault shop_server) = Inr ''k1''"
    "ms_auditCh shop_server = []" "\<not> go_HasPrefix ''get_order'' ''admin_''"
    by (simp_all add: shop_server_def agent_server_def NewMCPServer_def agent_lib_def GetSecret_def go_HasPrefix_def)
  then have "callTool agent_lib (agent_outcome\<lparr>mo_world := refusing_world\<rparr>) ''get_order'' shop_args ?s =
      (Inl (CallFailed (ErrorStatus 404 ''no order for jo@example.org'')), ?s\<lparr>ms_client := shop_client\<rparr>)"
    by (simp add: callTool_def shop_finds refused_call)
  with r \<open>ms_auditCh shop_server = []\<close> show ?thesis
    using failed_call_not_redacted [of agent_lib "agent_outcome\<lparr>mo_world := refusing_world\<rparr>" "''get_order''" masking_config shop_args
        shop_server "CallFailed (ErrorStatus 404 ''no order for jo@example.org'')" "?s\<lparr>ms_client := shop_client\<rparr>"]
    by (simp add: audit_capacity_def)
qed

text \<open>Redaction also masks what is meant for the vault: with redaction enabled, a secret that an administrator registers
  through the server is masked like any other argument before the tool runs, and the vault keeps the mask instead of
  the secret.\<close>

theorem masked_secret_stored:
  assumes "mc_redactor cfg = Some rd" "map_of m ''key'' = Some (JString k)" "map_of m ''value'' = Some (JString v)"
    and "fst (RedactBytes rd k) = k" "k \<noteq> []" "fst (RedactBytes rd v) \<noteq> []"
  shows "GetSecret k (ms_vault (snd (run_call cfg lib oc identity ''admin_register_vault_secret'' (Some m) s))) =
    Inr (fst (RedactBytes rd v))"
proof -
  have "redacted cfg k = k" "redacted cfg v = fst (RedactBytes rd v)" using assms(1,4) by (simp_all add: redacted_def)
  with registered_by_call(1) [OF prod.collapse [symmetric] assms(2,3), of cfg lib oc identity s] assms(5,6) local_store.get_put
  show ?thesis by simp
qed

theorem masked_secret_stored_witness:
  "GetSecret ''card'' (ms_vault (snd (run_call masking_config agent_lib agent_outcome ''master'' ''admin_register_vault_secret''
     (Some [(''key'', JString ''card''), (''value'', JString ''4111-1111-1111-1111'')]) agent_server))) =
   Inr ''[REDACTED:credit_card]''"
proof -
  let ?rd = "\<lparr>rd_enabled = True, rd_rules = [card_rule]\<rparr>"
  have "fst (RedactBytes ?rd ''card'') = ''card''" "fst (RedactBytes ?rd ''4111-1111-1111-1111'') = ''[REDACTED:credit_card]''"
    by code_simp+
  then show ?thesis
    using masked_secret_stored [of masking_config ?rd
        "[(''key'', JString ''card''), (''value'', JString ''4111-1111-1111-1111'')]" "''card''" "''4111-1111-1111-1111''"
        agent_lib agent_outcome "''master''" agent_server]
    by (simp add: masking_config_def)
qed

text \<open>A session outlives its token: once open, it answers messages with the rights it was opened with, though the token
  that opened it is not accepted any more.\<close>

theorem revoked_token_keeps_session:
  assumes "resolveAuth cfg lib (mo_token_fault oc) (extractToken r) (ms_db s) = None"
    and "mh_method r = ''POST''" "map_of (ms_sessions s) (Query_Get (url_query (mh_url r)) ''sessionId'') = Some se"
    and "sessionTokenHash lib (extractToken r) = se_tokenHash se" "mh_body r = Some req" "rpc_id req \<noteq> None"
  shows "mr_body (fst (ServeMessages cfg lib oc r s)) =
    Inr (fst (handleRequest cfg lib oc (se_identity se, se_role se, se_scopes se) req s))"
  using assms by (auto simp: ServeMessages_def Let_def split_beta)

text \<open>A tool of an endpoint whose exposed name begins like an administrative one can be listed, but not called.\<close>

theorem admin_named_tool_shadowed:
  assumes "go_HasPrefix name ''admin_''"
    and "name \<notin> {''admin_add_connection'', ''admin_add_endpoint'', ''admin_register_vault_secret''}"
  shows "callTool lib oc name args s = (Inl (UnknownAdminTool name), s)"
  using assms by (simp add: callTool_def handleAdminTool_def)

end
