(* ===== verification/Gateway_OAuth.thy ===== *)
theory Gateway_OAuth
  imports Gateway_Mcp Gateway_Base64
begin

text \<open>
  OAuth access tokens, \<^verbatim>\<open>pkg/oauth\<close>: validation of a token against the signing keys of a trusted authorization server,
  which are discovered over the network and cached for five minutes, and the documents that tell clients where to get
  tokens. Parsing a token, checking its signature under a key and its dates are parameters; the network is an
  argument that gives for a URL an error, or the status and the JSON body of the response.
\<close>

section \<open>Definitions\<close>

record oauth_config =
  oa_Enabled :: bool
  oa_ResourceURI :: string
  oa_AuthorizationServers :: "string list"
  oa_ScopesSupported :: "string list"

type_synonym rsa_key = "int \<times> int"
type_synonym jwks = "(string \<times> rsa_key) list"
type_synonym claim_set = "(string \<times> json) list"

record parsed_jwt =
  pj_alg :: string
  pj_kid :: string
  pj_claims :: claim_set

record oauth_lib =
  oj_parse :: "string \<Rightarrow> parsed_jwt option"
  oj_verify :: "rsa_key \<Rightarrow> string \<Rightarrow> string \<Rightarrow> bool"
  oj_dates :: "claim_set \<Rightarrow> int \<Rightarrow> bool"

type_synonym network = "string \<Rightarrow> string + nat \<times> json option"

record validator =
  vd_config :: oauth_config
  vd_cache :: "string \<rightharpoonup> jwks \<times> int"

record oauth_claims =
  oc_subject :: string
  oc_scopes :: "string list"
  oc_issuer :: string

datatype oauth_error =
    Unparsable
  | UntrustedIssuer string
  | NoKeys string
  | NotVerified
  | WrongAudience

definition jwksCacheTTL :: int where
  "jwksCacheTTL = 5 * 60 * 10 ^ 9"

definition NewValidator :: "oauth_config \<Rightarrow> string + validator" where
  "NewValidator c =
     (if oa_ResourceURI c = [] then Inl ''oauth: NewValidator: ResourceURI must be set'' else Inr \<lparr>vd_config = c, vd_cache = Map.empty\<rparr>)"

subsection \<open>Claims\<close>

definition claim_string :: "claim_set \<Rightarrow> string \<Rightarrow> string" where
  "claim_string raw k = (case map_of raw k of Some (JString s) \<Rightarrow> s | _ \<Rightarrow> [])"

definition parseScopes :: "claim_set \<Rightarrow> string list" where
  "parseScopes raw =
     (if claim_string raw ''scope'' \<noteq> [] then go_Fields (claim_string raw ''scope'')
      else case map_of raw ''scp'' of
             Some (JString v) \<Rightarrow> (if v \<noteq> [] then go_Fields v else [])
           | Some (JArray vs) \<Rightarrow> filter (\<lambda>s. s \<noteq> []) (json_strings vs)
           | _ \<Rightarrow> [])"

definition audienceContains :: "json option \<Rightarrow> string \<Rightarrow> bool" where
  "audienceContains aud resourceURI =
     (if resourceURI = [] then False
      else case aud of
             Some (JString v) \<Rightarrow> v = resourceURI
           | Some (JArray vs) \<Rightarrow> resourceURI \<in> set (json_strings vs)
           | _ \<Rightarrow> False)"

definition issuerTrusted :: "oauth_config \<Rightarrow> string \<Rightarrow> bool" where
  "issuerTrusted c iss =
     (if iss = [] \<or> \<not> go_HasPrefix iss ''https://'' then False
      else list_ex (\<lambda>a. go_TrimSuffix a ''/'' = go_TrimSuffix iss ''/'') (oa_AuthorizationServers c))"

subsection \<open>Signing keys\<close>

text \<open>A field of a struct that is decoded from a JSON object: null and a missing field leave it empty, a value of another type
  is an error.\<close>

definition text_field :: "claim_set \<Rightarrow> string \<Rightarrow> string option" where
  "text_field kvs name =
     foldl (\<lambda>r (k, v). if \<not> go_EqualFold k name then r
         else (case v of JString s \<Rightarrow> map_option (\<lambda>_. s) r | JNull \<Rightarrow> r | _ \<Rightarrow> None)) (Some []) kvs"

definition fetchDiscoveryJWKSURI :: "network \<Rightarrow> string \<Rightarrow> string + string" where
  "fetchDiscoveryJWKSURI net discoveryURL =
     (case net discoveryURL of
        Inl e \<Rightarrow> Inl (''fetch discovery document: '' @ e)
      | Inr (st, doc) \<Rightarrow>
          if st \<noteq> 200 then Inl (''discovery document '' @ discoveryURL @ '' returned HTTP '' @ nat_to_string st)
          else (case doc of
                  Some (JObject kvs) \<Rightarrow>
                    (case text_field kvs ''jwks_uri'' of
                       None \<Rightarrow> Inl ''decode discovery document''
                     | Some uri \<Rightarrow> (if uri = [] then Inl ''discovery document missing jwks_uri'' else Inr uri))
                | Some JNull \<Rightarrow> Inl ''discovery document missing jwks_uri''
                | _ \<Rightarrow> Inl ''decode discovery document''))"

definition discoverJWKSURI :: "network \<Rightarrow> string \<Rightarrow> string + string" where
  "discoverJWKSURI net issuer =
     (case fetchDiscoveryJWKSURI net (issuer @ ''/.well-known/oauth-authorization-server'') of
        Inr uri \<Rightarrow> Inr uri
      | Inl _ \<Rightarrow>
          (case fetchDiscoveryJWKSURI net (issuer @ ''/.well-known/openid-configuration'') of
             Inr uri \<Rightarrow> Inr uri
           | Inl lastErr \<Rightarrow> Inl (''discover jwks_uri for issuer '' @ fmt_q issuer @ '': '' @ lastErr)))"

definition rsaPublicKeyFromJWK :: "string \<Rightarrow> string \<Rightarrow> rsa_key option" where
  "rsaPublicKeyFromJWK nB64 eB64 =
     (case DecodeString RawURLEncoding nB64 of
        None \<Rightarrow> None
      | Some nBytes \<Rightarrow>
          (case DecodeString RawURLEncoding eB64 of
             None \<Rightarrow> None
           | Some eBytes \<Rightarrow>
               (let e = SetBytes eBytes in
                if \<not> e < 2 ^ 63 \<or> e < 2 then None else Some (SetBytes nBytes, e))))"

text \<open>One element of the array of keys: an error of decoding (\<open>Inl\<close>), a key that is skipped, or a usable one.\<close>

definition decode_jwk :: "json \<Rightarrow> unit + (string \<times> rsa_key) option" where
  "decode_jwk j =
     (case j of
        JObject kvs \<Rightarrow>
          (case (text_field kvs ''kty'', text_field kvs ''kid'', text_field kvs ''use'', text_field kvs ''n'', text_field kvs ''e'') of
             (Some kty, Some kid, Some use, Some n, Some e) \<Rightarrow>
               Inr (if kty \<noteq> ''RSA'' then None
                    else if use \<noteq> [] \<and> use \<noteq> ''sig'' then None
                    else map_option (Pair kid) (rsaPublicKeyFromJWK n e))
           | _ \<Rightarrow> Inl ())
      | JNull \<Rightarrow> Inr None
      | _ \<Rightarrow> Inl ())"

fun collect_keys :: "json list \<Rightarrow> jwks \<Rightarrow> jwks option" where
  "collect_keys [] keys = Some keys"
| "collect_keys (j # js) keys =
     (case decode_jwk j of
        Inl _ \<Rightarrow> None
      | Inr None \<Rightarrow> collect_keys js keys
      | Inr (Some (kid, k)) \<Rightarrow> collect_keys js (AList.update kid k keys))"

definition keys_field :: "claim_set \<Rightarrow> json list option" where
  "keys_field kvs =
     foldl (\<lambda>r (k, v). if \<not> go_EqualFold k ''keys'' then r
         else (case v of JArray js \<Rightarrow> map_option (\<lambda>_. js) r | JNull \<Rightarrow> map_option (\<lambda>_. []) r | _ \<Rightarrow> None)) (Some []) kvs"

definition fetchJWKSKeys :: "network \<Rightarrow> string \<Rightarrow> string + jwks" where
  "fetchJWKSKeys net jwksURI =
     (case net jwksURI of
        Inl e \<Rightarrow> Inl (''fetch jwks: '' @ e)
      | Inr (st, doc) \<Rightarrow>
          if st \<noteq> 200 then Inl (''jwks endpoint returned HTTP '' @ nat_to_string st)
          else (case doc of
                  Some (JObject kvs) \<Rightarrow>
                    (case Option.bind (keys_field kvs) (\<lambda>js. collect_keys js []) of
                       None \<Rightarrow> Inl ''decode jwks''
                     | Some keys \<Rightarrow>
                         (if length keys = 0 then Inl ''jwks contained no usable RSA signing keys'' else Inr keys))
                | Some JNull \<Rightarrow> Inl ''jwks contained no usable RSA signing keys''
                | _ \<Rightarrow> Inl ''decode jwks''))"

text \<open>The part of \<^verbatim>\<open>fetchJWKS\<close> after the look into the cache.\<close>

definition refresh_keys :: "network \<Rightarrow> int \<Rightarrow> string \<Rightarrow> validator \<Rightarrow> (string + jwks) \<times> validator" where
  "refresh_keys net now issuer v =
     (case discoverJWKSURI net issuer of
        Inl e \<Rightarrow> (Inl e, v)
      | Inr jwksURI \<Rightarrow>
          if \<not> go_HasPrefix jwksURI ''https://'' then (Inl (''jwks_uri must be https, got '' @ fmt_q jwksURI), v)
          else (case fetchJWKSKeys net jwksURI of
                  Inl e \<Rightarrow> (Inl e, v)
                | Inr keys \<Rightarrow> (Inr keys, v\<lparr>vd_cache := (vd_cache v)(issuer \<mapsto> (keys, now))\<rparr>)))"

definition fetchJWKS :: "network \<Rightarrow> int \<Rightarrow> string \<Rightarrow> validator \<Rightarrow> (string + jwks) \<times> validator" where
  "fetchJWKS net now iss v =
     (let issuer = go_TrimSuffix iss ''/'' in
      if \<not> go_HasPrefix issuer ''https://'' then (Inl (''issuer must be https, got '' @ fmt_q issuer), v)
      else case vd_cache v issuer of
             Some (keys, fetchedAt) \<Rightarrow> if now - fetchedAt < jwksCacheTTL then (Inr keys, v) else refresh_keys net now issuer v
           | None \<Rightarrow> refresh_keys net now issuer v)"

subsection \<open>Validation\<close>

definition valid_methods :: "string list" where
  "valid_methods = [''RS256'', ''RS384'', ''RS512'']"

definition keyfunc :: "jwks \<Rightarrow> parsed_jwt \<Rightarrow> rsa_key option" where
  "keyfunc keys tk =
     (if pj_kid tk = [] then (if length keys = 1 then Some (snd (hd keys)) else None) else map_of keys (pj_kid tk))"

text \<open>\<^verbatim>\<open>jwt.ParseWithClaims\<close> with the options of the code: an RSA method, a signature that verifies under the key that \<^verbatim>\<open>keyfunc\<close>
  selects, dates in order with an expiry, and the given issuer.\<close>

definition parse_with_claims :: "oauth_lib \<Rightarrow> int \<Rightarrow> jwks \<Rightarrow> string \<Rightarrow> string \<Rightarrow> claim_set option" where
  "parse_with_claims lib now keys iss token =
     (case oj_parse lib token of
        None \<Rightarrow> None
      | Some tk \<Rightarrow>
          if pj_alg tk \<notin> set valid_methods then None
          else case keyfunc keys tk of
                 None \<Rightarrow> None
               | Some k \<Rightarrow>
                   if oj_verify lib k (pj_alg tk) token \<and> oj_dates lib (pj_claims tk) now \<and> claim_string (pj_claims tk) ''iss'' = iss
                   then Some (pj_claims tk) else None)"

definition ValidateToken ::
  "oauth_lib \<Rightarrow> network \<Rightarrow> int \<Rightarrow> string \<Rightarrow> validator \<Rightarrow> (oauth_error + oauth_claims) \<times> validator" where
  "ValidateToken lib net now token v =
     (case oj_parse lib token of
        None \<Rightarrow> (Inl Unparsable, v)
      | Some unverified \<Rightarrow>
          (let iss = claim_string (pj_claims unverified) ''iss'' in
           if \<not> issuerTrusted (vd_config v) iss then (Inl (UntrustedIssuer iss), v)
           else case fetchJWKS net now iss v of
                  (Inl e, v) \<Rightarrow> (Inl (NoKeys e), v)
                | (Inr keys, v) \<Rightarrow>
                    (case parse_with_claims lib now keys iss token of
                       None \<Rightarrow> (Inl NotVerified, v)
                     | Some claims \<Rightarrow>
                         if \<not> audienceContains (map_of claims ''aud'') (oa_ResourceURI (vd_config v)) then (Inl WrongAudience, v)
                         else (Inr \<lparr>oc_subject = claim_string claims ''sub'', oc_scopes = parseScopes claims, oc_issuer = iss\<rparr>, v))))"

text \<open>The validator as the MCP server uses it in one request.\<close>

definition oauth_check :: "oauth_lib \<Rightarrow> network \<Rightarrow> int \<Rightarrow> validator \<Rightarrow> string \<Rightarrow> (string \<times> string list) option" where
  "oauth_check lib net now v token =
     (case fst (ValidateToken lib net now token v) of Inl _ \<Rightarrow> None | Inr c \<Rightarrow> Some (oc_subject c, oc_scopes c))"

subsection \<open>Documents\<close>

definition ChallengeHeader :: "oauth_config \<Rightarrow> string \<Rightarrow> string" where
  "ChallengeHeader c errCode =
     (let metadataURL = go_TrimSuffix (oa_ResourceURI c) ''/'' @ ''/.well-known/oauth-protected-resource'' in
      if errCode = [] then ''Bearer resource_metadata='' @ fmt_q metadataURL
      else ''Bearer resource_metadata='' @ fmt_q metadataURL @ '', error='' @ fmt_q errCode)"

definition ProtectedResourceMetadata :: "oauth_config \<Rightarrow> string + json" where
  "ProtectedResourceMetadata c =
     (if oa_ResourceURI c = [] then Inl ''oauth: protected resource metadata: ResourceURI must be set''
      else Inr (JObject (
        [(''resource'', JString (oa_ResourceURI c)),
         (''authorization_servers'', JArray (map JString (oa_AuthorizationServers c)))] @
        (if oa_ScopesSupported c = [] then [] else [(''scopes_supported'', JArray (map JString (oa_ScopesSupported c)))]) @
        [(''bearer_methods_supported'', JArray [JString ''header''])])))"

text \<open>The validator after a sequence of validations, each with the network as it was then, the time and the token.\<close>

type_synonym validation = "network \<times> int \<times> string"

fun validate_all :: "oauth_lib \<Rightarrow> validation list \<Rightarrow> validator \<Rightarrow> validator" where
  "validate_all lib [] v = v"
| "validate_all lib ((net, now, token) # hs) v = validate_all lib hs (snd (ValidateToken lib net now token v))"

section \<open>Lemmas\<close>

text \<open>The keys that an issuer published at a time: what its metadata pointed to, over https.\<close>

definition published :: "network \<Rightarrow> string \<Rightarrow> jwks \<Rightarrow> bool" where
  "published net issuer keys \<longleftrightarrow>
     (\<exists>uri. discoverJWKSURI net issuer = Inr uri \<and> go_HasPrefix uri ''https://'' \<and> fetchJWKSKeys net uri = Inr keys)"

definition cache_published ::
  "(network \<Rightarrow> string \<Rightarrow> jwks \<Rightarrow> bool) \<Rightarrow> (network \<times> int) set \<Rightarrow> (string \<rightharpoonup> jwks \<times> int) \<Rightarrow> bool" where
  "cache_published pub H c \<longleftrightarrow>
     (\<forall>issuer keys t. c issuer = Some (keys, t) \<longrightarrow> (\<exists>net. (net, t) \<in> H \<and> pub net issuer keys))"

lemma cache_published_mono: "cache_published pub H c \<Longrightarrow> H \<subseteq> H' \<Longrightarrow> cache_published pub H' c"
  unfolding cache_published_def by blast

text \<open>
  What a cache of signing keys promises: a look for the keys of an issuer leaves the cache alone and gives an error or keys
  that are young enough, or it stores the keys that the issuer publishes now.
\<close>

locale key_cache =
  fixes pub :: "network \<Rightarrow> string \<Rightarrow> jwks \<Rightarrow> bool"
    and fetch :: "network \<Rightarrow> int \<Rightarrow> string \<Rightarrow> (string \<rightharpoonup> jwks \<times> int) \<Rightarrow> (string + jwks) \<times> (string \<rightharpoonup> jwks \<times> int)"
  assumes fetch_step: "fetch net now iss c = (r, c') \<Longrightarrow>
      c' = c \<and> (\<forall>keys. r = Inr keys \<longrightarrow> (\<exists>t. c (go_TrimSuffix iss ''/'') = Some (keys, t) \<and> now - t < jwksCacheTTL)) \<or>
      (\<exists>keys. r = Inr keys \<and> pub net (go_TrimSuffix iss ''/'') keys \<and> c' = c(go_TrimSuffix iss ''/'' \<mapsto> (keys, now)))"
begin

lemma fetch_published:
  assumes "fetch net now iss c = (r, c')" "cache_published pub H c"
  shows "cache_published pub (insert (net, now) H) c'"
  using fetch_step [OF assms(1)] assms(2) unfolding cache_published_def by (elim disjE exE conjE) (simp, metis)+

lemma fetch_trusted:
  assumes "fetch net now iss c = (Inr keys, c')" "cache_published pub H c"
  shows "\<exists>net' t. (net', t) \<in> insert (net, now) H \<and> now - t < jwksCacheTTL \<and> pub net' (go_TrimSuffix iss ''/'') keys"
proof -
  have "0 < jwksCacheTTL" by (simp add: jwksCacheTTL_def)
  with fetch_step [OF assms(1)] assms(2) show ?thesis unfolding cache_published_def by fastforce
qed

end

lemma refresh_keys_cases:
  assumes "refresh_keys net now issuer v = (r, v')"
  shows "v' = v \<and> (\<exists>e. r = Inl e) \<or>
    (\<exists>keys. r = Inr keys \<and> published net issuer keys \<and> v' = v\<lparr>vd_cache := (vd_cache v)(issuer \<mapsto> (keys, now))\<rparr>)"
proof (cases "discoverJWKSURI net issuer")
  case (Inr uri)
  show ?thesis
  proof (cases "go_HasPrefix uri ''https://''")
    case True
    show ?thesis
    proof (cases "fetchJWKSKeys net uri")
      case (Inl e)
      then have "r = Inl e" "v' = v" using assms Inr True by (simp_all add: refresh_keys_def)
      then show ?thesis by blast
    next
      case (Inr keys)
      then have "r = Inr keys" "v' = v\<lparr>vd_cache := (vd_cache v)(issuer \<mapsto> (keys, now))\<rparr>" "published net issuer keys"
        using assms True \<open>discoverJWKSURI net issuer = Inr uri\<close> by (simp_all add: refresh_keys_def published_def)
      then show ?thesis by blast
    qed
  qed (use assms Inr in \<open>auto simp: refresh_keys_def\<close>)
qed (use assms in \<open>auto simp: refresh_keys_def\<close>)

lemma fetchJWKS_cases:
  assumes "fetchJWKS net now iss v = (r, v')"
  obtains (rejected) e where "r = Inl e" "v' = v"
  | (cached) keys t where "r = Inr keys" "v' = v" "vd_cache v (go_TrimSuffix iss ''/'') = Some (keys, t)" "now - t < jwksCacheTTL"
  | (fetched) keys where "r = Inr keys" "published net (go_TrimSuffix iss ''/'') keys"
      "v' = v\<lparr>vd_cache := (vd_cache v)(go_TrimSuffix iss ''/'' \<mapsto> (keys, now))\<rparr>"
  using assms by (auto simp: fetchJWKS_def Let_def split: if_splits option.splits dest!: refresh_keys_cases)

lemma fetchJWKS_config: "fetchJWKS net now iss v = (r, v') \<Longrightarrow> vd_config v' = vd_config v"
  by (erule fetchJWKS_cases) simp_all

text \<open>The cache of a validator, whatever its configuration.\<close>

definition validator_fetch ::
  "oauth_config \<Rightarrow> network \<Rightarrow> int \<Rightarrow> string \<Rightarrow> (string \<rightharpoonup> jwks \<times> int) \<Rightarrow> (string + jwks) \<times> (string \<rightharpoonup> jwks \<times> int)" where
  "validator_fetch cfg net now iss c = map_prod id vd_cache (fetchJWKS net now iss \<lparr>vd_config = cfg, vd_cache = c\<rparr>)"

interpretation oauth_keys: key_cache published "validator_fetch cfg" for cfg
proof
  fix net now iss c r c'
  assume "validator_fetch cfg net now iss c = (r, c')"
  then obtain v' where f: "fetchJWKS net now iss \<lparr>vd_config = cfg, vd_cache = c\<rparr> = (r, v')" "c' = vd_cache v'"
    by (cases "fetchJWKS net now iss \<lparr>vd_config = cfg, vd_cache = c\<rparr>") (simp add: validator_fetch_def)
  from f(1) show "c' = c \<and> (\<forall>keys. r = Inr keys \<longrightarrow> (\<exists>t. c (go_TrimSuffix iss ''/'') = Some (keys, t) \<and> now - t < jwksCacheTTL)) \<or>
      (\<exists>keys. r = Inr keys \<and> published net (go_TrimSuffix iss ''/'') keys \<and> c' = c(go_TrimSuffix iss ''/'' \<mapsto> (keys, now)))"
    by (cases rule: fetchJWKS_cases) (auto simp: f(2))
qed

lemma fetchJWKS_validator:
  "fetchJWKS net now iss v = (r, v') \<Longrightarrow> validator_fetch (vd_config v) net now iss (vd_cache v) = (r, vd_cache v')"
  by (cases v) (simp add: validator_fetch_def)

lemma keyfunc_mem: "keyfunc keys tk = Some k \<Longrightarrow> k \<in> snd ` set keys"
  by (cases keys) (auto simp: keyfunc_def split: if_splits dest: map_of_SomeD intro: rev_image_eqI)

text \<open>A validation ends before the keys are looked for, or leaves the validator as the look for the keys did.\<close>

lemma ValidateToken_validator:
  assumes "ValidateToken lib net now token v = (r, v')"
  shows "v' = v \<or> (\<exists>iss q. fetchJWKS net now iss v = (q, v'))"
proof (cases "oj_parse lib token")
  case None
  then show ?thesis using assms by (simp add: ValidateToken_def)
next
  case (Some tk)
  let ?iss = "claim_string (pj_claims tk) ''iss''"
  obtain q w where f: "fetchJWKS net now ?iss v = (q, w)" by fastforce
  have "v' = v \<or> v' = w"
    using assms by (cases q) (auto simp: ValidateToken_def Some Let_def f split: if_splits option.splits)
  with f show ?thesis by blast
qed

lemma ValidateToken_published:
  assumes "cache_published published H (vd_cache v)"
  shows "cache_published published (insert (net, now) H) (vd_cache (snd (ValidateToken lib net now token v)))"
proof -
  obtain r v' where e: "ValidateToken lib net now token v = (r, v')" by fastforce
  from ValidateToken_validator [OF e] have "cache_published published (insert (net, now) H) (vd_cache v')"
    using assms oauth_keys.fetch_published [OF fetchJWKS_validator] cache_published_mono by blast
  with e show ?thesis by simp
qed

lemma ValidateToken_config [simp]: "vd_config (snd (ValidateToken lib net now token v)) = vd_config v"
proof -
  obtain r v' where e: "ValidateToken lib net now token v = (r, v')" by fastforce
  from ValidateToken_validator [OF e] have "vd_config v' = vd_config v" using fetchJWKS_config by blast
  with e show ?thesis by simp
qed

lemma validate_all_published:
  "cache_published published H (vd_cache v) \<Longrightarrow>
     cache_published published (H \<union> (\<lambda>(net, now, token). (net, now)) ` set hs) (vd_cache (validate_all lib hs v))"
proof (induction lib hs v arbitrary: H rule: validate_all.induct)
  case (2 lib net now token hs v)
  from "2.IH" [OF ValidateToken_published [OF "2.prems", where net = net and now = now and token = token and lib = lib]] show ?case by simp
qed simp

lemma validate_all_config [simp]: "vd_config (validate_all lib hs v) = vd_config v"
  by (induction lib hs v rule: validate_all.induct) simp_all

lemma parse_with_claims_SomeD:
  assumes "parse_with_claims lib now keys iss token = Some claims"
  obtains tk k where "oj_parse lib token = Some tk" "claims = pj_claims tk" "pj_alg tk \<in> set valid_methods"
    "k \<in> snd ` set keys" "oj_verify lib k (pj_alg tk) token" "oj_dates lib claims now" "claim_string claims ''iss'' = iss"
  using assms by (auto simp: parse_with_claims_def split: option.splits if_splits dest!: keyfunc_mem)

lemma ValidateToken_InrD:
  assumes "ValidateToken lib net now token v = (Inr c, v')"
  obtains keys claims where "issuerTrusted (vd_config v) (oc_issuer c)"
    "fetchJWKS net now (oc_issuer c) v = (Inr keys, v')" "parse_with_claims lib now keys (oc_issuer c) token = Some claims"
    "audienceContains (map_of claims ''aud'') (oa_ResourceURI (vd_config v'))"
    "oc_subject c = claim_string claims ''sub''" "oc_scopes c = parseScopes claims"
proof (cases "oj_parse lib token")
  case None
  then show ?thesis using assms by (simp add: ValidateToken_def)
next
  case (Some tk)
  let ?iss = "claim_string (pj_claims tk) ''iss''"
  obtain q w where f: "fetchJWKS net now ?iss v = (q, w)" by fastforce
  have "issuerTrusted (vd_config v) ?iss" using assms by (auto simp: ValidateToken_def Some Let_def split: if_splits)
  moreover from this obtain keys where q: "q = Inr keys"
    using assms by (cases q) (auto simp: ValidateToken_def Some f)
  moreover from calculation obtain claims where "parse_with_claims lib now keys ?iss token = Some claims"
    using assms by (cases "parse_with_claims lib now keys ?iss token") (auto simp: ValidateToken_def Some f)
  ultimately show ?thesis
    using assms f by (intro that [of keys claims]) (auto simp: ValidateToken_def Some split: if_splits)
qed

text \<open>What makes a token acceptable at a time: it is a token of the issuer, signed with RSA under one of the keys, within its
  dates, and for this resource.\<close>

definition token_valid :: "oauth_lib \<Rightarrow> oauth_config \<Rightarrow> int \<Rightarrow> string \<Rightarrow> jwks \<Rightarrow> string \<Rightarrow> bool" where
  "token_valid lib cfg now issuer keys token \<longleftrightarrow>
     (case oj_parse lib token of
        None \<Rightarrow> False
      | Some tk \<Rightarrow>
          pj_alg tk \<in> set valid_methods \<and> list_ex (\<lambda>(kid, k). oj_verify lib k (pj_alg tk) token) keys \<and>
          oj_dates lib (pj_claims tk) now \<and> claim_string (pj_claims tk) ''iss'' = issuer \<and>
          audienceContains (map_of (pj_claims tk) ''aud'') (oa_ResourceURI cfg))"

lemma parse_with_claims_valid:
  assumes "parse_with_claims lib now keys iss token = Some claims" "audienceContains (map_of claims ''aud'') (oa_ResourceURI cfg)"
  shows "token_valid lib cfg now iss keys token"
  using assms(1)
proof (rule parse_with_claims_SomeD)
  fix tk k
  assume "oj_parse lib token = Some tk" "claims = pj_claims tk" "pj_alg tk \<in> set valid_methods"
    "k \<in> snd ` set keys" "oj_verify lib k (pj_alg tk) token" "oj_dates lib claims now" "claim_string claims ''iss'' = iss"
  with assms(2) show ?thesis by (fastforce simp: token_valid_def list_ex_iff)
qed

lemma issuerTrustedD:
  "issuerTrusted cfg iss \<Longrightarrow> go_HasPrefix iss ''https://'' \<and> (\<exists>a \<in> set (oa_AuthorizationServers cfg). go_TrimSuffix a ''/'' = go_TrimSuffix iss ''/'')"
  by (auto simp: issuerTrusted_def list_ex_iff split: if_splits)

section \<open>Properties\<close>

text \<open>C16: However many tokens a validator has seen and whatever the network answered, a token it accepts names a configured
  issuer over https, is signed with RSA under a key that this issuer itself published less than five minutes ago, is
  within its dates, and was issued for this gateway. A stale, foreign or plain-http key set is never used.\<close>

theorem oauth_accepts_only_trusted:
  assumes "NewValidator cfg = Inr v0"
    and "ValidateToken lib net now token (validate_all lib hist v0) = (Inr c, v')"
  shows "go_HasPrefix (oc_issuer c) ''https://'' \<and>
    (\<exists>a \<in> set (oa_AuthorizationServers cfg). go_TrimSuffix a ''/'' = go_TrimSuffix (oc_issuer c) ''/'') \<and>
    (\<exists>(net', t, tok) \<in> set (hist @ [(net, now, token)]). \<exists>keys. now - t < jwksCacheTTL \<and>
       published net' (go_TrimSuffix (oc_issuer c) ''/'') keys \<and> token_valid lib cfg now (oc_issuer c) keys token)"
proof -
  from assms(1) have v0: "vd_config v0 = cfg" "cache_published published {} (vd_cache v0)"
    by (auto simp: NewValidator_def cache_published_def split: if_splits)
  let ?H = "(\<lambda>(net, now, token). (net, now)) ` set hist"
  have H: "cache_published published ?H (vd_cache (validate_all lib hist v0))"
    using validate_all_published [OF v0(2), of hist lib] by simp
  obtain keys claims where tr: "issuerTrusted (vd_config (validate_all lib hist v0)) (oc_issuer c)"
    and f: "fetchJWKS net now (oc_issuer c) (validate_all lib hist v0) = (Inr keys, v')"
    and pc: "parse_with_claims lib now keys (oc_issuer c) token = Some claims"
    and a: "audienceContains (map_of claims ''aud'') (oa_ResourceURI (vd_config v'))"
    using assms(2) by (rule ValidateToken_InrD)
  have c': "vd_config v' = cfg" using fetchJWKS_config [OF f] v0(1) by simp
  from oauth_keys.fetch_trusted [OF fetchJWKS_validator [OF f] H] obtain net' t
    where n: "(net', t) \<in> insert (net, now) ?H" "now - t < jwksCacheTTL" "published net' (go_TrimSuffix (oc_issuer c) ''/'') keys" by blast
  from n(1) obtain tok where "(net', t, tok) \<in> set (hist @ [(net, now, token)])" by force
  with n(2,3) parse_with_claims_valid [OF pc] a c' issuerTrustedD [OF tr] v0(1) show ?thesis by fastforce
qed

definition idp_jwt :: parsed_jwt where
  "idp_jwt =
     \<lparr>pj_alg = ''RS256'', pj_kid = ''k1'',
         pj_claims = [(''iss'', JString ''https://idp''), (''aud'', JArray [JString ''https://gw'']), (''sub'', JString ''jo''),
                      (''scope'', JString ''shop_* list'')]\<rparr>"

definition idp_lib :: oauth_lib where
  "idp_lib =
     \<lparr>oj_parse = (\<lambda>t. if t = ''oa'' then Some idp_jwt else None),
      oj_verify = (\<lambda>k alg t. k = (7, 3)), oj_dates = (\<lambda>c t. True)\<rparr>"

definition idp_net :: network where
  "idp_net u =
     (if u = ''https://idp/.well-known/openid-configuration'' then Inr (200, Some (JObject [(''jwks_uri'', JString ''https://idp/keys'')]))
      else if u = ''https://idp/keys'' then Inr (200, Some (JObject [(''keys'', JArray [JObject [(''kty'', JString ''RSA''),
        (''kid'', JString ''k1''), (''n'', JString ''Bw''), (''e'', JString ''Aw'')]])]))
      else Inr (404, None))"

definition idp_config :: oauth_config where
  "idp_config = \<lparr>oa_Enabled = True, oa_ResourceURI = ''https://gw'', oa_AuthorizationServers = [''https://idp/''], oa_ScopesSupported = []\<rparr>"

definition idp_down :: network where
  "idp_down u = Inl ''connection refused''"

text \<open>The keys are fetched with a first token; a minute later the issuer is down, and they still serve.\<close>

lemma idp_uri: "discoverJWKSURI idp_net ''https://idp'' = Inr ''https://idp/keys''" by code_simp

lemma idp_fields: "go_HasPrefix ''https://idp/keys'' ''https://''" "keys_field [(''keys'', JArray js)] = Some js"
  by code_simp+

lemma idp_decode:
  "decode_jwk (JObject [(''kty'', JString ''RSA''), (''kid'', JString ''k1''), (''n'', JString ''Bw''), (''e'', JString ''Aw'')]) =
     Inr (Some (''k1'', 7, 3))"
  by code_simp

lemma idp_fetch: "fetchJWKSKeys idp_net ''https://idp/keys'' = Inr [(''k1'', 7, 3)]"
  by (simp add: fetchJWKSKeys_def idp_net_def idp_fields(2) idp_decode)

lemma idp_strings:
  "go_TrimSuffix ''https://idp'' ''/'' = ''https://idp''" "go_HasPrefix ''https://idp'' ''https://''"
  "issuerTrusted idp_config ''https://idp''" "claim_string (pj_claims idp_jwt) ''iss'' = ''https://idp''"
  "audienceContains (map_of (pj_claims idp_jwt) ''aud'') ''https://gw''" "claim_string (pj_claims idp_jwt) ''sub'' = ''jo''"
  "parseScopes (pj_claims idp_jwt) = [''shop_*'', ''list'']" "pj_alg idp_jwt = ''RS256''" "''RS256'' \<in> set valid_methods"
  "keyfunc [(''k1'', 7, 3)] idp_jwt = Some (7, 3)"
  by code_simp+

abbreviation jo_claims :: oauth_claims where
  "jo_claims \<equiv> \<lparr>oc_subject = ''jo'', oc_scopes = [''shop_*'', ''list''], oc_issuer = ''https://idp''\<rparr>"

lemma idp_accepts:
  assumes "fetchJWKS net now ''https://idp'' v = (Inr [(''k1'', 7, 3)], v')" "vd_config v = idp_config" "vd_config v' = idp_config"
  shows "ValidateToken idp_lib net now ''oa'' v = (Inr jo_claims, v')"
proof -
  have lib: "oj_parse idp_lib ''oa'' = Some idp_jwt" "oj_verify idp_lib (7, 3) alg tok" "oj_dates idp_lib cs now" for alg tok cs
    by (simp_all add: idp_lib_def)
  have "oa_ResourceURI idp_config = ''https://gw''" by (simp add: idp_config_def)
  with assms show ?thesis by (simp add: ValidateToken_def lib parse_with_claims_def idp_strings)
qed

abbreviation idp_start :: validator where
  "idp_start \<equiv> \<lparr>vd_config = idp_config, vd_cache = Map.empty\<rparr>"

lemma idp_first: "snd (ValidateToken idp_lib idp_net 0 ''oa'' idp_start) = idp_start\<lparr>vd_cache := [''https://idp'' \<mapsto> ([(''k1'', 7, 3)], 0)]\<rparr>"
proof -
  have "fetchJWKS idp_net 0 ''https://idp'' idp_start =
      (Inr [(''k1'', 7, 3)], idp_start\<lparr>vd_cache := [''https://idp'' \<mapsto> ([(''k1'', 7, 3)], 0)]\<rparr>)"
    by (simp add: fetchJWKS_def refresh_keys_def idp_strings idp_uri idp_fetch idp_fields)
  then show ?thesis by (simp add: idp_accepts)
qed

lemma idp_second:
  "ValidateToken idp_lib idp_down (60 * 10 ^ 9) ''oa'' (validate_all idp_lib [(idp_net, 0, ''oa'')] idp_start) =
     (Inr jo_claims, idp_start\<lparr>vd_cache := [''https://idp'' \<mapsto> ([(''k1'', 7, 3)], 0)]\<rparr>)"
proof -
  have "fetchJWKS idp_down (60 * 10 ^ 9) ''https://idp'' (validate_all idp_lib [(idp_net, 0, ''oa'')] idp_start) =
      (Inr [(''k1'', 7, 3)], idp_start\<lparr>vd_cache := [''https://idp'' \<mapsto> ([(''k1'', 7, 3)], 0)]\<rparr>)"
    by (simp add: fetchJWKS_def idp_strings idp_first jwksCacheTTL_def)
  then show ?thesis by (rule idp_accepts) simp_all
qed

theorem oauth_accepts_only_trusted_witness:
  "\<exists>(net', t, tok) \<in> set ([(idp_net, 0, ''oa'')] @ [(idp_down, 60 * 10 ^ 9, ''oa'')]). \<exists>keys. 60 * 10 ^ 9 - t < jwksCacheTTL \<and>
     published net' ''https://idp'' keys \<and> token_valid idp_lib idp_config (60 * 10 ^ 9) ''https://idp'' keys ''oa''"
proof -
  have "NewValidator idp_config = Inr idp_start" by (simp add: NewValidator_def idp_config_def)
  from oauth_accepts_only_trusted [OF this idp_second] show ?thesis by (simp only: idp_strings oauth_claims.simps)
qed

end
