(* ===== verification/Gateway_PgVault.thy ===== *)
theory Gateway_PgVault
  imports Gateway_Vault Gateway_Base64 Gateway_Store
begin

text \<open>
  The secrets vault in the database, \<^verbatim>\<open>pkg/vault/postgres.go\<close>, and the choice of a vault, \<^verbatim>\<open>InitVault\<close>: a table of names
  and ciphertexts that all replicas of the gateway share. A statement fails or takes effect as a whole; the order in
  which the database sorts names is a parameter.
\<close>

section \<open>Definitions\<close>

type_synonym pg_table = "(string \<times> string) list"

definition pg_encrypt :: "vault_lib \<Rightarrow> string \<Rightarrow> string \<Rightarrow> string" where
  "pg_encrypt lib nonce plaintext = EncodeToString StdEncoding (nonce @ aead_seal lib nonce plaintext)"

definition pg_decrypt :: "vault_lib \<Rightarrow> string \<Rightarrow> string + string" where
  "pg_decrypt lib encoded =
     (case DecodeString StdEncoding encoded of
        None \<Rightarrow> Inl ''illegal base64 data''
      | Some data \<Rightarrow>
          if length data < nonce_size lib then Inl ''ciphertext too short''
          else (case aead_open lib (take (nonce_size lib) data) (drop (nonce_size lib) data) of
                  None \<Rightarrow> Inl ''decryption failed (wrong key?)''
                | Some plain \<Rightarrow> Inr plain))"

definition pg_GetSecret :: "vault_lib \<Rightarrow> fault \<Rightarrow> string \<Rightarrow> pg_table \<Rightarrow> string + string" where
  "pg_GetSecret lib f name t =
     (case f of
        Some e \<Rightarrow> Inl e
      | None \<Rightarrow>
          (case map_of t name of
             None \<Rightarrow> Inl (''secret '' @ name @ '' not found in vault'')
           | Some ct \<Rightarrow> pg_decrypt lib ct))"

definition pg_SetSecret ::
  "vault_lib \<Rightarrow> string \<Rightarrow> fault \<Rightarrow> string \<Rightarrow> string \<Rightarrow> pg_table \<Rightarrow> (string + unit) \<times> pg_table" where
  "pg_SetSecret lib nonce f name value t =
     (case f of
        Some e \<Rightarrow> (Inl e, t)
      | None \<Rightarrow> (Inr (), AList.update name (pg_encrypt lib nonce value) t))"

definition pg_ListSecrets :: "(string list \<Rightarrow> string list) \<Rightarrow> fault \<Rightarrow> pg_table \<Rightarrow> string + string list" where
  "pg_ListSecrets order_by f t = (case f of Some e \<Rightarrow> Inl e | None \<Rightarrow> Inr (order_by (map fst t)))"

definition pg_DeleteSecret :: "fault \<Rightarrow> string \<Rightarrow> pg_table \<Rightarrow> (string + unit) \<times> pg_table" where
  "pg_DeleteSecret f name t = (case f of Some e \<Rightarrow> (Inl e, t) | None \<Rightarrow> (Inr (), AList.delete name t))"

text \<open>The table is created if it does not exist; an existing one is kept.\<close>

definition NewPostgresVault :: "fault \<Rightarrow> pg_table option \<Rightarrow> string \<Rightarrow> string + pg_table" where
  "NewPostgresVault f existing encKey =
     (if length encKey < 16 then Inl ''vault encryption key too weak (need >= 16 bytes)''
      else case f of
             Some e \<Rightarrow> Inl (''failed to init vault schema: '' @ e)
           | None \<Rightarrow> Inr (case existing of None \<Rightarrow> [] | Some t \<Rightarrow> t))"

datatype vault_handle = LocalVault local_vault | PostgresVault pg_table

text \<open>\<^verbatim>\<open>InitVault\<close>: the key decides the cipher (\<open>lib\<close>); \<open>file\<close> is what the path of the local vault holds.\<close>

definition InitVault ::
  "(string \<Rightarrow> vault_lib) \<Rightarrow> string \<Rightarrow> write_outcome \<Rightarrow> string option \<Rightarrow> fault \<Rightarrow> pg_table option \<Rightarrow> string \<Rightarrow> string \<Rightarrow>
     string + vault_handle" where
  "InitVault lib nonce w file f existing provider encKey =
     (if provider = ''local'' then map_sum id LocalVault (NewLocalVault (lib encKey) encKey nonce w file)
      else if provider = ''postgres'' then map_sum id PostgresVault (NewPostgresVault f existing encKey)
      else if provider \<in> set [''aws'', ''gcp'', ''azure''] then Inl (''vault provider not implemented: '' @ quote # provider @ quote # '' (use 'local'/'postgres' or implement this provider)'')
      else Inl (''unknown vault provider: '' @ provider))"

text \<open>The changes that replicas make, each through its own connection, in the order in which the database does them.\<close>

datatype pg_change = PgSet (nonce_of: string) fault string string | PgDelete fault string

fun pg_step :: "vault_lib \<Rightarrow> pg_change \<Rightarrow> pg_table \<Rightarrow> pg_table" where
  "pg_step lib (PgSet nonce f name v) t = snd (pg_SetSecret lib nonce f name v t)"
| "pg_step lib (PgDelete f name) t = snd (pg_DeleteSecret f name t)"

text \<open>The vault as its users see it: a map, which a failed change leaves as it is.\<close>

fun map_step :: "pg_change \<Rightarrow> (string \<rightharpoonup> string) \<Rightarrow> (string \<rightharpoonup> string)" where
  "map_step (PgSet nonce f name v) m = (if f = None then m(name \<mapsto> v) else m)"
| "map_step (PgDelete f name) m = (if f = None then m(name := None) else m)"

definition change_ok :: "vault_lib \<Rightarrow> pg_change \<Rightarrow> bool" where
  "change_ok lib c \<longleftrightarrow> (case c of PgSet nonce _ _ _ \<Rightarrow> length nonce = nonce_size lib | PgDelete _ _ \<Rightarrow> True)"

section \<open>Lemmas\<close>

lemma pg_decrypt_encrypt:
  "vault_lib_ok lib \<Longrightarrow> length nonce = nonce_size lib \<Longrightarrow> pg_decrypt lib (pg_encrypt lib nonce p) = Inr p"
  by (simp add: pg_decrypt_def pg_encrypt_def DecodeString_EncodeToString vault_lib_ok_def)

definition pg_rep :: "vault_lib \<Rightarrow> pg_table \<Rightarrow> (string \<rightharpoonup> string) \<Rightarrow> bool" where
  "pg_rep lib t m \<longleftrightarrow> distinct (map fst t) \<and> (\<forall>k. map_option (pg_decrypt lib) (map_of t k) = map_option Inr (m k))"

lemma pg_rep_step:
  assumes "vault_lib_ok lib" "change_ok lib c" "pg_rep lib t m"
  shows "pg_rep lib (pg_step lib c t) (map_step c m)"
proof (cases c)
  case (PgSet nonce f name v)
  then show ?thesis
    using assms pg_decrypt_encrypt [OF assms(1), of nonce v]
    by (cases f) (simp_all add: pg_rep_def pg_SetSecret_def change_ok_def update_conv distinct_update)
next
  case (PgDelete f name)
  then show ?thesis
    using assms(3) by (cases f) (simp_all add: pg_rep_def pg_DeleteSecret_def delete_conv distinct_delete)
qed

lemma pg_rep_fold:
  "vault_lib_ok lib \<Longrightarrow> list_all (change_ok lib) cs \<Longrightarrow> pg_rep lib t m \<Longrightarrow> pg_rep lib (fold (pg_step lib) cs t) (fold map_step cs m)"
  by (induction cs arbitrary: t m) (auto simp: pg_rep_step)

lemma pg_rep_get:
  assumes "pg_rep lib t m"
  shows "pg_GetSecret lib None k t = (case m k of None \<Rightarrow> Inl (''secret '' @ k @ '' not found in vault'') | Some v \<Rightarrow> Inr v)"
proof -
  have "map_option (pg_decrypt lib) (map_of t k) = map_option Inr (m k)" using assms by (simp add: pg_rep_def)
  then show ?thesis by (cases "map_of t k"; cases "m k") (simp_all add: pg_GetSecret_def)
qed

lemma pg_rep_keys: "pg_rep lib t m \<Longrightarrow> set (map fst t) = dom m"
  unfolding pg_rep_def set_map dom_map_of_conv_image_fst [symmetric] dom_def by (metis (no_types, lifting) map_option_is_None)

section \<open>Properties\<close>

text \<open>C23: The vault in the database behaves as one map that all replicas share: after any sequence of changes, failed ones
  included, every replica - also one that starts later on the table - reads exactly the value stored last, gets an error
  for a name that was never stored or was deleted, and lists each name once.\<close>

theorem pg_vault_refines_map:
  assumes "vault_lib_ok lib" "list_all (change_ok lib) cs" "\<And>xs. mset (order_by xs) = mset xs"
    and "NewPostgresVault None (Some (fold (pg_step lib) cs [])) encKey = Inr t"
  shows "(\<forall>k. pg_GetSecret lib None k t =
      (case fold map_step cs Map.empty k of None \<Rightarrow> Inl (''secret '' @ k @ '' not found in vault'') | Some v \<Rightarrow> Inr v)) \<and>
    (\<exists>names. pg_ListSecrets order_by None t = Inr names \<and> distinct names \<and> set names = dom (fold map_step cs Map.empty))"
proof -
  have t: "t = fold (pg_step lib) cs []" using assms(4) by (simp add: NewPostgresVault_def split: if_splits)
  have r: "pg_rep lib t (fold map_step cs Map.empty)"
    unfolding t by (rule pg_rep_fold [OF assms(1,2)]) (simp add: pg_rep_def)
  have o: "set (order_by xs) = set xs" "distinct (order_by xs) \<longleftrightarrow> distinct xs" for xs
    using assms(3) [of xs] by (auto dest: mset_eq_setD mset_eq_imp_distinct_iff)
  have "distinct (map fst t)" using r by (simp add: pg_rep_def)
  then show ?thesis using pg_rep_get [OF r] pg_rep_keys [OF r] by (simp add: pg_ListSecrets_def o)
qed

definition sample_changes :: "pg_change list" where
  "sample_changes =
     [PgSet [] None ''a'' ''1'', PgSet [] None ''b'' ''2'', PgSet [] (Some ''down'') ''a'' ''9'', PgDelete None ''b'']"

theorem pg_vault_refines_map_witness:
  "pg_GetSecret plain_lib None ''a'' (fold (pg_step plain_lib) sample_changes []) = Inr ''1'' \<and>
   pg_GetSecret plain_lib None ''b'' (fold (pg_step plain_lib) sample_changes []) = Inl ''secret b not found in vault''"
proof -
  let ?t = "fold (pg_step plain_lib) sample_changes []"
  have "list_all (change_ok plain_lib) sample_changes"
    by (simp add: sample_changes_def change_ok_def plain_lib_def)
  moreover have "NewPostgresVault None (Some ?t) (replicate 16 (CHR ''k'')) = Inr ?t" by (simp add: NewPostgresVault_def)
  ultimately have "\<forall>k. pg_GetSecret plain_lib None k ?t =
      (case fold map_step sample_changes Map.empty k of None \<Rightarrow> Inl (''secret '' @ k @ '' not found in vault'') | Some v \<Rightarrow> Inr v)"
    using pg_vault_refines_map [OF plain_lib_ok, of sample_changes id "replicate 16 (CHR ''k'')" ?t] by simp
  then show ?thesis by (simp add: sample_changes_def)
qed

end
