(* ===== verification/Gateway_Config.thy ===== *)
theory Gateway_Config
  imports Gateway_OAuth Gateway_Limiter Gateway_PgVault
begin

text \<open>
  Start-up of the gateway: the configuration that \<^verbatim>\<open>pkg/config\<close> reads from the environment and refuses when a secret is
  missing or weak, the way \<^verbatim>\<open>main.go\<close> puts the components together from it, and what \<^verbatim>\<open>main.go\<close> itself does with a
  request of an agent: the choice of the transport and the query string that it logs.
\<close>

section \<open>Definitions\<close>

subsection \<open>Values of environment variables\<close>

type_synonym environ = "string \<rightharpoonup> string"

text \<open>\<^verbatim>\<open>os.Getenv\<close>\<close>

definition Getenv :: "environ \<Rightarrow> string \<Rightarrow> string" where
  "Getenv en key = (case en key of Some v \<Rightarrow> v | None \<Rightarrow> [])"

definition getEnv :: "environ \<Rightarrow> string \<Rightarrow> string \<Rightarrow> string" where
  "getEnv en key defaultVal = (case en key of Some v \<Rightarrow> v | None \<Rightarrow> defaultVal)"

definition getBool :: "environ \<Rightarrow> string \<Rightarrow> bool \<Rightarrow> bool" where
  "getBool en key defaultVal =
     (case en key of
        None \<Rightarrow> defaultVal
      | Some v \<Rightarrow> js_toLowerCase (go_TrimSpace v) \<in> set [''1'', ''true'', ''yes'', ''on''])"

text \<open>\<^verbatim>\<open>strconv.Atoi\<close>, with a 64-bit \<^verbatim>\<open>int\<close>.\<close>

fun decimal :: "int \<Rightarrow> string \<Rightarrow> int option" where
  "decimal n [] = Some n"
| "decimal n (c # s) = (if is_digit_char c then decimal (n * 10 + int (digit_value c)) s else None)"

definition strip_sign :: "string \<Rightarrow> bool \<times> string" where
  "strip_sign s =
     (case s of c # t \<Rightarrow> if c = CHR ''-'' then (True, t) else if c = CHR ''+'' then (False, t) else (False, s) | [] \<Rightarrow> (False, []))"

definition Atoi :: "string \<Rightarrow> int option" where
  "Atoi s =
     (let (neg, t) = strip_sign s in
      if t = [] then None
      else case decimal 0 t of
             None \<Rightarrow> None
           | Some n \<Rightarrow> if neg then (if 2 ^ 63 < n then None else Some (- n)) else if 2 ^ 63 \<le> n then None else Some n)"

text \<open>\<^verbatim>\<open>time.ParseDuration\<close>, in nanoseconds: a sequence of decimal numbers with units. The sum is kept in 64 bits; a fraction is
  computed in double arithmetic.\<close>

fun leadingInt :: "string \<Rightarrow> int \<Rightarrow> (int \<times> string) option" where
  "leadingInt [] x = Some (x, [])"
| "leadingInt (c # s) x =
     (if \<not> is_digit_char c then Some (x, c # s)
      else if 2 ^ 63 div 10 < x then None
      else if 2 ^ 63 < x * 10 + int (digit_value c) then None
      else leadingInt s (x * 10 + int (digit_value c)))"

fun leadingFraction :: "string \<Rightarrow> int \<Rightarrow> rat \<Rightarrow> bool \<Rightarrow> int \<times> rat \<times> string" where
  "leadingFraction [] x scale overflow = (x, scale, [])"
| "leadingFraction (c # s) x scale overflow =
     (if \<not> is_digit_char c then (x, scale, c # s)
      else if overflow \<or> (2 ^ 63 - 1) div 10 < x \<or> 2 ^ 63 < x * 10 + int (digit_value c) then leadingFraction s x scale True
      else leadingFraction s (x * 10 + int (digit_value c)) (js_mul scale 10) False)"

definition unitMap :: "(string \<times> int) list" where
  "unitMap =
     [(''ns'', 1), (''us'', 1000), ([char_of (0xC2 :: nat), char_of (0xB5 :: nat), CHR ''s''], 1000),
      ([char_of (0xCE :: nat), char_of (0xBC :: nat), CHR ''s''], 1000),
      (''ms'', 1000000), (''s'', 1000000000), (''m'', 60000000000), (''h'', 3600000000000)]"

definition number_char :: "char \<Rightarrow> bool" where
  "number_char c \<longleftrightarrow> c = CHR ''.'' \<or> is_digit_char c"

text \<open>One number with its unit: its value and the rest of the text.\<close>

definition fraction_part :: "string \<Rightarrow> int \<times> rat \<times> string" where
  "fraction_part s = (case s of c # t \<Rightarrow> if c = CHR ''.'' then leadingFraction t 0 1 False else (0, 1, s) | [] \<Rightarrow> (0, 1, []))"

definition duration_term :: "string \<Rightarrow> (int \<times> string) option" where
  "duration_term s =
     (if s = [] \<or> \<not> number_char (hd s) then None
      else case leadingInt s 0 of
        None \<Rightarrow> None
      | Some (v, s1) \<Rightarrow>
          (let (f, scale, s2) = fraction_part s1;
               pre = (length s \<noteq> length s1);
               post = (s1 \<noteq> [] \<and> hd s1 = CHR ''.'' \<and> length s1 - 1 \<noteq> length s2);
               u = takeWhile (\<lambda>c. \<not> number_char c) s2
           in if \<not> pre \<and> \<not> post then None
              else if u = [] then None
              else case map_of unitMap u of
                None \<Rightarrow> None
              | Some unit \<Rightarrow>
                  if 2 ^ 63 div unit < v then None
                  else let v2 = v * unit + (if 0 < f then \<lfloor>js_mul (fl (of_int f)) (js_div (of_int unit) scale)\<rfloor> else 0) in
                       if 2 ^ 63 < v2 then None else Some (v2, dropWhile (\<lambda>c. \<not> number_char c) s2)))"

lemma leadingInt_length: "leadingInt s x = Some (v, t) \<Longrightarrow> length t \<le> length s"
  by (induction s x rule: leadingInt.induct) (auto split: if_splits)

lemma leadingFraction_length: "leadingFraction s x sc ov = (f, scale, t) \<Longrightarrow> length t \<le> length s"
  by (induction s x sc ov rule: leadingFraction.induct) (auto split: if_splits)

lemma fraction_part_length: "fraction_part s = (f, scale, t) \<Longrightarrow> length t \<le> length s"
  by (auto simp: fraction_part_def split: list.splits if_splits dest: leadingFraction_length)

lemma duration_term_shorter:
  assumes "duration_term s = Some (v, t)"
  shows "length t < length s"
proof -
  obtain n s1 where i: "leadingInt s 0 = Some (n, s1)"
    using assms by (auto simp: duration_term_def split: option.splits if_splits)
  obtain f scale s2 where p: "fraction_part s1 = (f, scale, s2)" by (metis prod_cases3)
  have u: "takeWhile (\<lambda>c. \<not> number_char c) s2 \<noteq> []" and t: "t = dropWhile (\<lambda>c. \<not> number_char c) s2"
    using assms by (auto simp: duration_term_def i p Let_def split: option.splits if_splits)
  have "length (takeWhile (\<lambda>c. \<not> number_char c) s2) + length t = length s2"
    unfolding t by (metis length_append takeWhile_dropWhile_id)
  with u leadingInt_length [OF i] fraction_part_length [OF p] show ?thesis by (cases "takeWhile (\<lambda>c. \<not> number_char c) s2") auto
qed

function duration_sum :: "int \<Rightarrow> string \<Rightarrow> int option" where
  "duration_sum d s =
     (if s = [] then Some d
      else case duration_term s of
             None \<Rightarrow> None
           | Some (v, t) \<Rightarrow> if 2 ^ 63 < (d + v) mod 2 ^ 64 then None else duration_sum ((d + v) mod 2 ^ 64) t)"
  by pat_completeness auto
termination by (relation "measure (\<lambda>(d, s). length s)") (auto dest: duration_term_shorter)

declare duration_sum.simps [simp del]

definition ParseDuration :: "string \<Rightarrow> int option" where
  "ParseDuration s =
     (let (neg, t) = strip_sign s in
      if t = ''0'' then Some 0
      else if t = [] then None
      else case duration_sum 0 t of
             None \<Rightarrow> None
           | Some d \<Rightarrow> if neg then Some (- d) else if 2 ^ 63 - 1 < d then None else Some d)"

definition getDuration :: "environ \<Rightarrow> string \<Rightarrow> int \<Rightarrow> int" where
  "getDuration en key defaultVal =
     (case en key of
        None \<Rightarrow> defaultVal
      | Some v \<Rightarrow> if go_TrimSpace v = [] then defaultVal else (case ParseDuration v of None \<Rightarrow> defaultVal | Some d \<Rightarrow> d))"

definition getInt :: "environ \<Rightarrow> string \<Rightarrow> int \<Rightarrow> int" where
  "getInt en key defaultVal =
     (case en key of
        None \<Rightarrow> defaultVal
      | Some v \<Rightarrow> if go_TrimSpace v = [] then defaultVal else (case Atoi (go_TrimSpace v) of None \<Rightarrow> defaultVal | Some n \<Rightarrow> n))"

definition splitList :: "string \<Rightarrow> string list" where
  "splitList v = (if go_TrimSpace v = [] then [] else filter (\<lambda>t. t \<noteq> []) (map go_TrimSpace (go_Split v (CHR '',''))))"

text \<open>\<^verbatim>\<open>envInt\<close> of the MCP server, which reads the limit of sessions.\<close>

definition envInt :: "environ \<Rightarrow> string \<Rightarrow> int \<Rightarrow> int" where
  "envInt en key dflt =
     (if Getenv en key \<noteq> [] then (case Atoi (Getenv en key) of Some n \<Rightarrow> if 0 < n then n else dflt | None \<Rightarrow> dflt) else dflt)"

subsection \<open>The configuration\<close>

record full_config = config +
  cfg_DatabasePath :: string
  cfg_VaultLocalPath :: string
  cfg_VaultEncryptionKey :: string
  cfg_JWTSecret :: string
  cfg_OIDCClientID :: string
  cfg_OIDCClientSecret :: string
  cfg_OIDCDefaultRole :: string
  cfg_GatewayToken :: string
  cfg_TLSKeyPath :: string
  cfg_PublicBaseURL :: string
  cfg_SeedDemoData :: bool
  cfg_EgressAllowlist :: "string list"
  cfg_EgressAllowPrivate :: bool
  cfg_CORSAllowedOrigins :: "string list"
  cfg_ConfigCacheTTL :: int
  cfg_SecretCacheTTL :: int
  cfg_ResponseCacheTTL :: int
  cfg_DBMaxOpenConns :: int
  cfg_DBMaxIdleConns :: int
  cfg_DownstreamRetries :: int
  cfg_OAuthEnabled :: bool
  cfg_OAuthResourceURI :: string
  cfg_OAuthAuthorizationServers :: "string list"
  cfg_OAuthScopesSupported :: "string list"
  cfg_RedactionEnabled :: bool
  cfg_ToolPinningStrict :: bool

definition minSecretLen :: nat where
  "minSecretLen = 32"

text \<open>\<^verbatim>\<open>validate\<close>: the error, if there is one.\<close>

definition validate :: "full_config \<Rightarrow> string option" where
  "validate c =
     (if length (cfg_JWTSecret c) < minSecretLen
      then Some (''JWT_SECRET must be set and at least '' @ nat_to_string minSecretLen @ '' bytes (got '' @ nat_to_string (length (cfg_JWTSecret c)) @ '')'')
      else if length (cfg_GatewayToken c) < minSecretLen
      then Some (''GATEWAY_TOKEN must be set and at least '' @ nat_to_string minSecretLen @ '' bytes (got '' @ nat_to_string (length (cfg_GatewayToken c)) @ '')'')
      else if cfg_AdminPassword c \<noteq> [] \<and> length (cfg_AdminPassword c) < 12
      then Some ''ADMIN_PASSWORD, when set, must be at least 12 characters''
      else if cfg_VaultProvider c = ''postgres'' \<and> \<not> go_HasPrefix (cfg_DatabasePath c) ''postgres://''
      then Some ''VAULT_PROVIDER=postgres requires a Postgres database (DATABASE_URL must start with postgres://); got a non-Postgres DatabasePath''
      else if cfg_OAuthEnabled c \<and> cfg_OAuthResourceURI c = []
      then Some ''OAUTH_ENABLED=true requires OAUTH_RESOURCE_URI to be set''
      else if cfg_OAuthEnabled c \<and> cfg_OAuthAuthorizationServers c = []
      then Some ''OAUTH_ENABLED=true requires OAUTH_AUTHORIZATION_SERVERS to be set''
      else if cfg_MTLSMode c \<notin> set [[], ''off'', ''optional'', ''required'']
      then Some (''MTLS_MODE must be one of '' @ fmt_q ''off'' @ '', '' @ fmt_q ''optional'' @ '', '' @ fmt_q ''required'' @ '' (got '' @ fmt_q (cfg_MTLSMode c) @ '')'')
      else None)"

definition read_config :: "environ \<Rightarrow> full_config" where
  "read_config en =
     (let dbURL = getEnv en ''DATABASE_URL'' [];
          dbURL = (if dbURL = [] then getEnv en ''DATABASE_PATH'' ''./mcp-gateway.db'' else dbURL)
      in \<lparr>cfg_Port = getEnv en ''PORT'' ''8080'',
          cfg_VaultProvider = getEnv en ''VAULT_PROVIDER'' ''local'',
          cfg_OIDCIssuer = getEnv en ''OIDC_ISSUER'' [],
          cfg_TLSCertPath = getEnv en ''TLS_CERT_PATH'' [],
          cfg_TLSTerminatedAtProxy = getBool en ''TLS_TERMINATED_AT_PROXY'' False,
          cfg_ClientCAPath = getEnv en ''CLIENT_CA_PATH'' [],
          cfg_MTLSMode = getEnv en ''MTLS_MODE'' ''off'',
          cfg_AdminUsername = getEnv en ''ADMIN_USERNAME'' ''admin'',
          cfg_AdminPassword = Getenv en ''ADMIN_PASSWORD'',
          cfg_MetricsToken = Getenv en ''METRICS_TOKEN'',
          cfg_DatabasePath = dbURL,
          cfg_VaultLocalPath = getEnv en ''VAULT_LOCAL_PATH'' ''./secrets.json'',
          cfg_VaultEncryptionKey = Getenv en ''VAULT_ENCRYPTION_KEY'',
          cfg_JWTSecret = Getenv en ''JWT_SECRET'',
          cfg_OIDCClientID = getEnv en ''OIDC_CLIENT_ID'' [],
          cfg_OIDCClientSecret = Getenv en ''OIDC_CLIENT_SECRET'',
          cfg_OIDCDefaultRole = getEnv en ''OIDC_DEFAULT_ROLE'' ''viewer'',
          cfg_GatewayToken = Getenv en ''GATEWAY_TOKEN'',
          cfg_TLSKeyPath = getEnv en ''TLS_KEY_PATH'' [],
          cfg_PublicBaseURL = getEnv en ''PUBLIC_BASE_URL'' [],
          cfg_SeedDemoData = getBool en ''SEED_DEMO_DATA'' False,
          cfg_EgressAllowlist = splitList (Getenv en ''EGRESS_ALLOWLIST''),
          cfg_EgressAllowPrivate = getBool en ''EGRESS_ALLOW_PRIVATE'' False,
          cfg_CORSAllowedOrigins = splitList (Getenv en ''CORS_ALLOWED_ORIGINS''),
          cfg_ConfigCacheTTL = getDuration en ''CONFIG_CACHE_TTL'' (5 * 10 ^ 9),
          cfg_SecretCacheTTL = getDuration en ''SECRET_CACHE_TTL'' (30 * 10 ^ 9),
          cfg_ResponseCacheTTL = getDuration en ''RESPONSE_CACHE_TTL'' 0,
          cfg_DBMaxOpenConns = getInt en ''DB_MAX_OPEN_CONNS'' 10,
          cfg_DBMaxIdleConns = getInt en ''DB_MAX_IDLE_CONNS'' 10,
          cfg_DownstreamRetries = getInt en ''DOWNSTREAM_RETRIES'' 2,
          cfg_OAuthEnabled = getBool en ''OAUTH_ENABLED'' False,
          cfg_OAuthResourceURI = getEnv en ''OAUTH_RESOURCE_URI'' [],
          cfg_OAuthAuthorizationServers = splitList (Getenv en ''OAUTH_AUTHORIZATION_SERVERS''),
          cfg_OAuthScopesSupported = splitList (Getenv en ''OAUTH_SCOPES_SUPPORTED''),
          cfg_RedactionEnabled = getBool en ''REDACTION_ENABLED'' False,
          cfg_ToolPinningStrict = getBool en ''TOOL_PINNING_STRICT'' False\<rparr>)"

datatype warning = AdminByDefault | EgressUnrestricted | NoRedaction

definition warn :: "full_config \<Rightarrow> warning list" where
  "warn c =
     (if cfg_OIDCDefaultRole c = ''admin'' then [AdminByDefault] else []) @
     (if length (cfg_EgressAllowlist c) = 0 then [EgressUnrestricted] else []) @
     (if \<not> cfg_RedactionEnabled c then [NoRedaction] else [])"

text \<open>The configuration with the warnings that are logged, or the error.\<close>

definition LoadConfig :: "environ \<Rightarrow> string + full_config \<times> warning list" where
  "LoadConfig en =
     (let cfg = read_config en in
      case validate cfg of Some e \<Rightarrow> Inl e | None \<Rightarrow> Inr (cfg, warn cfg))"

subsection \<open>Start-up\<close>

definition NewAuthManager :: "string \<Rightarrow> string \<Rightarrow> auth_manager" where
  "NewAuthManager secret token = \<lparr>jwtSecret = secret, gatewayToken = token\<rparr>"

text \<open>What the process finds when it starts: the database at a path, the file of the local vault, the table of the other one,
  and the libraries.\<close>

record machine =
  mn_db_error :: "string \<Rightarrow> open_error option"
  mn_db_fk :: "string \<Rightarrow> bool"
  mn_db_file :: "string \<Rightarrow> db_file"
  mn_vault_lib :: "string \<Rightarrow> vault_lib"
  mn_nonce :: string
  mn_write :: write_outcome
  mn_file :: "string \<Rightarrow> string option"
  mn_schema :: fault
  mn_table :: "pg_table option"
  mn_regexp :: regexp_lib

datatype start_error =
    ConfigurationError string
  | DatabaseFailed open_error
  | VaultFailed string
  | OAuthFailed string
  | RedactionFailed string

record app =
  ap_config :: full_config
  ap_db :: db
  ap_vault :: vault_handle
  ap_client :: GatewayClient
  ap_auth :: auth_manager
  ap_maxSessions :: int
  ap_validator :: "validator option"
  ap_redactor :: "redactor option"

definition vault_key :: "full_config \<Rightarrow> string" where
  "vault_key cfg = (if cfg_VaultEncryptionKey cfg = [] then cfg_JWTSecret cfg else cfg_VaultEncryptionKey cfg)"

definition start_client :: "full_config \<Rightarrow> GatewayClient" where
  "start_client cfg =
     SetMaxRetries (cfg_DownstreamRetries cfg) (EnableResponseCache (cfg_ResponseCacheTTL cfg) (EnableSecretCache (cfg_SecretCacheTTL cfg)
       (NewGatewayClient \<lparr>Allowlist = cfg_EgressAllowlist cfg, AllowPrivate = cfg_EgressAllowPrivate cfg\<rparr>)))"

definition oauth_settings :: "full_config \<Rightarrow> oauth_config" where
  "oauth_settings cfg =
     \<lparr>oa_Enabled = True, oa_ResourceURI = cfg_OAuthResourceURI cfg, oa_AuthorizationServers = cfg_OAuthAuthorizationServers cfg,
      oa_ScopesSupported = cfg_OAuthScopesSupported cfg\<rparr>"

definition start_validator :: "full_config \<Rightarrow> string + validator option" where
  "start_validator cfg = (if cfg_OAuthEnabled cfg then map_sum id Some (NewValidator (oauth_settings cfg)) else Inr None)"

definition start_redactor :: "regexp_lib \<Rightarrow> full_config \<Rightarrow> string + redactor option" where
  "start_redactor lib cfg = (if cfg_RedactionEnabled cfg then map_sum id Some (New_Redactor lib True []) else Inr None)"

text \<open>\<^verbatim>\<open>main\<close>, up to the point where the server is ready to serve; an error ends the process.\<close>

definition start :: "machine \<Rightarrow> environ \<Rightarrow> start_error + app" where
  "start mn en =
     (case LoadConfig en of
        Inl e \<Rightarrow> Inl (ConfigurationError e)
      | Inr (cfg, ws) \<Rightarrow>
     (case NewDB (mn_db_error mn (cfg_DatabasePath cfg)) (mn_db_fk mn (cfg_DatabasePath cfg)) (mn_db_file mn (cfg_DatabasePath cfg)) of
        Inl e \<Rightarrow> Inl (DatabaseFailed e)
      | Inr d \<Rightarrow>
     (case InitVault (mn_vault_lib mn) (mn_nonce mn) (mn_write mn) (mn_file mn (cfg_VaultLocalPath cfg)) (mn_schema mn)
             (mn_table mn) (cfg_VaultProvider cfg) (vault_key cfg) of
        Inl e \<Rightarrow> Inl (VaultFailed e)
      | Inr vault \<Rightarrow>
     (case start_validator cfg of
        Inl e \<Rightarrow> Inl (OAuthFailed e)
      | Inr validator \<Rightarrow>
     (case start_redactor (mn_regexp mn) cfg of
        Inl e \<Rightarrow> Inl (RedactionFailed e)
      | Inr redactor \<Rightarrow>
          Inr \<lparr>ap_config = cfg, ap_db = EnableConfigCache (cfg_ConfigCacheTTL cfg) d, ap_vault = vault, ap_client = start_client cfg,
               ap_auth = NewAuthManager (cfg_JWTSecret cfg) (cfg_GatewayToken cfg), ap_maxSessions = envInt en ''MCP_MAX_SESSIONS'' 1000,
               ap_validator = validator, ap_redactor = redactor\<rparr>)))))"

text \<open>The settings of the MCP server during a request: the validator is asked about the token of that request.\<close>

definition mcp_settings :: "oauth_lib \<Rightarrow> network \<Rightarrow> int \<Rightarrow> app \<Rightarrow> mcp_config" where
  "mcp_settings lib net now ap =
     \<lparr>mc_auth = ap_auth ap, mc_corsOrigins = cfg_CORSAllowedOrigins (ap_config ap), mc_maxSessions = ap_maxSessions ap,
      mc_oauth = map_option (oauth_check lib net now) (ap_validator ap), mc_redactor = ap_redactor ap,
      mc_toolPinningStrict = cfg_ToolPinningStrict (ap_config ap)\<rparr>"

subsection \<open>Requests of agents\<close>

text \<open>The handlers that \<^verbatim>\<open>main\<close> registers for agents, by path and method.\<close>

definition sse_route :: "mcp_config \<Rightarrow> mcp_lib \<Rightarrow> mcp_outcome \<Rightarrow> bool \<Rightarrow> mcp_http \<Rightarrow> mcp_server \<Rightarrow> mcp_reply \<times> mcp_server" where
  "sse_route cfg lib oc flush r s =
     (if mh_method r = ''POST'' then ServeStreamable cfg lib oc r s
      else if mh_method r = ''DELETE'' then (text_reply 200 [] [], s)
      else ServeSSE cfg lib oc flush r s)"

definition mcp_route :: "mcp_config \<Rightarrow> mcp_lib \<Rightarrow> mcp_outcome \<Rightarrow> mcp_http \<Rightarrow> mcp_server \<Rightarrow> mcp_reply \<times> mcp_server" where
  "mcp_route cfg lib oc r s =
     (if mh_method r = ''DELETE'' then (text_reply 200 [] [], s) else ServeStreamable cfg lib oc r s)"

definition agent_mux :: "mcp_config \<Rightarrow> mcp_lib \<Rightarrow> mcp_outcome \<Rightarrow> bool \<Rightarrow> mcp_http \<Rightarrow> mcp_server \<Rightarrow> (mcp_reply \<times> mcp_server) option" where
  "agent_mux cfg lib oc flush r s =
     (if url_path (mh_url r) = Some ''/sse'' then Some (sse_route cfg lib oc flush r s)
      else if url_path (mh_url r) = Some ''/mcp'' then Some (mcp_route cfg lib oc r s)
      else if url_path (mh_url r) = Some ''/messages'' then Some (ServeMessages cfg lib oc r s)
      else None)"

text \<open>The query string that is logged with a request: values of names that look like credentials are replaced.\<close>

definition query_error :: "string \<Rightarrow> bool" where
  "query_error q \<longleftrightarrow> list_ex (\<lambda>p. p \<noteq> [] \<and> query_pair p = None) (js_split (CHR ''&'') q)"

definition sensitive_key :: "string \<Rightarrow> bool" where
  "sensitive_key key \<longleftrightarrow>
     list_ex (js_includes (js_toLowerCase key)) [''token'', ''session'', ''secret'', ''auth'', ''key'', ''password'']"

definition redactQuery :: "string \<Rightarrow> string" where
  "redactQuery rawQuery =
     (if rawQuery = [] then []
      else if query_error rawQuery then ''[unparseable query redacted]''
      else values_Encode (map (\<lambda>(key, vs). (key, if sensitive_key key then map (\<lambda>_. ''REDACTED'') vs else vs)) (URL_Query rawQuery)))"

section \<open>Lemmas\<close>

subsection \<open>Durations\<close>

lemma duration_sum_range: "duration_sum d s = Some n \<Longrightarrow> 0 \<le> d \<Longrightarrow> d \<le> 2 ^ 63 \<Longrightarrow> 0 \<le> n \<and> n \<le> 2 ^ 63"
proof (induction d s rule: duration_sum.induct)
  case (1 d s)
  show ?case
  proof (cases "s = []")
    case False
    with "1.prems"(1) obtain v t where t: "duration_term s = Some (v, t)" "\<not> 2 ^ 63 < (d + v) mod 2 ^ 64"
      "duration_sum ((d + v) mod 2 ^ 64) t = Some n"
      by (subst (asm) duration_sum.simps) (auto split: option.splits if_splits)
    with "1.IH" [OF False t(1) refl t(2,3)] show ?thesis by simp
  qed (use 1 in \<open>simp add: duration_sum.simps\<close>)
qed

lemma ParseDuration_range: "ParseDuration s = Some d \<Longrightarrow> - (2 ^ 63) \<le> d \<and> d < 2 ^ 63"
  by (auto simp: ParseDuration_def split: prod.splits if_splits option.splits dest!: duration_sum_range)

subsection \<open>Start-up\<close>

lemma guard_None: "(if b then Some x else y) = None \<longleftrightarrow> \<not> b \<and> y = None"
  by simp

lemma validate_None:
  assumes "validate c = None"
  shows "32 \<le> length (cfg_JWTSecret c)" "32 \<le> length (cfg_GatewayToken c)"
    "cfg_AdminPassword c = [] \<or> 12 \<le> length (cfg_AdminPassword c)"
    "cfg_VaultProvider c = ''postgres'' \<Longrightarrow> go_HasPrefix (cfg_DatabasePath c) ''postgres://''"
    "cfg_OAuthEnabled c \<Longrightarrow> cfg_OAuthResourceURI c \<noteq> [] \<and> cfg_OAuthAuthorizationServers c \<noteq> []"
    "cfg_MTLSMode c \<in> set [[], ''off'', ''optional'', ''required'']"
proof -
  have "\<not> length (cfg_JWTSecret c) < minSecretLen" "\<not> length (cfg_GatewayToken c) < minSecretLen"
    "\<not> (cfg_AdminPassword c \<noteq> [] \<and> length (cfg_AdminPassword c) < 12)"
    "\<not> (cfg_VaultProvider c = ''postgres'' \<and> \<not> go_HasPrefix (cfg_DatabasePath c) ''postgres://'')"
    "\<not> (cfg_OAuthEnabled c \<and> cfg_OAuthResourceURI c = [])" "\<not> (cfg_OAuthEnabled c \<and> cfg_OAuthAuthorizationServers c = [])"
    "\<not> cfg_MTLSMode c \<notin> set [[], ''off'', ''optional'', ''required'']"
    using assms unfolding validate_def guard_None by blast+
  then show "32 \<le> length (cfg_JWTSecret c)" "32 \<le> length (cfg_GatewayToken c)"
    "cfg_AdminPassword c = [] \<or> 12 \<le> length (cfg_AdminPassword c)"
    "cfg_VaultProvider c = ''postgres'' \<Longrightarrow> go_HasPrefix (cfg_DatabasePath c) ''postgres://''"
    "cfg_OAuthEnabled c \<Longrightarrow> cfg_OAuthResourceURI c \<noteq> [] \<and> cfg_OAuthAuthorizationServers c \<noteq> []"
    "cfg_MTLSMode c \<in> set [[], ''off'', ''optional'', ''required'']"
    by (auto simp: minSecretLen_def)
qed

lemma LoadConfig_InrD: "LoadConfig en = Inr (cfg, ws) \<Longrightarrow> cfg = read_config en \<and> validate cfg = None"
  by (auto simp: LoadConfig_def Let_def split: option.splits)

lemma start_validator_ok: "validate cfg = None \<Longrightarrow> \<exists>v. start_validator cfg = Inr v"
  using validate_None(5) [of cfg] by (auto simp: start_validator_def NewValidator_def oauth_settings_def)

lemma start_redactor_ok: "\<exists>r. start_redactor lib cfg = Inr r"
  by (simp add: start_redactor_def New_Redactor_def)

lemma InitVault_key: "InitVault lib nonce w file f existing provider encKey = Inr v \<Longrightarrow> 16 \<le> length encKey"
  by (auto simp: InitVault_def NewLocalVault_def NewPostgresVault_def split: if_splits)

lemma start_InrD:
  assumes "start mn en = Inr ap"
  obtains ws where "LoadConfig en = Inr (ap_config ap, ws)" "16 \<le> length (vault_key (ap_config ap))"
    "ap_client ap = start_client (ap_config ap)" "ap_auth ap = NewAuthManager (cfg_JWTSecret (ap_config ap)) (cfg_GatewayToken (ap_config ap))"
    "start_validator (ap_config ap) = Inr (ap_validator ap)" "start_redactor (mn_regexp mn) (ap_config ap) = Inr (ap_redactor ap)"
proof -
  from assms obtain cfg ws where l: "LoadConfig en = Inr (cfg, ws)" by (auto simp: start_def split: sum.splits)
  with assms obtain d where
    d: "NewDB (mn_db_error mn (cfg_DatabasePath cfg)) (mn_db_fk mn (cfg_DatabasePath cfg)) (mn_db_file mn (cfg_DatabasePath cfg)) = Inr d"
    by (auto simp: start_def split: sum.splits)
  from assms l d obtain v where v: "InitVault (mn_vault_lib mn) (mn_nonce mn) (mn_write mn) (mn_file mn (cfg_VaultLocalPath cfg))
      (mn_schema mn) (mn_table mn) (cfg_VaultProvider cfg) (vault_key cfg) = Inr v"
    by (auto simp: start_def split: sum.splits)
  obtain x where x: "start_validator cfg = Inr x" using start_validator_ok LoadConfig_InrD [OF l] by blast
  obtain y where y: "start_redactor (mn_regexp mn) cfg = Inr y" using start_redactor_ok by blast
  show ?thesis using assms l x y InitVault_key [OF v] by (intro that [of ws]) (auto simp: start_def d v)
qed

lemma start_InlD:
  assumes "start mn en = Inl e"
  shows "e \<noteq> OAuthFailed x \<and> e \<noteq> RedactionFailed x"
proof (cases "LoadConfig en")
  case (Inr l)
  then obtain cfg ws where l: "LoadConfig en = Inr (cfg, ws)" by (cases l) auto
  obtain v where v: "start_validator cfg = Inr v" using start_validator_ok LoadConfig_InrD [OF l] by blast
  obtain y where y: "start_redactor (mn_regexp mn) cfg = Inr y" using start_redactor_ok by blast
  from assms show ?thesis by (auto simp: start_def l v y split: sum.splits)
qed (use assms in \<open>auto simp: start_def\<close>)

fun dials_public :: "event \<Rightarrow> bool" where
  "dials_public (Dialled (ByAddr a p)) \<longleftrightarrow> \<not> in_private_block a"
| "dials_public (Dialled (ByName name)) \<longleftrightarrow> False"
| "dials_public e \<longleftrightarrow> True"

lemma event_allowed_public: "\<not> AllowPrivate pol \<Longrightarrow> event_allowed pol e \<Longrightarrow> dials_public e"
  by (cases e rule: dials_public.cases) auto

lemma start_client_egress [simp]:
  "gc_egress (start_client cfg) = \<lparr>Allowlist = cfg_EgressAllowlist cfg, AllowPrivate = cfg_EgressAllowPrivate cfg\<rparr>"
  "gc_maxRetries (start_client cfg) = cfg_DownstreamRetries cfg"
  by (simp_all add: start_client_def SetMaxRetries_def EnableResponseCache_def EnableSecretCache_def NewGatewayClient_def)

lemma read_config_egress: "cfg_EgressAllowPrivate (read_config en) = getBool en ''EGRESS_ALLOW_PRIVATE'' False"
  "cfg_EgressAllowlist (read_config en) = splitList (Getenv en ''EGRESS_ALLOWLIST'')"
  by (simp_all add: read_config_def Let_def)

subsection \<open>Routes\<close>

text \<open>A request of an agent is one step of the MCP server, or leaves it as it is.\<close>

lemma agent_mux_step:
  assumes "agent_mux cfg lib oc flush r (pr_server p) = Some (rep, s')"
  shows "s' = pr_server p \<or> (\<exists>op. p\<lparr>pr_server := s'\<rparr> = mcp_step cfg lib op p)"
proof -
  have "s' = pr_server p \<or> p\<lparr>pr_server := s'\<rparr> \<in>
      {mcp_step cfg lib (Streamable oc r) p, mcp_step cfg lib (OpenSSE oc flush r) p, mcp_step cfg lib (Messages oc r) p}"
    using assms by (auto simp: agent_mux_def sse_route_def mcp_route_def on_server_def split: if_splits)
  then show ?thesis by blast
qed

lemma agent_mux_unprivileged:
  assumes "agent_mux cfg lib oc flush r s = Some (rep, s')" "url_path (mh_url r) \<noteq> Some ''/messages''"
    "\<not> admin_token cfg lib (ms_db s) (extractToken r)"
  shows "same_config s' s"
proof -
  have "same_config (snd (ServeStreamable cfg lib oc r s)) s" "same_config (snd (ServeSSE cfg lib oc flush r s)) s" "same_config s s"
    using ServeStreamable_unprivileged [OF assms(3)] by (auto simp: ServeSSE_def Let_def same_config_def split: option.split)
  then show ?thesis
    using assms(1,2) by (auto simp: agent_mux_def sse_route_def mcp_route_def split: if_splits)
qed

subsection \<open>The logged query\<close>

definition values_of :: "string \<Rightarrow> (string \<times> string) list \<Rightarrow> string list" where
  "values_of k ps = map snd (filter (\<lambda>p. fst p = k) ps)"

lemma values_add_keys: "distinct (map fst vs) \<Longrightarrow> distinct (map fst (foldl values_add vs ps))"
  by (induction ps arbitrary: vs) (auto simp: values_add_def distinct_update split: option.splits)

lemma map_of_URL_Query: "map_of (URL_Query q) k = (if values_of k (query_pairs q) = [] then None else Some (values_of k (query_pairs q)))"
  unfolding URL_Query_def values_add_get values_of_def by (simp split: option.splits)

lemma values_of_pairs:
  assumes "distinct (map fst vs)"
  shows "values_of k (values_pairs vs) = (case map_of vs k of None \<Rightarrow> [] | Some ws \<Rightarrow> ws)"
proof -
  have "values_of k (concat (map (\<lambda>a. map (Pair a) (f a)) ks)) = (if k \<in> set ks then f k else [])" if "distinct ks" for f :: "string \<Rightarrow> string list" and ks
    using that
  proof (induction ks)
    case (Cons a ks)
    have "map snd (filter (\<lambda>p. fst p = k) (map (Pair a) ws)) = (if k = a then ws else [])" for ws :: "string list"
      by (induction ws) auto
    with Cons show ?case by (auto simp: values_of_def)
  qed (simp add: values_of_def)
  from this [of "sort (map fst vs)" "\<lambda>k. the (map_of vs k)"] assms map_of_eq_None_iff [of vs k] show ?thesis
    by (cases "map_of vs k") (simp_all add: values_pairs_def)
qed

lemma map_of_redacted:
  "map_of (map (\<lambda>(key, vs). (key, if P key then map (\<lambda>_. x) vs else vs)) ps) k =
     map_option (\<lambda>vs. if P k then map (\<lambda>_. x) vs else vs) (map_of ps k)"
  by (induction ps) auto

lemma redactQuery_values:
  assumes "q \<noteq> []" "\<not> query_error q"
  shows "values_of k (query_pairs (redactQuery q)) =
    (if sensitive_key k then map (\<lambda>_. ''REDACTED'') (values_of k (query_pairs q)) else values_of k (query_pairs q))"
proof -
  let ?vs = "map (\<lambda>(key, vs). (key, if sensitive_key key then map (\<lambda>_. ''REDACTED'') vs else vs)) (URL_Query q)"
  have "map fst ?vs = map fst (URL_Query q)" by auto
  moreover have "distinct (map fst (URL_Query q))" using values_add_keys [of "[]" "query_pairs q"] by (simp add: URL_Query_def)
  ultimately have "distinct (map fst ?vs)" by (simp only:)
  then have "values_of k (query_pairs (redactQuery q)) = (case map_of ?vs k of None \<Rightarrow> [] | Some ws \<Rightarrow> ws)"
    using assms by (simp add: redactQuery_def query_pairs_Encode values_of_pairs)
  then show ?thesis by (simp add: map_of_redacted map_of_URL_Query)
qed

section \<open>Properties\<close>

text \<open>C7: The gateway fails closed. When it starts, the key of the sessions and the master token have at least 32 bytes, the
  key of the vault at least 16, a password for the local administrator at least 12, and OAuth is on only with a resource
  and trusted issuers. When it does not start, the reason is the configuration, the database or the vault, never the
  settings of OAuth or of the redaction: a configuration that passes \<^verbatim>\<open>LoadConfig\<close> gives a validator and a redactor. And
  unless \<^verbatim>\<open>EGRESS_ALLOW_PRIVATE\<close> was set, no call of any agent ever connects to an address that is not public.\<close>

theorem startup_fails_closed:
  assumes "url_lib_ok lib"
  shows "case start mn en of
      Inl e \<Rightarrow> \<forall>x. e \<noteq> OAuthFailed x \<and> e \<noteq> RedactionFailed x
    | Inr ap \<Rightarrow>
        32 \<le> length (jwtSecret (ap_auth ap)) \<and> 32 \<le> length (gatewayToken (ap_auth ap)) \<and>
        16 \<le> length (vault_key (ap_config ap)) \<and>
        (cfg_AdminPassword (ap_config ap) = [] \<or> 12 \<le> length (cfg_AdminPassword (ap_config ap))) \<and>
        (\<forall>v. ap_validator ap = Some v \<longrightarrow>
           oa_ResourceURI (vd_config v) \<noteq> [] \<and> oa_AuthorizationServers (vd_config v) \<noteq> [] \<and> vd_cache v = Map.empty) \<and>
        (en ''EGRESS_ALLOW_PRIVATE'' = None \<longrightarrow>
           (\<forall>gc. gc_egress gc = gc_egress (ap_client ap) \<longrightarrow>
              list_all dials_public (snd (snd (ExecuteCall lib vault w conn ep params gc)))))"
proof (cases "start mn en")
  case (Inl e)
  then show ?thesis using start_InlD [OF Inl] by simp
next
  case (Inr ap)
  let ?cfg = "ap_config ap"
  from Inr obtain ws where l: "LoadConfig en = Inr (?cfg, ws)" and k: "16 \<le> length (vault_key ?cfg)"
    and c: "ap_client ap = start_client ?cfg" and a: "ap_auth ap = NewAuthManager (cfg_JWTSecret ?cfg) (cfg_GatewayToken ?cfg)"
    and v: "start_validator ?cfg = Inr (ap_validator ap)" by (rule start_InrD)
  have r: "?cfg = read_config en" "validate ?cfg = None" using LoadConfig_InrD [OF l] by blast+
  have "list_all dials_public (snd (snd (ExecuteCall lib vault w conn ep params gc)))"
    if "en ''EGRESS_ALLOW_PRIVATE'' = None" "gc_egress gc = gc_egress (ap_client ap)" for gc
  proof -
    have "\<not> AllowPrivate (gc_egress gc)" using that(1) r(1) by (simp add: that(2) c read_config_egress getBool_def)
    then show ?thesis using ExecuteCall_allowed [OF assms] event_allowed_public by (auto simp: list_all_iff)
  qed
  moreover have "oa_ResourceURI (vd_config x) \<noteq> [] \<and> oa_AuthorizationServers (vd_config x) \<noteq> [] \<and> vd_cache x = Map.empty"
    if "ap_validator ap = Some x" for x
    using v that validate_None(5) [OF r(2)] by (auto simp: start_validator_def NewValidator_def oauth_settings_def split: if_splits)
  ultimately show ?thesis using k validate_None(1-3) [OF r(2)] by (simp add: Inr a NewAuthManager_def)
qed

definition sample_environ :: environ where
  "sample_environ =
     [''JWT_SECRET'' \<mapsto> ''0123456789abcdef0123456789abcdef'', ''GATEWAY_TOKEN'' \<mapsto> ''fedcba9876543210fedcba9876543210'',
      ''OAUTH_ENABLED'' \<mapsto> ''Yes'', ''OAUTH_RESOURCE_URI'' \<mapsto> ''https://gw'',
      ''OAUTH_AUTHORIZATION_SERVERS'' \<mapsto> ''https://idp, https://login'', ''DOWNSTREAM_RETRIES'' \<mapsto> '' 3 '']"

definition sample_machine :: machine where
  "sample_machine =
     \<lparr>mn_db_error = (\<lambda>path. None), mn_db_fk = (\<lambda>path. False), mn_db_file = (\<lambda>path. new_file), mn_vault_lib = (\<lambda>key. plain_lib), mn_nonce = [], mn_write = Written,
      mn_file = (\<lambda>path. None), mn_schema = None, mn_table = None,
      mn_regexp = \<lparr>rx_compiles = (\<lambda>p. True), rx_find = (\<lambda>p s. []), rx_expand = (\<lambda>p t s i. [])\<rparr>\<rparr>"

theorem startup_fails_closed_witness:
  "list_all dials_public (snd (snd (ExecuteCall shop_lib shop_vault shop_world shop_conn shop_ep shop_args
     (ap_client (projr (start sample_machine sample_environ))))))"
proof -
  have "\<not> isl (start sample_machine sample_environ)" by code_simp
  then obtain ap where ap: "start sample_machine sample_environ = Inr ap" by (cases "start sample_machine sample_environ") simp_all
  have "sample_environ ''EGRESS_ALLOW_PRIVATE'' = None" by code_simp
  with startup_fails_closed [OF shop_lib_ok, where mn = sample_machine and en = sample_environ, unfolded ap sum.case]
  show ?thesis unfolding ap sum.sel by blast
qed

text \<open>C24: The query string that is logged with a request of an agent gives nothing away: read back, every value of a name
  that looks like a credential is the word REDACTED, and the other values are unchanged and in order. Of a query with a
  part that cannot be read, nothing is logged but a fixed remark.\<close>

theorem logged_query_redacted:
  "(query_error q \<longrightarrow> redactQuery q = ''[unparseable query redacted]'') \<and>
   (\<not> query_error q \<longrightarrow>
      (\<forall>k. values_of k (query_pairs (redactQuery q)) =
         (if sensitive_key k then map (\<lambda>_. ''REDACTED'') (values_of k (query_pairs q)) else values_of k (query_pairs q))))"
proof (cases "q = []")
  case True
  then show ?thesis by (simp add: redactQuery_def query_error_def values_of_def query_pairs_def query_pair_def List.map_filter_def)
next
  case False
  then show ?thesis using redactQuery_values [OF False] by (simp add: redactQuery_def)
qed

theorem logged_query_redacted_witness:
  "redactQuery ''x=1&token=%zz'' = ''[unparseable query redacted]'' \<and>
   values_of ''api_key'' (query_pairs (redactQuery ''b=2&api_key=s1&a=1&api_key=s2'')) = [''REDACTED'', ''REDACTED''] \<and>
   values_of ''b'' (query_pairs (redactQuery ''b=2&api_key=s1&a=1&api_key=s2'')) = [''2'']"
proof -
  let ?q = "''b=2&api_key=s1&a=1&api_key=s2''"
  have "query_error ''x=1&token=%zz''" "\<not> query_error ?q" "sensitive_key ''api_key''" "\<not> sensitive_key ''b''"
    "values_of ''api_key'' (query_pairs ?q) = [''s1'', ''s2'']" "values_of ''b'' (query_pairs ?q) = [''2'']"
    by code_simp+
  with logged_query_redacted [of "''x=1&token=%zz''"] logged_query_redacted [of ?q] show ?thesis by simp
qed

end
