(* ===== verification/Gateway_Sso.thy ===== *)
theory Gateway_Sso
  imports Gateway_Config
begin

text \<open>
  Single sign-on of the portal, \<^verbatim>\<open>handleSSOLogin\<close> and \<^verbatim>\<open>handleSSOCallback\<close> of \<^verbatim>\<open>pkg/portal/api.go\<close>: the redirect to the
  identity provider with a state that is kept in a cookie, the exchange of the code, the verification of the ID token
  against the keys that the provider publishes, and the session for the portal. The network is an argument, as are the
  random state and the answer of the provider's token endpoint. A redirect is the URL that the code passes to
  \<^verbatim>\<open>http.Redirect\<close>. The functions that fetch and decode the keys have the same text as those of \<^verbatim>\<open>pkg/oauth\<close>.
\<close>

section \<open>Definitions\<close>

type_synonym jwks_cache = "string \<rightharpoonup> jwks \<times> int"

definition fetchJWKSURI :: "network \<Rightarrow> string \<Rightarrow> string + string" where
  "fetchJWKSURI net discoveryURL =
     (case net discoveryURL of
        Inl e \<Rightarrow> Inl (''fetch oidc discovery: '' @ e)
      | Inr (st, doc) \<Rightarrow>
          if st \<noteq> 200 then Inl (''oidc discovery returned HTTP '' @ nat_to_string st)
          else (case doc of
                  Some (JObject kvs) \<Rightarrow>
                    (case text_field kvs ''jwks_uri'' of
                       None \<Rightarrow> Inl ''decode oidc discovery''
                     | Some uri \<Rightarrow> (if uri = [] then Inl ''oidc discovery document missing jwks_uri'' else Inr uri))
                | Some JNull \<Rightarrow> Inl ''oidc discovery document missing jwks_uri''
                | _ \<Rightarrow> Inl ''decode oidc discovery''))"

definition sso_refresh :: "network \<Rightarrow> int \<Rightarrow> string \<Rightarrow> jwks_cache \<Rightarrow> (string + jwks) \<times> jwks_cache" where
  "sso_refresh net now issuer c =
     (case fetchJWKSURI net (issuer @ ''/.well-known/openid-configuration'') of
        Inl e \<Rightarrow> (Inl e, c)
      | Inr jwksURI \<Rightarrow>
          if \<not> go_HasPrefix jwksURI ''https://'' then (Inl (''oidc jwks_uri must be https, got '' @ fmt_q jwksURI), c)
          else (case fetchJWKSKeys net jwksURI of
                  Inl e \<Rightarrow> (Inl e, c)
                | Inr keys \<Rightarrow> (Inr keys, c(issuer \<mapsto> (keys, now)))))"

definition sso_fetchJWKS :: "network \<Rightarrow> int \<Rightarrow> string \<Rightarrow> jwks_cache \<Rightarrow> (string + jwks) \<times> jwks_cache" where
  "sso_fetchJWKS net now iss c =
     (let issuer = go_TrimSuffix iss ''/'' in
      if \<not> go_HasPrefix issuer ''https://'' then (Inl (''oidc issuer must be https, got '' @ fmt_q issuer), c)
      else case c issuer of
             Some (keys, fetchedAt) \<Rightarrow> if now - fetchedAt < jwksCacheTTL then (Inr keys, c) else sso_refresh net now issuer c
           | None \<Rightarrow> sso_refresh net now issuer c)"

text \<open>\<^verbatim>\<open>jwt.ParseWithClaims\<close> with the options of the code: an RSA method, a signature under the key that is selected, dates in order.\<close>

definition parse_id_token :: "oauth_lib \<Rightarrow> int \<Rightarrow> jwks \<Rightarrow> string \<Rightarrow> claim_set option" where
  "parse_id_token lib now keys token =
     (case oj_parse lib token of
        None \<Rightarrow> None
      | Some tk \<Rightarrow>
          if pj_alg tk \<notin> set valid_methods then None
          else case keyfunc keys tk of
                 None \<Rightarrow> None
               | Some k \<Rightarrow>
                   if oj_verify lib k (pj_alg tk) token \<and> oj_dates lib (pj_claims tk) now then Some (pj_claims tk) else None)"

definition verifyIDToken ::
  "oauth_lib \<Rightarrow> network \<Rightarrow> int \<Rightarrow> full_config \<Rightarrow> string \<Rightarrow> string \<Rightarrow> jwks_cache \<Rightarrow> (string + claim_set) \<times> jwks_cache" where
  "verifyIDToken lib net now cfg rawIDToken expectedNonce c =
     (case sso_fetchJWKS net now (cfg_OIDCIssuer cfg) c of
        (Inl e, c) \<Rightarrow> (Inl (''resolve issuer signing keys: '' @ e), c)
      | (Inr keys, c) \<Rightarrow>
          (case parse_id_token lib now keys rawIDToken of
             None \<Rightarrow> (Inl ''verify id token'', c)
           | Some claims \<Rightarrow>
               if go_TrimSuffix (claim_string claims ''iss'') ''/'' \<noteq> go_TrimSuffix (cfg_OIDCIssuer cfg) ''/''
               then (Inl ''id token issuer mismatch'', c)
               else if \<not> audienceContains (map_of claims ''aud'') (cfg_OIDCClientID cfg) then (Inl ''id token audience mismatch'', c)
               else if expectedNonce \<noteq> [] \<and> (claim_string claims ''nonce'' = [] \<or> claim_string claims ''nonce'' \<noteq> expectedNonce)
               then (Inl ''id token nonce mismatch'', c)
               else (Inr claims, c)))"

record sso_request =
  sq_query :: string
  sq_cookie :: "string option"
  sq_tls :: bool
  sq_host :: string

datatype sso_cookie = StateCookie string | ClearedCookie

record sso_answer =
  sa_status :: nat
  sa_redirect :: string
  sa_cookie :: "sso_cookie option"

definition redirectURI :: "full_config \<Rightarrow> sso_request \<Rightarrow> string" where
  "redirectURI cfg r =
     (let base = go_TrimSuffix (cfg_PublicBaseURL cfg) ''/'' in
      (if base = [] then (if sq_tls r then ''https'' else ''http'') @ ''://'' @ sq_host r else base) @ ''/api/auth/sso/callback'')"

definition randomState :: "string \<Rightarrow> string" where
  "randomState b = EncodeToString RawURLEncoding b"

definition handleSSOLogin :: "full_config \<Rightarrow> string \<Rightarrow> sso_request \<Rightarrow> sso_answer" where
  "handleSSOLogin cfg rnd r =
     (if cfg_OIDCIssuer cfg = [] then \<lparr>sa_status = 400, sa_redirect = [], sa_cookie = None\<rparr>
      else let st = randomState rnd in
      \<lparr>sa_status = 302,
       sa_redirect = go_TrimSuffix (cfg_OIDCIssuer cfg) ''/'' @ ''/protocol/openid-connect/auth?client_id='' @ QueryEscape (cfg_OIDCClientID cfg) @
         ''&redirect_uri='' @ QueryEscape (redirectURI cfg r) @ ''&response_type=code&scope='' @ QueryEscape ''openid profile email'' @
         ''&state='' @ QueryEscape st,
       sa_cookie = Some (StateCookie st)\<rparr>)"

text \<open>What the callback meets outside: the network for the keys, the clock, and the answer of the token endpoint to a URL and
  a form.\<close>

record sso_world =
  sw_net :: network
  sw_now :: int
  sw_exchange :: "string \<Rightarrow> string \<Rightarrow> string + nat \<times> json option"

definition sso_failure :: "string \<Rightarrow> sso_answer" where
  "sso_failure code = \<lparr>sa_status = 302, sa_redirect = ''/login?error='' @ code, sa_cookie = Some ClearedCookie\<rparr>"

definition sso_username :: "claim_set \<Rightarrow> string" where
  "sso_username claims =
     (if claim_string claims ''preferred_username'' \<noteq> [] then claim_string claims ''preferred_username''
      else if claim_string claims ''email'' \<noteq> [] then claim_string claims ''email'' else ''sso-user'')"

definition sso_role :: "full_config \<Rightarrow> string" where
  "sso_role cfg = (if cfg_OIDCDefaultRole cfg = [] then ''viewer'' else cfg_OIDCDefaultRole cfg)"

definition session_location :: "string \<Rightarrow> string \<Rightarrow> string" where
  "session_location token username = ''/#token='' @ token @ ''&username='' @ username"

text \<open>
  What \<^verbatim>\<open>http.Redirect\<close> makes of the URL that it is given, \<open>sa_redirect\<close>, for URLs that begin with one slash, as all those of
  the callback: if the URL can be parsed, the part before the first question mark, a fragment included, is cleaned like a
  path, and a slash at its end is kept. Bytes outside of ASCII are escaped. The header is written without line breaks and
  without blanks around it.
\<close>

fun clean_segments :: "string list \<Rightarrow> string list \<Rightarrow> string list" where
  "clean_segments [] done_segs = rev done_segs"
| "clean_segments (seg # segs) done_segs =
     clean_segments segs
       (if seg = [] \<or> seg = ''.'' then done_segs else if seg = ''..'' then tl done_segs else seg # done_segs)"

definition path_Clean :: "string \<Rightarrow> string" where
  "path_Clean p = CHR ''/'' # js_join ''/'' (clean_segments (js_split (CHR ''/'') p) [])"

definition url_parses :: "string \<Rightarrow> bool" where
  "url_parses url =
     (let u = takeWhile (\<lambda>c. c \<noteq> CHR ''#'') url; frag = tl (dropWhile (\<lambda>c. c \<noteq> CHR ''#'') url) in
      list_all (\<lambda>c. (0x20 :: nat) \<le> of_char c \<and> of_char c \<noteq> (0x7F :: nat)) u \<and>
      unescape False (takeWhile (\<lambda>c. c \<noteq> CHR ''?'') u) \<noteq> None \<and> unescape False frag \<noteq> None)"

definition hexEscapeNonASCII :: "string \<Rightarrow> string" where
  "hexEscapeNonASCII s =
     concat (map (\<lambda>c. let n = of_char c :: nat in
       if n < 0x80 then [c] else [CHR ''%'', hex_digit lower_hex (n div 16), hex_digit lower_hex (n mod 16)]) s)"

definition http_Redirect :: "string \<Rightarrow> string" where
  "http_Redirect url =
     hexEscapeNonASCII
       (if url_parses url
        then let u = takeWhile (\<lambda>c. c \<noteq> CHR ''?'') url; query = dropWhile (\<lambda>c. c \<noteq> CHR ''?'') url; cleaned = path_Clean u in
          (if go_HasSuffix u ''/'' \<and> \<not> go_HasSuffix cleaned ''/'' then cleaned @ ''/'' else cleaned) @ query
        else url)"

definition trim_end :: "(char \<Rightarrow> bool) \<Rightarrow> string \<Rightarrow> string" where
  "trim_end P s = rev (dropWhile P (rev s))"

definition header_value :: "string \<Rightarrow> string" where
  "header_value s =
     (let blank = (\<lambda>c. c = CHR '' '' \<or> c = CHR 0x09) in
      trim_end blank (dropWhile blank (map (\<lambda>c. if c = CHR 0x0A \<or> c = CHR 0x0D then CHR '' '' else c) s)))"

definition Location :: "sso_answer \<Rightarrow> string" where
  "Location ans = header_value (http_Redirect (sa_redirect ans))"

text \<open>The two fields of the token response; \<open>None\<close> is an error of decoding.\<close>

definition token_response :: "json option \<Rightarrow> string option" where
  "token_response doc =
     (case doc of
        Some (JObject kvs) \<Rightarrow> (case text_field kvs ''access_token'' of None \<Rightarrow> None | Some _ \<Rightarrow> text_field kvs ''id_token'')
      | Some JNull \<Rightarrow> Some []
      | _ \<Rightarrow> None)"

definition exchange_form :: "full_config \<Rightarrow> sso_request \<Rightarrow> string \<Rightarrow> string" where
  "exchange_form cfg r code =
     values_Encode (values_set ''client_secret'' (cfg_OIDCClientSecret cfg) (values_set ''client_id'' (cfg_OIDCClientID cfg)
       (values_set ''redirect_uri'' (redirectURI cfg r) (values_set ''code'' code (values_set ''grant_type'' ''authorization_code'' [])))))"

text \<open>The part of the callback after the token endpoint has answered with an ID token.\<close>

definition finish_login ::
  "auth_lib \<Rightarrow> oauth_lib \<Rightarrow> sso_world \<Rightarrow> full_config \<Rightarrow> auth_manager \<Rightarrow> string \<Rightarrow> jwks_cache \<Rightarrow> sso_answer \<times> jwks_cache" where
  "finish_login alib lib w cfg am idToken c =
     (case verifyIDToken lib (sw_net w) (sw_now w) cfg idToken [] c of
        (Inl e, c) \<Rightarrow> (sso_failure ''sso-id-token-invalid'', c)
      | (Inr claims, c) \<Rightarrow>
          (case GenerateJWT alib am (sso_username claims) (sso_role cfg) of
             None \<Rightarrow> (sso_failure ''sso-generation-failed'', c)
           | Some token \<Rightarrow>
               (\<lparr>sa_status = 302, sa_redirect = session_location token (sso_username claims), sa_cookie = Some ClearedCookie\<rparr>, c)))"

definition handleSSOCallback ::
  "auth_lib \<Rightarrow> oauth_lib \<Rightarrow> sso_world \<Rightarrow> full_config \<Rightarrow> auth_manager \<Rightarrow> sso_request \<Rightarrow> jwks_cache \<Rightarrow>
     sso_answer \<times> (string \<times> string) list \<times> jwks_cache" where
  "handleSSOCallback alib lib w cfg am r c =
     (if cfg_OIDCIssuer cfg = [] then (\<lparr>sa_status = 403, sa_redirect = [], sa_cookie = None\<rparr>, [], c)
      else let code = Query_Get (sq_query r) ''code'' in
      if code = [] then (\<lparr>sa_status = 400, sa_redirect = [], sa_cookie = None\<rparr>, [], c)
      else if sq_cookie r = None \<or> sq_cookie r = Some [] \<or> sq_cookie r \<noteq> Some (Query_Get (sq_query r) ''state'')
      then (\<lparr>sa_status = 400, sa_redirect = [], sa_cookie = None\<rparr>, [], c)
      else let tokenURL = go_TrimSuffix (cfg_OIDCIssuer cfg) ''/'' @ ''/protocol/openid-connect/token'';
               form = exchange_form cfg r code in
      (case sw_exchange w tokenURL form of
         Inl e \<Rightarrow> (sso_failure ''sso-exchange-failed'', [(tokenURL, form)], c)
       | Inr (st, doc) \<Rightarrow>
           if st \<noteq> 200 then (sso_failure ''sso-invalid-code'', [(tokenURL, form)], c)
           else (case token_response doc of
                   None \<Rightarrow> (sso_failure ''sso-parse-failed'', [(tokenURL, form)], c)
                 | Some idToken \<Rightarrow>
                     if idToken = [] then (sso_failure ''sso-missing-id-token'', [(tokenURL, form)], c)
                     else (let (ans, c') = finish_login alib lib w cfg am idToken c in (ans, [(tokenURL, form)], c')))))"

text \<open>The cache after a sequence of callbacks.\<close>

fun callbacks :: "auth_lib \<Rightarrow> oauth_lib \<Rightarrow> full_config \<Rightarrow> auth_manager \<Rightarrow> (sso_world \<times> sso_request) list \<Rightarrow> jwks_cache \<Rightarrow> jwks_cache" where
  "callbacks alib lib cfg am [] c = c"
| "callbacks alib lib cfg am ((w, r) # hs) c =
     callbacks alib lib cfg am hs (snd (snd (handleSSOCallback alib lib w cfg am r c)))"

section \<open>Lemmas\<close>

definition sso_published :: "network \<Rightarrow> string \<Rightarrow> jwks \<Rightarrow> bool" where
  "sso_published net issuer keys \<longleftrightarrow>
     (\<exists>uri. fetchJWKSURI net (issuer @ ''/.well-known/openid-configuration'') = Inr uri \<and> go_HasPrefix uri ''https://'' \<and>
        fetchJWKSKeys net uri = Inr keys)"

lemma sso_refresh_step:
  assumes "sso_refresh net now issuer c = (r, c')"
  shows "c' = c \<and> (\<exists>e. r = Inl e) \<or> (\<exists>keys. r = Inr keys \<and> sso_published net issuer keys \<and> c' = c(issuer \<mapsto> (keys, now)))"
proof (cases "fetchJWKSURI net (issuer @ ''/.well-known/openid-configuration'')")
  case (Inl e)
  then show ?thesis using assms by (auto simp: sso_refresh_def)
next
  case (Inr uri)
  show ?thesis
  proof (cases "fetchJWKSKeys net uri")
    case (Inl e)
    then show ?thesis using assms [symmetric] \<open>_ = Inr uri\<close> by (simp add: sso_refresh_def split: if_splits)
  next
    case (Inr keys)
    then show ?thesis
      using assms \<open>_ = Inr uri\<close> by (auto simp: sso_refresh_def sso_published_def split: if_splits)
  qed
qed

text \<open>The second cache of signing keys.\<close>

interpretation sso_keys: key_cache sso_published sso_fetchJWKS
proof
  fix net now iss c r c'
  assume f: "sso_fetchJWKS net now iss c = (r, c')"
  show "c' = c \<and> (\<forall>keys. r = Inr keys \<longrightarrow> (\<exists>t. c (go_TrimSuffix iss ''/'') = Some (keys, t) \<and> now - t < jwksCacheTTL)) \<or>
      (\<exists>keys. r = Inr keys \<and> sso_published net (go_TrimSuffix iss ''/'') keys \<and> c' = c(go_TrimSuffix iss ''/'' \<mapsto> (keys, now)))"
    using f by (auto simp: sso_fetchJWKS_def Let_def split: if_splits option.splits dest!: sso_refresh_step)
qed

text \<open>A callback leaves the cache as it was, or as a look for the issuer's keys did.\<close>

lemma verifyIDToken_cache: "snd (verifyIDToken lib net now cfg tok nonce c) = snd (sso_fetchJWKS net now (cfg_OIDCIssuer cfg) c)"
  by (simp add: verifyIDToken_def split: prod.split sum.split option.split)

lemma finish_login_cache: "snd (finish_login alib lib w cfg am tok c) = snd (sso_fetchJWKS (sw_net w) (sw_now w) (cfg_OIDCIssuer cfg) c)"
  using verifyIDToken_cache [of lib "sw_net w" "sw_now w" cfg tok "[]" c]
  by (auto simp: finish_login_def split: prod.split sum.split option.split)

lemma handleSSOCallback_cache:
  "snd (snd (handleSSOCallback alib lib w cfg am r c)) \<in> {c, snd (sso_fetchJWKS (sw_net w) (sw_now w) (cfg_OIDCIssuer cfg) c)}"
proof -
  have "snd (let (ans, c') = finish_login alib lib w cfg am tok c in (ans, x, c')) = (x, snd (finish_login alib lib w cfg am tok c))"
    for tok and x :: "(string \<times> string) list" by (simp add: case_prod_beta)
  then show ?thesis by (auto simp: handleSSOCallback_def Let_def finish_login_cache split: prod.split sum.split option.split)
qed

lemma handleSSOCallback_published:
  assumes "cache_published sso_published H c"
  shows "cache_published sso_published (insert (sw_net w, sw_now w) H) (snd (snd (handleSSOCallback alib lib w cfg am r c)))"
proof -
  let ?f = "sso_fetchJWKS (sw_net w) (sw_now w) (cfg_OIDCIssuer cfg) c"
  have "cache_published sso_published (insert (sw_net w, sw_now w) H) (snd ?f)"
    by (rule sso_keys.fetch_published [OF _ assms]) (rule prod.collapse [symmetric])
  with handleSSOCallback_cache [of alib lib w cfg am r c] assms show ?thesis by (auto intro: cache_published_mono)
qed

lemma callbacks_published:
  "cache_published sso_published H c \<Longrightarrow>
     cache_published sso_published (H \<union> (\<lambda>(w, r). (sw_net w, sw_now w)) ` set hs) (callbacks alib lib cfg am hs c)"
proof (induction alib lib cfg am hs c arbitrary: H rule: callbacks.induct)
  case (2 alib lib cfg am w r hs c)
  from "2.IH" [OF handleSSOCallback_published [OF "2.prems"]] show ?case by simp
qed simp

text \<open>What makes an ID token acceptable at a time.\<close>

definition id_token_valid :: "oauth_lib \<Rightarrow> full_config \<Rightarrow> int \<Rightarrow> jwks \<Rightarrow> string \<Rightarrow> claim_set \<Rightarrow> bool" where
  "id_token_valid lib cfg now keys token claims \<longleftrightarrow>
     (case oj_parse lib token of
        None \<Rightarrow> False
      | Some tk \<Rightarrow>
          claims = pj_claims tk \<and> pj_alg tk \<in> set valid_methods \<and> list_ex (\<lambda>(kid, k). oj_verify lib k (pj_alg tk) token) keys \<and>
          oj_dates lib claims now \<and> go_TrimSuffix (claim_string claims ''iss'') ''/'' = go_TrimSuffix (cfg_OIDCIssuer cfg) ''/'' \<and>
          audienceContains (map_of claims ''aud'') (cfg_OIDCClientID cfg))"

lemma parse_id_token_SomeD:
  assumes "parse_id_token lib now keys token = Some claims"
  obtains tk k where "oj_parse lib token = Some tk" "claims = pj_claims tk" "pj_alg tk \<in> set valid_methods"
    "k \<in> snd ` set keys" "oj_verify lib k (pj_alg tk) token" "oj_dates lib claims now"
  using assms by (auto simp: parse_id_token_def split: option.splits if_splits dest!: keyfunc_mem)

lemma verifyIDToken_InrD:
  assumes "verifyIDToken lib net now cfg token nonce c = (Inr claims, c')"
  obtains keys where "sso_fetchJWKS net now (cfg_OIDCIssuer cfg) c = (Inr keys, c')" "id_token_valid lib cfg now keys token claims"
    "nonce = [] \<or> claim_string claims ''nonce'' = nonce"
proof -
  obtain q w where f: "sso_fetchJWKS net now (cfg_OIDCIssuer cfg) c = (q, w)" by fastforce
  obtain keys where q: "q = Inr keys" using assms by (cases q) (auto simp: verifyIDToken_def f)
  obtain cs where p: "parse_id_token lib now keys token = Some cs"
    using assms by (cases "parse_id_token lib now keys token") (auto simp: verifyIDToken_def f q)
  have "cs = claims" "w = c'" "go_TrimSuffix (claim_string claims ''iss'') ''/'' = go_TrimSuffix (cfg_OIDCIssuer cfg) ''/''"
    "audienceContains (map_of claims ''aud'') (cfg_OIDCClientID cfg)" "nonce = [] \<or> claim_string claims ''nonce'' = nonce"
    using assms by (auto simp: verifyIDToken_def f q p split: if_splits)
  moreover from p obtain tk k where "oj_parse lib token = Some tk" "cs = pj_claims tk" "pj_alg tk \<in> set valid_methods"
    "k \<in> snd ` set keys" "oj_verify lib k (pj_alg tk) token" "oj_dates lib cs now" by (rule parse_id_token_SomeD)
  ultimately show ?thesis using f q by (intro that) (fastforce simp: id_token_valid_def list_ex_iff)+
qed

definition token_url :: "full_config \<Rightarrow> string" where
  "token_url cfg = go_TrimSuffix (cfg_OIDCIssuer cfg) ''/'' @ ''/protocol/openid-connect/token''"

text \<open>A session with another role than admin is refused as forbidden.\<close>

lemma forbidden_403:
  assumes "session_role (g_lib env) (g_auth env) r = Some role" "role \<noteq> ''admin''"
    and "url_path (rq_url r) = Some path" "clean_path path" "admin_route env oc path = Some h"
  shows "status (fst (gateway_serve env oc r g)) = 403"
proof -
  have "path \<noteq> ''/api/auth/login''" "path \<noteq> ''/metrics''" using assms(5) by (auto simp: admin_route_def)
  moreover have "AdminAuthMiddleware (g_lib env) (g_auth env) h r g = (http_error 403 ''forbidden: admin role required'', g)"
    using assms(1,2) by (auto simp: AdminAuthMiddleware_def session_role_def split: sum.splits)
  ultimately show ?thesis using assms(3-5) by (simp add: gateway_serve_def http_error_def)
qed

text \<open>The answers of the callback that carry a session.\<close>

definition is_session :: "sso_answer \<Rightarrow> bool" where
  "is_session ans \<longleftrightarrow> go_HasPrefix (sa_redirect ans) ''/#token=''"

lemma failure_no_session: "\<not> is_session (sso_failure code)" "\<not> is_session \<lparr>sa_status = n, sa_redirect = [], sa_cookie = k\<rparr>"
  by (simp_all add: is_session_def sso_failure_def go_HasPrefix_def)

lemma finish_login_sessionD:
  assumes "finish_login alib lib w cfg am idToken c = (ans, c')" "is_session ans"
  obtains claims tok where "verifyIDToken lib (sw_net w) (sw_now w) cfg idToken [] c = (Inr claims, c')"
    "GenerateJWT alib am (sso_username claims) (sso_role cfg) = Some tok"
    "ans = \<lparr>sa_status = 302, sa_redirect = session_location tok (sso_username claims), sa_cookie = Some ClearedCookie\<rparr>"
  using assms by (auto simp: finish_login_def failure_no_session split: prod.splits sum.splits option.splits)

lemma handleSSOCallback_sessionD:
  assumes "handleSSOCallback alib lib w cfg am r c = (ans, sent, c')" "is_session ans"
  obtains st code doc idToken where "sq_cookie r = Some st" "st \<noteq> []" "Query_Get (sq_query r) ''state'' = st"
    "code = Query_Get (sq_query r) ''code''" "code \<noteq> []"
    "sent = [(token_url cfg, exchange_form cfg r code)]" "sw_exchange w (token_url cfg) (exchange_form cfg r code) = Inr (200, doc)"
    "token_response doc = Some idToken" "idToken \<noteq> []" "finish_login alib lib w cfg am idToken c = (ans, c')"
  using assms
  by (auto simp: handleSSOCallback_def Let_def failure_no_session token_url_def [symmetric]
      split: if_splits prod.splits sum.splits option.splits)

text \<open>A redirect into a fragment is left as it is when there is no slash in the fragment.\<close>

lemma split_single: "d \<notin> set s \<Longrightarrow> js_split d s = [s]"
  by (induction s) auto

lemma clean_fragment:
  assumes "CHR ''/'' \<notin> set f"
  shows "path_Clean (CHR ''/'' # CHR ''#'' # f) = CHR ''/'' # CHR ''#'' # f"
proof -
  have "js_split (CHR ''/'') (CHR ''#'' # f) = [CHR ''#'' # f]" by (rule split_single) (use assms in simp)
  then show ?thesis by (simp add: path_Clean_def del: js_split.simps(2)) (simp add: js_split.simps(2) [of _ "CHR ''/''"])
qed

lemma redirect_kept:
  assumes "CHR ''/'' \<notin> set u"
  shows "http_Redirect (CHR ''/'' # CHR ''#'' # u) = hexEscapeNonASCII (CHR ''/'' # CHR ''#'' # u)"
proof -
  let ?f = "takeWhile (\<lambda>c. c \<noteq> CHR ''?'') u"
  have f: "CHR ''/'' \<notin> set ?f" using assms by (auto dest: set_takeWhileD)
  have "last (CHR ''/'' # CHR ''#'' # ?f) \<in> set (CHR ''#'' # ?f)" by simp
  then have "last (CHR ''/'' # CHR ''#'' # ?f) \<noteq> CHR ''/''" using f by auto
  then have "\<not> go_HasSuffix (CHR ''/'' # CHR ''#'' # ?f) ''/''"
    by (auto simp: go_HasSuffix_def suffix_def simp del: last.simps)
  then show ?thesis by (simp add: http_Redirect_def clean_fragment [OF f] Let_def)
qed

text \<open>A slash and two dots in a user name take the session out of the redirect.\<close>

lemma clean_dots:
  assumes "CHR ''/'' \<notin> set f" "CHR ''/'' \<notin> set v" "v \<notin> {[], ''.'', ''..''}"
  shows "path_Clean (CHR ''/'' # CHR ''#'' # f @ ''/../'' @ v) = CHR ''/'' # v"
proof -
  have a: "js_split d (x @ d # y) = x # js_split d y" if "d \<notin> set x" for d x y
    using that by (induction x) auto
  have "js_split (CHR ''/'') ((CHR ''#'' # f) @ CHR ''/'' # (''..'' @ CHR ''/'' # v)) =
      (CHR ''#'' # f) # js_split (CHR ''/'') (''..'' @ CHR ''/'' # v)"
    by (rule a) (use assms(1) in simp)
  moreover have "js_split (CHR ''/'') (''..'' @ CHR ''/'' # v) = ''..'' # js_split (CHR ''/'') v" by (rule a) simp
  ultimately have "js_split (CHR ''/'') (CHR ''/'' # CHR ''#'' # f @ ''/../'' @ v) = [[], CHR ''#'' # f, ''..'', v]"
    by (simp add: split_single [OF assms(2)])
  then show ?thesis using assms(3) by (simp add: path_Clean_def del: js_split.simps)
qed

lemma redirect_dots:
  assumes "list_all (\<lambda>c. c \<notin> set [CHR ''/'', CHR ''?'', CHR ''%'', CHR ''+'']) (f @ v)" "v \<notin> {[], ''.'', ''..''}"
  shows "http_Redirect (CHR ''/'' # CHR ''#'' # f @ ''/../'' @ v) = hexEscapeNonASCII (CHR ''/'' # v)"
proof -
  define g where "g = f @ ''/../'' @ v"
  have s: "CHR ''/'' \<notin> set f" "CHR ''/'' \<notin> set v" and q: "CHR ''?'' \<notin> set g" "CHR ''%'' \<notin> set g" "CHR ''+'' \<notin> set g"
    using assms(1) by (auto simp: list_all_iff g_def)
  have "unescape False ''/'' = Some ''/''" by (rule unescape_id) simp_all
  then have "url_parses (CHR ''/'' # CHR ''#'' # g)" using unescape_id [OF q(3,2)] by (simp add: url_parses_def)
  moreover have "takeWhile (\<lambda>c. c \<noteq> CHR ''?'') (CHR ''/'' # CHR ''#'' # g) = CHR ''/'' # CHR ''#'' # g"
    "dropWhile (\<lambda>c. c \<noteq> CHR ''?'') (CHR ''/'' # CHR ''#'' # g) = []"
    using q(1) unfolding takeWhile_eq_all_conv dropWhile_eq_Nil_conv by auto
  moreover have "\<not> go_HasSuffix (CHR ''/'' # CHR ''#'' # g) ''/''"
    using s(2) assms(2) by (cases v rule: rev_cases) (auto simp: go_HasSuffix_def suffix_def g_def)
  ultimately show ?thesis using clean_dots [OF s assms(2)] unfolding g_def [symmetric] http_Redirect_def Let_def
    by (simp only: if_True if_False simp_thms append_Nil2)
qed

text \<open>Values for the examples: a provider that has published its keys and goes down a minute later, apart from its token
  endpoint; a browser that comes back with its state.\<close>

definition sso_config :: full_config where
  "sso_config = read_config (map_of [(''OIDC_ISSUER'', ''https://idp/''), (''OIDC_CLIENT_ID'', ''https://gw'')])"

definition sso_exchange :: "string \<Rightarrow> string \<Rightarrow> string + nat \<times> json option" where
  "sso_exchange u form =
     (if u = ''https://idp/protocol/openid-connect/token'' then Inr (200, Some (JObject [(''id_token'', JString ''oa'')]))
      else Inl ''connection refused'')"

definition sso_return :: sso_request where
  "sso_return = \<lparr>sq_query = ''code=c1&state=s1'', sq_cookie = Some ''s1'', sq_tls = False, sq_host = ''gw''\<rparr>"

abbreviation sso_up :: sso_world where
  "sso_up \<equiv> \<lparr>sw_net = idp_net, sw_now = 0, sw_exchange = sso_exchange\<rparr>"

abbreviation sso_down :: sso_world where
  "sso_down \<equiv> \<lparr>sw_net = idp_down, sw_now = 60 * 10 ^ 9, sw_exchange = sso_exchange\<rparr>"

abbreviation sso_keys_kept :: jwks_cache where
  "sso_keys_kept \<equiv> [''https://idp'' \<mapsto> ([(''k1'', 7, 3)], 0)]"

abbreviation sso_welcome :: sso_answer where
  "sso_welcome \<equiv> \<lparr>sa_status = 302, sa_redirect = ''/#token=jviewer=sso-user.&username=sso-user'', sa_cookie = Some ClearedCookie\<rparr>"

lemma sso_config_fields:
  "cfg_OIDCIssuer sso_config = ''https://idp/''" "cfg_OIDCClientID sso_config = ''https://gw''" "sso_role sso_config = ''viewer''"
  by (simp_all add: sso_config_def read_config_def Let_def getEnv_def sso_role_def)

lemma sso_strings:
  "go_TrimSuffix ''https://idp/'' ''/'' = ''https://idp''" "sso_username (pj_claims idp_jwt) = ''sso-user''"
  "Query_Get ''code=c1&state=s1'' ''code'' = ''c1''" "Query_Get ''code=c1&state=s1'' ''state'' = ''s1''"
  "token_response (Some (JObject [(''id_token'', JString ''oa'')])) = Some ''oa''"
  "fetchJWKSURI idp_net ''https://idp/.well-known/openid-configuration'' = Inr ''https://idp/keys''"
  by code_simp+

lemma sso_callback:
  assumes "sso_fetchJWKS (sw_net w) (sw_now w) ''https://idp/'' c = (Inr [(''k1'', 7, 3)], c')" "sw_exchange w = sso_exchange"
    and "GenerateJWT alib am ''sso-user'' ''viewer'' = Some ''jviewer=sso-user.''"
  shows "handleSSOCallback alib idp_lib w sso_config am sso_return c =
    (sso_welcome, [(token_url sso_config, exchange_form sso_config sso_return ''c1'')], c')"
proof -
  have lib: "oj_parse idp_lib ''oa'' = Some idp_jwt" "oj_verify idp_lib (7, 3) alg tok" "oj_dates idp_lib cs t" for alg tok cs t
    by (simp_all add: idp_lib_def)
  have x: "sw_exchange w ''https://idp/protocol/openid-connect/token'' form = Inr (200, Some (JObject [(''id_token'', JString ''oa'')]))" for form
    using assms(2) by (simp add: sso_exchange_def)
  have "finish_login alib idp_lib w sso_config am ''oa'' c = (sso_welcome, c')"
    using assms(1,3) by (simp add: finish_login_def verifyIDToken_def sso_config_fields parse_id_token_def lib idp_strings sso_strings
        session_location_def)
  with x show ?thesis
    by (simp add: handleSSOCallback_def sso_config_fields sso_strings sso_return_def token_url_def)
qed

lemma sso_fetches:
  "sso_fetchJWKS idp_net 0 ''https://idp/'' Map.empty = (Inr [(''k1'', 7, 3)], sso_keys_kept)"
  "sso_fetchJWKS idp_down (60 * 10 ^ 9) ''https://idp/'' sso_keys_kept = (Inr [(''k1'', 7, 3)], sso_keys_kept)"
  by (simp_all add: sso_fetchJWKS_def sso_refresh_def sso_strings idp_strings idp_fetch idp_fields jwksCacheTTL_def)

lemma toy_viewer: "GenerateJWT toy_lib am ''sso-user'' ''viewer'' = Some ''jviewer=sso-user.''"
  by (simp add: GenerateJWT_def toy_lib_def)

lemma sso_first:
  "handleSSOCallback toy_lib idp_lib sso_up sso_config (g_auth toy_env) sso_return Map.empty =
     (sso_welcome, [(token_url sso_config, exchange_form sso_config sso_return ''c1'')], sso_keys_kept)"
  using sso_callback [of sso_up, OF _ _ toy_viewer] sso_fetches(1) by simp

lemma sso_second:
  "handleSSOCallback toy_lib idp_lib sso_down sso_config (g_auth toy_env) sso_return
     (callbacks toy_lib idp_lib sso_config (g_auth toy_env) [(sso_up, sso_return)] Map.empty) =
     (sso_welcome, [(token_url sso_config, exchange_form sso_config sso_return ''c1'')], sso_keys_kept)"
  using sso_callback [of sso_down, OF _ _ toy_viewer] sso_fetches(2) by (simp add: sso_first)

lemma sso_welcome_session: "is_session sso_welcome" by code_simp

section \<open>Properties\<close>

text \<open>C19: A sign-on gives a session only to a browser whose state cookie is the state that came back, after exactly one exchange of
  the code at the provider's token endpoint, and only for an ID token that is signed with RSA under a key this provider
  itself published over https less than five minutes ago, is within its dates and was issued by the provider for this
  client. The session is for the user of that token and has the configured role, whatever sign-ons went before.\<close>

theorem sso_session_verified:
  assumes "handleSSOCallback alib lib w cfg am r (callbacks alib lib cfg am hist Map.empty) = (ans, sent, c')"
    and "is_session ans"
  shows "sq_cookie r = Some (Query_Get (sq_query r) ''state'') \<and> sq_cookie r \<noteq> Some [] \<and> sa_cookie ans = Some ClearedCookie \<and>
    (let form = exchange_form cfg r (Query_Get (sq_query r) ''code'') in sent = [(token_url cfg, form)] \<and>
      (\<exists>doc idToken claims keys tok. sw_exchange w (token_url cfg) form = Inr (200, doc) \<and> token_response doc = Some idToken \<and>
        (\<exists>(w', r') \<in> set (hist @ [(w, r)]). sw_now w - sw_now w' < jwksCacheTTL \<and>
           sso_published (sw_net w') (go_TrimSuffix (cfg_OIDCIssuer cfg) ''/'') keys) \<and>
        id_token_valid lib cfg (sw_now w) keys idToken claims \<and>
        GenerateJWT alib am (sso_username claims) (sso_role cfg) = Some tok \<and>
        sa_redirect ans = session_location tok (sso_username claims)))"
  using assms
proof (rule handleSSOCallback_sessionD)
  fix st code doc idToken
  assume r: "sq_cookie r = Some st" "st \<noteq> []" "Query_Get (sq_query r) ''state'' = st" "code = Query_Get (sq_query r) ''code''"
    and x: "sent = [(token_url cfg, exchange_form cfg r code)]" "sw_exchange w (token_url cfg) (exchange_form cfg r code) = Inr (200, doc)"
      "token_response doc = Some idToken"
    and f: "finish_login alib lib w cfg am idToken (callbacks alib lib cfg am hist Map.empty) = (ans, c')"
  obtain claims tok where v: "verifyIDToken lib (sw_net w) (sw_now w) cfg idToken [] (callbacks alib lib cfg am hist Map.empty) = (Inr claims, c')"
    and g: "GenerateJWT alib am (sso_username claims) (sso_role cfg) = Some tok"
    and a: "ans = \<lparr>sa_status = 302, sa_redirect = session_location tok (sso_username claims), sa_cookie = Some ClearedCookie\<rparr>"
    using finish_login_sessionD [OF f assms(2)] .
  obtain keys where k: "sso_fetchJWKS (sw_net w) (sw_now w) (cfg_OIDCIssuer cfg) (callbacks alib lib cfg am hist Map.empty) = (Inr keys, c')"
    and i: "id_token_valid lib cfg (sw_now w) keys idToken claims"
    using verifyIDToken_InrD [OF v] .
  have "cache_published sso_published {} Map.empty" by (simp add: cache_published_def)
  from sso_keys.fetch_trusted [OF k callbacks_published [OF this]] obtain w' r' where "(w', r') \<in> set (hist @ [(w, r)])"
    "sw_now w - sw_now w' < jwksCacheTTL" "sso_published (sw_net w') (go_TrimSuffix (cfg_OIDCIssuer cfg) ''/'') keys" by auto
  with r x g a i show ?thesis unfolding Let_def by fastforce
qed

theorem sso_session_verified_witness:
  "\<exists>doc idToken claims keys tok. sw_exchange sso_down (token_url sso_config) (exchange_form sso_config sso_return ''c1'') = Inr (200, doc) \<and>
     token_response doc = Some idToken \<and> id_token_valid idp_lib sso_config (60 * 10 ^ 9) keys idToken claims \<and>
     GenerateJWT toy_lib (g_auth toy_env) (sso_username claims) ''viewer'' = Some tok \<and>
     ''/#token=jviewer=sso-user.&username=sso-user'' = session_location tok (sso_username claims)"
  using sso_session_verified [OF sso_second sso_welcome_session]
  by (simp add: Let_def sso_config_fields sso_return_def sso_strings) blast

text \<open>C20: A sign-on never makes an administrator unless the configuration says so. With any other role, and with the default role
  in particular, whoever presents the session that the callback gave is recognised with that role, is answered with 403
  on every administrative route, and cannot change anything in the gateway.\<close>

theorem sso_session_not_admin:
  assumes "jwt_lib_ok (g_lib env)" "sso_role cfg \<noteq> ''admin''"
    and "handleSSOCallback (g_lib env) lib w cfg (g_auth env) rq c = (ans, sent, c')" "is_session ans"
  shows "\<exists>tok user. sa_redirect ans = session_location tok user \<and>
    (\<forall>r oc g. header_get (rq_headers r) ''Authorization'' = ''Bearer '' @ tok \<longrightarrow>
       session_role (g_lib env) (g_auth env) r = Some (sso_role cfg) \<and> snd (gateway_serve env oc r g) = g \<and>
       (\<forall>path. url_path (rq_url r) = Some path \<and> clean_path path \<and> admin_route env oc path \<noteq> None \<longrightarrow>
          status (fst (gateway_serve env oc r g)) = 403))"
  using assms(3,4)
proof (rule handleSSOCallback_sessionD)
  fix st code doc idToken
  assume f: "finish_login (g_lib env) lib w cfg (g_auth env) idToken c = (ans, c')"
  obtain claims tok where g: "GenerateJWT (g_lib env) (g_auth env) (sso_username claims) (sso_role cfg) = Some tok"
    and a: "ans = \<lparr>sa_status = 302, sa_redirect = session_location tok (sso_username claims), sa_cookie = Some ClearedCookie\<rparr>"
    using finish_login_sessionD [OF f assms(4)] .
  have "session_role (g_lib env) (g_auth env) r = Some (sso_role cfg)"
    if "header_get (rq_headers r) ''Authorization'' = ''Bearer '' @ tok" for r
    using signed_session [OF assms(1) g that] by (simp add: session_role_def)
  with assms(2) a show ?thesis by (intro exI [of _ tok] exI [of _ "sso_username claims"]) (auto simp: forbidden forbidden_403)
qed

theorem sso_session_not_admin_witness:
  "\<exists>tok user. ''/#token=jviewer=sso-user.&username=sso-user'' = session_location tok user \<and>
    (\<forall>r oc g. header_get (rq_headers r) ''Authorization'' = ''Bearer '' @ tok \<longrightarrow> snd (gateway_serve toy_env oc r g) = g)"
proof -
  have l: "g_lib toy_env = toy_lib" by (simp add: toy_env_def)
  from sso_session_not_admin [of toy_env sso_config, unfolded l, OF toy_lib_ok _ sso_first sso_welcome_session]
  show ?thesis by (simp add: sso_config_fields) blast
qed

end
