(* ===== verification/Spec2Isabelle.thy ===== *)
theory Spec2Isabelle
  imports Portal_Gateway Gateway_Limiter Gateway_Imported Gateway_Sso
begin

text \<open>
Janus is a gateway that offers HTTP APIs to AI clients as MCP tools. This development is about both of its sides.
The first is its administration: the portal, a single-page application in \<^verbatim>\<open>src/pkg/portal/static/app.js\<close> on the
page \<^verbatim>\<open>index.html\<close>, and the part of the Go server that answers it, \<^verbatim>\<open>src/pkg/portal/api.go\<close> with the store
(\<^verbatim>\<open>src/pkg/storage/db.go\<close>, \<^verbatim>\<open>src/pkg/cache/cache.go\<close>), the vault (\<^verbatim>\<open>src/pkg/vault/vault.go\<close>) and the
authentication (\<^verbatim>\<open>src/pkg/auth/auth.go\<close>) behind it. The second is the traffic of the agents: the MCP server
(\<^verbatim>\<open>src/pkg/mcp/server.go\<close>) with the masking of sensitive values (\<^verbatim>\<open>src/pkg/redaction\<close>), the client that calls the
target APIs (\<^verbatim>\<open>src/pkg/gateway/client.go\<close>), the validation of OAuth tokens (\<^verbatim>\<open>src/pkg/oauth\<close>), and the rate limiter
in front of everything (\<^verbatim>\<open>src/main.go\<close>). Both are started from one configuration (\<^verbatim>\<open>src/pkg/config\<close>, \<^verbatim>\<open>src/main.go\<close>).

\<^bold>\<open>How the program works.\<close> The script keeps one global object \<^verbatim>\<open>STATE\<close> (session token, user name, the
last lists of connections, endpoints, log entries and tokens) and writes to the page. At load it
initialises \<^verbatim>\<open>STATE\<close> from \<^verbatim>\<open>localStorage\<close>; \<^verbatim>\<open>initAuth\<close> accepts a token from the fragment of an SSO redirect
and shows either the login form or the application; \<^verbatim>\<open>bootstrapApp\<close> installs the hash router and starts
all loaders. Each view has an asynchronous loader that fetches a list, stores it in \<^verbatim>\<open>STATE\<close> and renders
it; dialogs and forms post changes and start loaders again. Every request passes the \<^verbatim>\<open>fetch\<close>
interceptor, which ends the session when the server answers 401. Handlers and loaders interleave at
every \<^verbatim>\<open>await\<close>. On the server a request passes the admin middleware, which wants a bearer token signed by
the gateway with the role admin; the handlers read and write four SQL tables (connections and endpoints
through caches that every write empties) and an encrypted file of secrets. An agent presents a token to the MCP
server, over HTTP, over a stream that it opened before, or by the environment of a process; the token gives it an
identity, a role and scopes. Its tool calls pass the check of role and scope, the check that the tool was not changed,
and the masking of its arguments, and are then rendered into a request to the target API: the URL is checked against
the egress policy, the credentials are read from the vault, and the request is sent, several times if it may be
repeated. The result is masked and every call leaves an entry in a bounded channel that a worker writes to the audit log.

\<^bold>\<open>Theories of the portal, from the bottom up.\<close>
\<^item> \<^verbatim>\<open>Portal_Prelude\<close>: the string functions of JavaScript the script uses, decimal printing, list lemmas;
  the locales \<open>codec\<close> (a decoder undoes an encoder) and \<open>tally\<close> (insertion-ordered maps).
\<^item> \<^verbatim>\<open>Portal_Html\<close>: \<^verbatim>\<open>escapeHtml\<close>, \<^verbatim>\<open>statusBadge\<close>, \<^verbatim>\<open>renderTlsStatusBadge\<close>, \<^verbatim>\<open>renderMtlsStatusBadge\<close>; as
  references, the browser's decoding of character references and a scanner of markup; the locale
  \<open>hole\<close> (a rendered value that cannot change the markup around it).
\<^item> \<^verbatim>\<open>Portal_Uri\<close>: \<^verbatim>\<open>encodeURIComponent\<close>, \<^verbatim>\<open>URLSearchParams\<close>, and the client token generator.
\<^item> \<^verbatim>\<open>Portal_Data\<close>: the records and responses of the API.
\<^item> \<^verbatim>\<open>Portal_Double\<close>: IEEE double arithmetic as rounding on rationals, with its error bound.
\<^item> \<^verbatim>\<open>Portal_Charts\<close>: the key figures and the two charts of \<^verbatim>\<open>loadTelemetry\<close>, \<^verbatim>\<open>renderLatencyChart\<close> and
  \<^verbatim>\<open>renderFrequencyChart\<close>, and the average of the dashboard.
\<^item> \<^verbatim>\<open>Portal_Async\<close>: functions with \<^verbatim>\<open>await\<close> as values of a type \<open>proc\<close>, run to completion up to the next
  suspension; the event loop as a function \<open>turn\<close> and a reachability predicate; rely/guarantee
  reasoning in the locales \<open>rely\<close> and \<open>loop_invariant\<close>. \<open>drive\<close> runs one function on given answers
  with arbitrary interference at every suspension point.
\<^item> \<^verbatim>\<open>Portal_Browser\<close>: the state (\<^verbatim>\<open>STATE\<close>, \<^verbatim>\<open>localStorage\<close>, elements, location, timers, requests sent) and
  the functions all others use: the interceptor, \<^verbatim>\<open>getHeaders\<close>, \<^verbatim>\<open>showToast\<close>.
\<^item> \<^verbatim>\<open>Portal_Views\<close>: every loader and every template (\<^verbatim>\<open>loadDashboardStats\<close> to \<^verbatim>\<open>loadClientTokens\<close>,
  \<^verbatim>\<open>loadTelemetry\<close>), the namespace audit; the locale \<open>list_view\<close>, the contract of a view that shows a
  list, interpreted for four loaders.
\<^item> \<^verbatim>\<open>Portal_Forms\<close>: dialogs, forms, deletions, schema download, help search and theme; what a form control
  does to a value assigned to it follows its type in \<^verbatim>\<open>index.html\<close>.
\<^item> \<^verbatim>\<open>Portal_Router\<close>: the hash router, \<^verbatim>\<open>initAuth\<close>, \<^verbatim>\<open>bootstrapApp\<close>, login and logout.
\<^item> \<^verbatim>\<open>Portal_App\<close>: the page as loaded, the events and their handlers, the invariant \<open>portal_ok\<close> and the
  updates that keep it.
\<^item> \<^verbatim>\<open>Portal_Loop\<close>: every handler keeps the invariant; reachable states; the router's result.
\<^item> \<^verbatim>\<open>Portal_Progress\<close> and \<^verbatim>\<open>Portal_Settle\<close>: the event loop with a server that answers. The first gives the
  method (a well-founded order on what is left to run, obligations that a suspended function still has, the
  locales \<open>responsive\<close> and \<open>placeholder\<close>), the second applies it to the portal's handlers and to the five
  tables that show a loading text.

\<^bold>\<open>Theories of the gateway.\<close>
\<^item> \<^verbatim>\<open>Gateway_Prelude\<close>: string functions of Go, \<open>upsert\<close> (an insertion with \<^verbatim>\<open>ON CONFLICT DO UPDATE\<close>), the
  locales \<open>keyed_table\<close> (what a lookup returns after a save and a deletion) and \<open>simulation\<close> (a relation
  between two step functions that gives equal or related outputs on every sequence of calls).
\<^item> \<^verbatim>\<open>Gateway_Cache\<close>: the expiring cache, and that it simulates a map with expiry times, janitor or not.
\<^item> \<^verbatim>\<open>Gateway_Integrity\<close>: the content hash of a tool definition, and that it distinguishes definitions exactly
  up to the spelling of the schema's JSON; the proof is that canonical JSON is uniquely readable.
\<^item> \<^verbatim>\<open>Gateway_Store\<close>: the opening of a database that may exist and may be of an earlier version (\<open>db_file\<close>,
  \<open>initSchema\<close>, \<open>NewDB\<close>), the tables and the methods of \<^verbatim>\<open>Store\<close>, with failures of the driver, unique and foreign
  keys; well-formedness of the tables, and that the cached store simulates the uncached one.
\<^item> \<^verbatim>\<open>Gateway_Vault\<close>: the file vault, with failing writes and the migration of plaintext files.
\<^item> \<^verbatim>\<open>Gateway_Base64\<close>: the two encodings of \<^verbatim>\<open>encoding/base64\<close> that the gateway uses, with their round trip.
\<^item> \<^verbatim>\<open>Gateway_PgVault\<close>: the vault in the database, that replicas see it as one map, and the choice of a vault.
\<^item> \<^verbatim>\<open>Gateway_Auth\<close>: session tokens, the bearer header, the middlewares, the guard of \<^verbatim>\<open>/metrics\<close>.
\<^item> \<^verbatim>\<open>Gateway_Import\<close>: the import of OpenAPI documents: decoding, merging of parameters, schemas and names of tools, and
  the handler that stores them.
\<^item> \<^verbatim>\<open>Gateway_Api\<close>: requests, decoding of bodies and queries, the handlers, and all routes behind the admin
  middleware, that of the import among them.
\<^item> \<^verbatim>\<open>Gateway_Url\<close>: escaping, unescaping and query strings of \<^verbatim>\<open>net/url\<close>, with interpretations of \<open>codec\<close>.
\<^item> \<^verbatim>\<open>Gateway_Limiter\<close>: the token buckets in double arithmetic, the sweeper, and the locale \<open>budget\<close> (an amortized
  bound from a potential), which gives the number of requests that an address can get through in a time.
\<^item> \<^verbatim>\<open>Gateway_Redaction\<close>: the rules, their application to texts and to JSON values, and Luhn's check.
\<^item> \<^verbatim>\<open>Gateway_Egress\<close>: addresses as words of 32 and 128 bits, the check of a URL and the check at dialling.
\<^item> \<^verbatim>\<open>Gateway_Client\<close>: \<^verbatim>\<open>ExecuteCall\<close> and all it calls. A call returns its result, the client and the list of what it
  did to the outside (\<open>event\<close>); the locale \<open>vault_provider\<close> is what it relies on of a vault.
\<^item> \<^verbatim>\<open>Gateway_Mcp\<close>: the MCP server, its requests and transports, as a process in which calls of tools overlap: a call
  begins (\<open>start_call\<close>) and ends (\<open>end_call\<close>) in steps of their own, with any steps of others in between
  (\<open>mcp_step\<close>, \<open>mcp_trace\<close>); an invariant; the local vault is interpreted as a \<open>vault_provider\<close>.
\<^item> \<^verbatim>\<open>Gateway_OAuth\<close>: discovery and caching of signing keys, the validation of access tokens, and that the cache holds
  only what the issuers published (\<open>cache_published\<close>), whatever happened before; the locale \<open>key_cache\<close> states it once.
\<^item> \<^verbatim>\<open>Gateway_Config\<close>: the readers of environment variables (with Go's numbers and durations), the validation of the
  configuration, the start of the components from it, the routes of the agents and the query string that is logged.
\<^item> \<^verbatim>\<open>Gateway_Sso\<close>: single sign-on: the redirect to the identity provider, the callback with the exchange of the code and
  the verification of the ID token, and what \<^verbatim>\<open>http.Redirect\<close> makes of a location. Its cache of signing keys and that of \<^verbatim>\<open>Gateway_OAuth\<close> are the two
  interpretations of the locale \<open>key_cache\<close>.
\<^item> \<^verbatim>\<open>Gateway_Imported\<close>: the path of an imported tool, from the document to the URL that the client asks for.
\<^item> \<^verbatim>\<open>Portal_Gateway\<close>: page and gateway together: the relation \<open>system\<close> interleaves events of the page,
  requests that are served, requests that are lost and the clock.
\<^item> this theory: properties that span sign-on, session, router, views and reload.

\<^bold>\<open>What is shown.\<close> For every reachable state of the event loop, under every order of events and answers:
no request without a token except the login, the application visible only with a token, stored and used
token in agreement, one visible section; and that answering the pending requests, with answers of the
expected kinds, leaves no table with its loading text. For the loaders, what the page shows
after each kind of answer. For the templates, that data cannot change the markup where it is escaped. For
the numbers, bounds and accuracy in double arithmetic. For the store, cache and vault: refinement of the
uncached store and of a plain map, well-formed tables after every sequence of calls, round trips of tokens
and of secrets across restarts. For the API: no effect without an admin session, and a payload of the
expected kind on every route the page reads, which discharges the assumption about the server that the
event loop was verified under. End to end: login with a password and by single sign-on, saving and listing a connection, editing without a
change, deleting a secret. For the agents' side: no call leaves the egress policy, whatever name resolution and the
servers answer; retries are bounded and return the first answer that counts; arguments cannot change the structure of a
path or of a query, and a template is filled as by one substitution; the tables and the vault change only by calls
of a token that had the role of an administrator when its request was made or its stream was opened; without strict
pinning, listing and calling of tools agree; sessions and waiting audit entries stay within
their bounds, and the entries are written in order; an OAuth token is accepted only under a key that its issuer
published within the last five minutes, and a sign-on gives a session only to a browser with the
state in its cookie, for a user whose
ID token is verified in the same way, and never more than the configured role; the gateway starts only with strong secrets, and then never connects to a
private address unless told to; an import does not depend on the order of a document, and stores all of its tools
or reports a failure; logged queries show no credentials; masked texts do not depend on what was masked; an address gets no
more requests through than its bucket allows. Several theorems establish defects of the code: unescaped ids, the inline
handler of the token table, names inherited from the object prototype in the frequency chart, toasts
hidden too early, the hidden id kept by the connection dialog, an authentication type lost on saving, the
unescaped user name of the SSO redirect, which can even replace the session, client tokens that cannot be deleted, a metrics token that ends
the session, single sign-on never reported, endpoints left behind by their connection, a secret in use
that could not be saved, responses shared between credentials, tools with a prefix refused by strict pinning, errors
that are not masked, two dots as a path segment, bodies that depend on the order of a map or are broken by a quotation
mark, a metadata address that is not refused, waits that wrap around, sessions that outlive their token, tools hidden
by the prefix of the administrative ones, a limit that the client can evade by a header, imported paths whose
parameters are never filled in, imported tools with one name, imports that fail half-way, a default role of single sign-on that every route refuses.

\<^bold>\<open>Choices.\<close> A string is its UTF-8 encoding; lower-casing, trimming and lengths are exact on ASCII text
(\<^verbatim>\<open>Portal_Prelude\<close>). No fuel is used: every function of the model terminates, and a function that waits is
a suspended value. Numbers are exact below \<^term>\<open>2 ^ 53 :: nat\<close> and rounded above, as hypotheses say.
The server of the event loop is any function that answers a successful GET with a payload of the right
kind (\<open>typed\<close>); the records of a payload are the same on both sides, so that a member that one side does not know is
modelled as empty, as \<^verbatim>\<open>handleSettings\<close> shows. The date format, the widths of the chart containers and the random bytes are parameters.
One run of the loop is one lifetime of the page; \<^verbatim>\<open>reload()\<close> sets a flag, and the next lifetime starts from
the storage that is left (\<open>load_page\<close>). On the gateway's side a JSON body is its decoded value, a table is a
list of rows in the order of their insertion, every method of the store or the vault is atomic, and what a
request does not determine is an argument (\<open>outcome\<close>). Parameters with hypotheses: signing and verifying
session tokens (\<open>jwt_lib_ok\<close>, \<open>jwt_url_safe\<close>, for tokens that have not expired), sealing and opening with AES-GCM and the
JSON text of a map (\<open>vault_lib_ok\<close>), the JSON parser (\<open>json_lib_ok\<close>), and that SHA-256 has no collision on two
given definitions (\<open>no_collision\<close>), that printing and parsing a URL keeps its host and scheme (\<open>url_lib_ok\<close>), that
the matches of a regular expression come in order without overlap (\<open>spans_ok\<close>); without: the digest of client tokens,
the order of timestamps, the parser of URLs and of addresses, indentation of JSON, the signature and the dates of OAuth
and ID tokens, the random state of a sign-on, the order in which the database sorts. What a call meets outside is an argument (\<open>world\<close>): name resolution at each moment, the servers, the clock,
cancellation, and the order in which a Go map is visited. In the MCP server the check of a call and its execution are two
steps; the execution itself is one, so that two executions do not interleave inside it, which matters for the caches only.

\<^bold>\<open>Limits of the hypotheses.\<close> \<open>url_lib_ok\<close> speaks of URLs that the parser returned, with any query. \<open>jwt_lib_ok\<close> and
\<open>vault_lib_ok\<close> range over all names and values, while \<^verbatim>\<open>encoding/json\<close> replaces bytes that are not UTF-8: read them for
texts in UTF-8. Addresses have no IPv6 zone. The network of the OAuth and the sign-on theories answers a URL with the
document that the client of \<^verbatim>\<open>net/http\<close> ends up with, redirects followed: that a document came over https is said of
the URL asked for.

\<^bold>\<open>Not modelled.\<close> In the portal: the constant SVG text around the numbers of a chart, style sheets, static
help text, \<^verbatim>\<open>console.error\<close>, the vendored Swagger bundles. In the gateway: the contents of the generated OpenAPI document, the two demo
routes and the static files, the resolution of host names in the health probe, TLS set-up,
time-outs and connection pools of \<^verbatim>\<open>net/http\<close>, matching of regular expressions, telemetry, signals and health
checks, the demo data, the command line tools.
\<close>

section \<open>Lemmas\<close>

lemma searchParams_sso:
  assumes "CHR ''&'' \<notin> set t" "CHR ''&'' \<notin> set u"
  shows "searchParams_get (''token='' @ t @ ''&username='' @ u) ''token'' = Some (form_decode t)"
    "searchParams_get (''token='' @ t @ ''&username='' @ u) ''username'' = Some (form_decode u)"
proof -
  have "''token='' @ t @ ''&username='' @ u = ''token'' @ CHR ''='' # t @ CHR ''&'' # (''username'' @ CHR ''='' # u)"
    by simp
  then have "parse_form (''token='' @ t @ ''&username='' @ u) =
      [(form_decode ''token'', form_decode t), (form_decode ''username'', form_decode u)]"
    using parse_form_pair [of "''token''" t "''username'' @ CHR ''='' # u"] parse_form_last [of "''username''" u] assms
    by simp
  then show "searchParams_get (''token='' @ t @ ''&username='' @ u) ''token'' = Some (form_decode t)"
    "searchParams_get (''token='' @ t @ ''&username='' @ u) ''username'' = Some (form_decode u)"
    by (simp_all add: searchParams_get_def form_decode_id)
qed

lemma accept_sso_fragment:
  assumes "loc_hash b = ''#token='' @ t @ ''&username='' @ u" "CHR ''&'' \<notin> set t" "CHR ''&'' \<notin> set u"
    and "form_decode t \<noteq> []" "form_decode u \<noteq> []"
  shows "accept_sso_token b = set_hash ''#dashboard'' (store_session (form_decode t) (form_decode u) b)"
  using assms searchParams_sso [OF assms(2,3)] by (simp add: accept_sso_token_def Let_def js_startsWith_def js_or_def)

lemma encoded_no_amp: "CHR ''&'' \<notin> set (encodeURIComponent s)"
  using encodeURIComponent_no_delim by blast

text \<open>
  The fragment of the page that a browser shows after it has followed a redirect to a location that begins with a slash and
  a hash sign: the parser of URLs drops control characters and blanks at the end, tabs and line breaks anywhere, and
  percent-encodes what may not stand in a fragment.
\<close>

definition fragment_char :: "char \<Rightarrow> bool" where
  "fragment_char c \<longleftrightarrow> 0x20 < (of_char c :: nat) \<and> of_char c < (0x7F :: nat) \<and> c \<notin> set [CHR 0x22, CHR ''<'', CHR ''>'', CHR 0x60]"

definition followed_hash :: "string \<Rightarrow> string" where
  "followed_hash loc =
     concat (map (\<lambda>c. if fragment_char c then [c] else percent_byte c)
       (filter (\<lambda>c. c \<notin> set [CHR 0x09, CHR 0x0A, CHR 0x0D]) (trim_end (\<lambda>c. of_char c \<le> (0x20 :: nat)) (tl loc))))"

text \<open>What the fragment relies on: a signed token consists of characters that a fragment and a query string carry as they are.
  The parts of a JWT are in the URL-safe alphabet of base64, with dots between them.\<close>

definition query_plain :: "string \<Rightarrow> bool" where
  "query_plain s = list_all (\<lambda>c. fragment_char c \<and> c \<noteq> CHR ''&'' \<and> c \<noteq> CHR ''+'' \<and> c \<noteq> CHR ''%'') s"

definition jwt_url_safe :: "auth_lib \<Rightarrow> bool" where
  "jwt_url_safe lib \<longleftrightarrow> (\<forall>s c t. jwt_sign lib s c = Some t \<longrightarrow> query_plain t)"

lemma query_plain_decode: "query_plain s \<Longrightarrow> form_decode s = s \<and> CHR ''&'' \<notin> set s"
  by (auto simp: query_plain_def list_all_iff intro!: form_decode_id)

lemma trim_end_append: "p \<noteq> [] \<Longrightarrow> \<not> P (last p) \<Longrightarrow> trim_end P (p @ s) = p @ trim_end P s"
  by (cases p rule: rev_cases) (simp_all add: trim_end_def dropWhile_append)

lemma trim_end_id: "list_all (\<lambda>c. \<not> P c) s \<Longrightarrow> trim_end P s = s"
  by (cases s rule: rev_cases) (auto simp: trim_end_def)

lemma hexEscape_append: "hexEscapeNonASCII (s @ t) = hexEscapeNonASCII s @ hexEscapeNonASCII t"
  by (simp add: hexEscapeNonASCII_def)

lemma fragment_charD:
  assumes "fragment_char c"
  shows "of_char c < (0x80 :: nat)" "\<not> of_char c \<le> (0x20 :: nat)" "c \<notin> {CHR 0x09, CHR 0x0A, CHR 0x0D, CHR '' ''}"
proof -
  show "of_char c < (0x80 :: nat)" "\<not> of_char c \<le> (0x20 :: nat)" using assms by (auto simp: fragment_char_def)
  then show "c \<notin> {CHR 0x09, CHR 0x0A, CHR 0x0D, CHR '' ''}" by auto
qed

lemma kept_chars:
  assumes "list_all fragment_char s"
  shows "hexEscapeNonASCII s = s" "map (\<lambda>c. if c = CHR 0x0A \<or> c = CHR 0x0D then CHR '' '' else c) s = s"
    "filter (\<lambda>c. c \<notin> set [CHR 0x09, CHR 0x0A, CHR 0x0D]) s = s" "concat (map (\<lambda>c. if fragment_char c then [c] else percent_byte c) s) = s"
    "list_all (\<lambda>c. \<not> of_char c \<le> (0x20 :: nat)) s" "list_all (\<lambda>c. \<not> (c = CHR '' '' \<or> c = CHR 0x09)) s"
proof -
  show "hexEscapeNonASCII s = s"
    using assms by (induction s) (simp_all add: hexEscapeNonASCII_def fragment_charD(1))
  show "map (\<lambda>c. if c = CHR 0x0A \<or> c = CHR 0x0D then CHR '' '' else c) s = s"
    using assms fragment_charD(3) by (intro map_idI) (auto simp: list_all_iff)
  show "filter (\<lambda>c. c \<notin> set [CHR 0x09, CHR 0x0A, CHR 0x0D]) s = s"
    using assms fragment_charD(3) by (intro filter_True) (auto simp: list_all_iff)
  show "concat (map (\<lambda>c. if fragment_char c then [c] else percent_byte c) s) = s"
    using assms by (induction s) simp_all
  show "list_all (\<lambda>c. \<not> of_char c \<le> (0x20 :: nat)) s" using assms fragment_charD(2) by (simp add: list_all_iff)
  show "list_all (\<lambda>c. \<not> (c = CHR '' '' \<or> c = CHR 0x09)) s" using assms fragment_charD(3) by (auto simp: list_all_iff)
qed

lemma fragment_texts: "list_all fragment_char ''/#token=''" "list_all fragment_char ''&username=''"
  by code_simp+

text \<open>The part of a redirect that the browser keeps as it is: everything up to the user name, and the name too, if it consists
  of characters for a fragment.\<close>

lemma followed_prefix:
  assumes "list_all fragment_char p" "p \<noteq> []"
  shows "\<exists>v. followed_hash (header_value (hexEscapeNonASCII (CHR ''/'' # p @ u))) = p @ v \<and> (list_all fragment_char u \<longrightarrow> v = u)"
proof -
  let ?b = "\<lambda>c. c = CHR '' '' \<or> c = CHR 0x09" and ?c = "\<lambda>c. of_char c \<le> (0x20 :: nat)"
  let ?nl = "map (\<lambda>c. if c = CHR 0x0A \<or> c = CHR 0x0D then CHR '' '' else c)"
  let ?t = "trim_end ?c (trim_end ?b (?nl (hexEscapeNonASCII u)))"
  have q: "list_all fragment_char (CHR ''/'' # p)" using assms(1) fragment_texts(1) by simp
  have l: "\<not> ?b (last (CHR ''/'' # p))" "\<not> ?c (last p)"
    using kept_chars(5,6) [OF assms(1)] assms(2) by (auto simp: list_all_iff)
  have "header_value (hexEscapeNonASCII ((CHR ''/'' # p) @ u)) = trim_end ?b ((CHR ''/'' # p) @ ?nl (hexEscapeNonASCII u))"
    using kept_chars(1,2) [OF q] by (simp add: header_value_def hexEscape_append del: append_Cons) simp
  also have "\<dots> = (CHR ''/'' # p) @ trim_end ?b (?nl (hexEscapeNonASCII u))" by (rule trim_end_append) (use l in simp_all)
  finally have h: "header_value (hexEscapeNonASCII (CHR ''/'' # p @ u)) = CHR ''/'' # p @ trim_end ?b (?nl (hexEscapeNonASCII u))" by simp
  have "followed_hash (header_value (hexEscapeNonASCII (CHR ''/'' # p @ u))) =
      p @ concat (map (\<lambda>c. if fragment_char c then [c] else percent_byte c) (filter (\<lambda>c. c \<notin> set [CHR 0x09, CHR 0x0A, CHR 0x0D]) ?t))"
    using kept_chars(3,4) [OF assms(1)] l(2) assms(2) by (simp add: h followed_hash_def trim_end_append)
  moreover have "?t = u" if "list_all fragment_char u" using kept_chars [OF that] by (simp add: trim_end_id)
  ultimately show ?thesis using kept_chars(3,4) by auto
qed

lemma accept_session_location:
  assumes "loc_hash b = ''#token='' @ t @ ''&username='' @ u" "query_plain t" "t \<noteq> []"
  shows "st_token (STATE (accept_sso_token b)) = t" "localStorage (accept_sso_token b) token_key = Some t"
    "query_plain u \<Longrightarrow> u \<noteq> [] \<Longrightarrow> st_username (STATE (accept_sso_token b)) = u"
proof -
  note h = assms(1)
  have "parse_form (''token'' @ CHR ''='' # t @ CHR ''&'' # (''username='' @ u)) =
      (form_decode ''token'', form_decode t) # parse_form (''username='' @ u)"
    by (rule parse_form_pair) (use query_plain_decode [OF assms(2)] in auto)
  then have "searchParams_get (''token='' @ t @ ''&username='' @ u) ''token'' = Some t"
    using query_plain_decode [OF assms(2)] by (simp add: searchParams_get_def form_decode_id)
  then show "st_token (STATE (accept_sso_token b)) = t" "localStorage (accept_sso_token b) token_key = Some t"
    using assms(3) by (simp_all add: accept_sso_token_def h js_startsWith_def Let_def store_session_def token_key_def username_key_def)
  show "st_username (STATE (accept_sso_token b)) = u" if "query_plain u" "u \<noteq> []"
    using accept_sso_fragment [OF h] query_plain_decode [OF assms(2)] query_plain_decode [OF that(1)] assms(3) that(2)
    by (simp add: store_session_def)
qed

text \<open>The fragment after a redirect with a session.\<close>

lemma session_followed:
  assumes "query_plain t" "sa_redirect ans = session_location t n" "CHR ''/'' \<notin> set (tl (sa_redirect ans))"
  shows "\<exists>v. followed_hash (Location ans) = ''#token='' @ t @ ''&username='' @ v \<and> (query_plain n \<longrightarrow> v = n)"
proof -
  let ?p = "''#token='' @ t @ ''&username=''"
  have p: "list_all fragment_char ?p"
    using assms(1) fragment_texts by (auto simp: query_plain_def list_all_iff)
  have "sa_redirect ans = CHR ''/'' # CHR ''#'' # (''token='' @ t @ ''&username='' @ n)" by (simp add: assms(2) session_location_def)
  with redirect_kept assms(3) have "Location ans = header_value (hexEscapeNonASCII (CHR ''/'' # ?p @ n))"
    by (simp add: Location_def)
  moreover have "list_all fragment_char n" if "query_plain n" using that by (auto simp: query_plain_def list_all_iff)
  ultimately show ?thesis using followed_prefix [OF p, of n] by auto
qed

text \<open>For the examples: a page that is loaded from the redirect, and a library that signs nothing but plain claims.\<close>

definition plain_signer :: auth_lib where
  "plain_signer = toy_lib\<lparr>jwt_sign := (\<lambda>s c. if query_plain (cl_role c) \<and> query_plain (cl_username c) then jwt_sign toy_lib s c else None)\<rparr>"

lemma plain_signer_ok: "jwt_lib_ok plain_signer" "jwt_url_safe plain_signer"
proof -
  show "jwt_lib_ok plain_signer" using toy_lib_ok by (auto simp: jwt_lib_ok_def plain_signer_def split: if_splits)
  have "fragment_char CHR ''j''" "fragment_char CHR ''=''" "fragment_char CHR ''.''" by code_simp+
  then show "jwt_url_safe plain_signer"
    by (auto simp: jwt_url_safe_def plain_signer_def toy_lib_def query_plain_def split: if_splits)
qed

lemma plain_callback:
  "handleSSOCallback plain_signer idp_lib sso_up sso_config (g_auth toy_env) sso_return Map.empty =
     (sso_welcome, [(token_url sso_config, exchange_form sso_config sso_return ''c1'')], sso_keys_kept)"
proof -
  have plain: "query_plain ''sso-user''" "query_plain ''viewer''" by code_simp+
  have "GenerateJWT plain_signer (g_auth toy_env) ''sso-user'' ''viewer'' = Some ''jviewer=sso-user.''"
    using toy_viewer plain by (simp add: GenerateJWT_def plain_signer_def)
  with sso_callback [of sso_up] sso_fetches(1) show ?thesis by simp
qed

definition redirected_page :: browser where
  "redirected_page = load_page (sample_env\<lparr>env_hash := ''#token=jviewer=sso-user.&username=sso-user''\<rparr>)"

section \<open>Properties\<close>

text \<open>A token and a user name that come back from the SSO provider, percent-encoded in the fragment, are
  decoded to exactly those values, stored for later visits, and open the application.\<close>

theorem sso_login:
  assumes "loc_hash b = ''#token='' @ encodeURIComponent t @ ''&username='' @ encodeURIComponent u"
    and "t \<noteq> []" "u \<noteq> []"
  shows "let c = fst (run initAuth b)
    in app_visible c \<and> st_token (STATE c) = t \<and> stored c token_key = t \<and>
       st_username (STATE (accept_sso_token b)) = u \<and> stored (accept_sso_token b) username_key = u"
proof -
  have a: "accept_sso_token b = set_hash ''#dashboard'' (store_session t u b)"
    using accept_sso_fragment [OF assms(1)] assms(2,3) encoded_no_amp by (simp add: form_decode_encode)
  then have s: "st_token (STATE (accept_sso_token b)) = t" "st_username (STATE (accept_sso_token b)) = u"
    "localStorage (accept_sso_token b) token_key = Some t" "localStorage (accept_sso_token b) username_key = Some u"
    by (simp_all add: store_session_def token_key_def username_key_def)
  with initAuth_with_token [of b] assms(2) show ?thesis by (simp add: stored_def)
qed

theorem sso_login_witness:
  "app_visible (fst (run initAuth (load_page (sample_env\<lparr>env_hash :=
     ''#token='' @ encodeURIComponent ''a/b'' @ ''&username='' @ encodeURIComponent ''x+y''\<rparr>))))"
  using sso_login [of "load_page (sample_env\<lparr>env_hash :=
     ''#token='' @ encodeURIComponent ''a/b'' @ ''&username='' @ encodeURIComponent ''x+y''\<rparr>)" "''a/b''" "''x+y''"]
  by (simp add: load_page_def Let_def)

text \<open>C32: Single sign-on works end to end, provided that neither the session token nor the user name has a slash in it: when the
  browser follows the redirect with which a sign-on ended, the page takes the session from it, stores it, opens the
  application, and every request that it then sends is recognised as one of the user of the verified ID token with the
  configured role. The page shows the user's name too, unless a character in it has a meaning in a query string or is
  none for a fragment.\<close>

theorem sso_sign_on:
  assumes "jwt_lib_ok alib" "jwt_url_safe alib"
    and "handleSSOCallback alib lib w cfg am rq c = (ans, posted, c')" "is_session ans"
    and "CHR ''/'' \<notin> set (tl (sa_redirect ans))" "loc_hash b = followed_hash (Location ans)"
  shows "\<exists>idToken claims. finish_login alib lib w cfg am idToken c = (ans, c') \<and>
    verifyIDToken lib (sw_net w) (sw_now w) cfg idToken [] c = (Inr claims, c') \<and>
    (let p = fst (run initAuth b) in app_visible p \<and> stored p token_key = st_token (STATE p) \<and>
       authenticate alib am (get_request url p) = Inr \<lparr>cl_username = sso_username claims, cl_role = sso_role cfg\<rparr> \<and>
       (query_plain (sso_username claims) \<longrightarrow> st_username (STATE (accept_sso_token b)) = sso_username claims))"
  using assms(3,4)
proof (rule handleSSOCallback_sessionD)
  fix st code doc idToken
  assume f: "finish_login alib lib w cfg am idToken c = (ans, c')"
  obtain claims tok where v: "verifyIDToken lib (sw_net w) (sw_now w) cfg idToken [] c = (Inr claims, c')"
    and g: "GenerateJWT alib am (sso_username claims) (sso_role cfg) = Some tok"
    and a: "ans = \<lparr>sa_status = 302, sa_redirect = session_location tok (sso_username claims), sa_cookie = Some ClearedCookie\<rparr>"
    using finish_login_sessionD [OF f assms(4)] .
  have t: "query_plain tok" "tok \<noteq> []" using assms(1,2) g by (auto simp: jwt_lib_ok_def jwt_url_safe_def GenerateJWT_def)
  from session_followed [OF t(1), of ans "sso_username claims"] assms(5) a obtain u where
    h: "followed_hash (Location ans) = ''#token='' @ tok @ ''&username='' @ u" "query_plain (sso_username claims) \<Longrightarrow> u = sso_username claims"
    by auto
  note s = accept_session_location [OF assms(6) [unfolded h(1)] t]
  define p where "p = fst (run initAuth b)"
  have p: "app_visible p" "st_token (STATE p) = tok" "stored p token_key = tok"
    using initAuth_with_token [of b] s(1,2) t(2) by (simp_all add: p_def stored_def)
  have "authenticate alib am (get_request url p) = Inr \<lparr>cl_username = sso_username claims, cl_role = sso_role cfg\<rparr>"
    by (rule signed_session [OF assms(1) g]) (simp add: page_bearer p(2))
  moreover have "sso_username claims \<noteq> []" by (simp add: sso_username_def)
  ultimately show ?thesis using f v p s(3) h(2) by (auto simp: p_def [symmetric] Let_def)
qed

theorem sso_sign_on_witness:
  "app_visible (fst (run initAuth redirected_page)) \<and>
   (\<exists>u. authenticate plain_signer (g_auth toy_env) (get_request ''/api/connections'' (fst (run initAuth redirected_page))) =
      Inr \<lparr>cl_username = u, cl_role = ''viewer''\<rparr>)"
proof -
  have "followed_hash (Location sso_welcome) = ''#token=jviewer=sso-user.&username=sso-user''" by code_simp
  then have "loc_hash redirected_page = followed_hash (Location sso_welcome)" by (simp add: redirected_page_def load_page_def Let_def)
  moreover have "CHR ''/'' \<notin> set (tl (sa_redirect sso_welcome))" by simp
  ultimately show ?thesis
    using sso_sign_on [OF plain_signer_ok plain_callback sso_welcome_session, of redirected_page "''/api/connections''"]
    by (auto simp: Let_def sso_config_fields)
qed

text \<open>C28: A user name with a slash and two dots takes the session out of the redirect: \<^verbatim>\<open>http.Redirect\<close> cleans the location
  like a path, fragment included. Whatever session the gateway signed, the page then finds the fragment that the user name
  gives, so that a name of the form \<^verbatim>\<open>x/../#token=T&username=U\<close> signs its user on with the token \<^verbatim>\<open>T\<close>.\<close>

theorem sso_name_replaces_session:
  assumes "query_plain tok" "CHR ''/'' \<notin> set tok" "CHR ''?'' \<notin> set tok" "query_plain tok'" "tok' \<noteq> []"
    and "CHR ''/'' \<notin> set tok'" "CHR ''?'' \<notin> set tok'"
    and "sa_redirect ans = session_location tok (''x/../#token='' @ tok' @ ''&username=U'')" "loc_hash b = followed_hash (Location ans)"
  shows "st_token (STATE (accept_sso_token b)) = tok' \<and> localStorage (accept_sso_token b) token_key = Some tok'"
proof -
  let ?v = "''#token='' @ tok' @ ''&username=U''" and ?f = "''token='' @ tok @ ''&username=x''"
  have u: "sa_redirect ans = CHR ''/'' # CHR ''#'' # ?f @ ''/../'' @ ?v" by (simp add: assms(8) session_location_def)
  have "http_Redirect (sa_redirect ans) = hexEscapeNonASCII (CHR ''/'' # ?v)"
    unfolding u by (rule redirect_dots) (use assms(1-7) in \<open>auto simp: query_plain_def list_all_iff\<close>)
  also have "CHR ''/'' # ?v = session_location tok' ''U''" by (simp add: session_location_def)
  finally have "Location ans = header_value (http_Redirect (session_location tok' ''U''))"
    using redirect_kept [of "''token='' @ tok' @ ''&username=U''"] assms(6) by (simp add: Location_def session_location_def)
  then obtain w where "followed_hash (Location ans) = ''#token='' @ tok' @ ''&username='' @ w"
    using session_followed [OF assms(4), of "\<lparr>sa_status = 302, sa_redirect = session_location tok' ''U'', sa_cookie = None\<rparr>" "''U''"] assms(6)
    by (auto simp: Location_def session_location_def)
  from accept_session_location(1,2) [OF assms(9) [unfolded this] assms(4,5)] show ?thesis by simp
qed

definition fixed_page :: browser where
  "fixed_page = load_page (sample_env\<lparr>env_hash := ''#token=T2&username=U''\<rparr>)"

theorem sso_name_replaces_session_witness:
  "st_token (STATE (accept_sso_token fixed_page)) = ''T2''"
proof -
  let ?ans = "\<lparr>sa_status = 302, sa_redirect = session_location ''T1'' (''x/../#token='' @ ''T2'' @ ''&username=U''), sa_cookie = None\<rparr>"
  have "followed_hash (Location ?ans) = ''#token=T2&username=U''" by code_simp
  then have "loc_hash fixed_page = followed_hash (Location ?ans)" by (simp add: fixed_page_def load_page_def Let_def)
  moreover have "query_plain ''T1''" "query_plain ''T2''" by code_simp+
  ultimately show ?thesis using sso_name_replaces_session [of "''T1''" "''T2''" ?ans fixed_page] by simp
qed

text \<open>The gateway writes the user name into the fragment as it is: a name with a plus sign arrives with a
  blank in its place.\<close>

theorem sso_raw_username:
  assumes "loc_hash b = ''#token=t1&username='' @ ''a+b@example.com''"
  shows "st_username (STATE (accept_sso_token b)) = ''a b@example.com''"
  using accept_sso_fragment [of b "''t1''" "''a+b@example.com''"] assms
  by (simp add: store_session_def)

theorem sso_raw_username_witness:
  "st_username (STATE (accept_sso_token (load_page (sample_env\<lparr>env_hash := ''#token=t1&username=a+b@example.com''\<rparr>)))) =
     ''a b@example.com''"
  by (rule sso_raw_username) (simp add: load_page_def Let_def)

text \<open>A successful login stores the token of the response, uses it from then on and opens the
  application; other code may run while the two answers are awaited.\<close>

theorem password_login:
  assumes "res_ok res" "body res = Inr (JLogin t u)" "t \<noteq> []"
    and "\<not> js_startsWith (loc_hash (h (g (fst (run submit_login b))))) ''#token=''"
  shows "let c = drive submit_login b [(g, AFetch (Resp res)), (h, AJson (body res))]
    in app_visible c \<and> st_token (STATE c) = t \<and> stored c token_key = t"
  using drive_login [of res t u h g b, OF assms] by (simp add: Let_def)

theorem password_login_witness:
  "st_token (STATE (drive submit_login (load_page sample_env)
     [(id, AFetch (Resp (sample_response (JLogin ''t2'' ''admin'')))),
      (id, AJson (body (sample_response (JLogin ''t2'' ''admin''))))])) = ''t2''"
proof -
  have "\<not> js_startsWith (loc_hash (id (id (fst (run submit_login (load_page sample_env)))))) ''#token=''"
    by (simp add: submit_login_def try_fetch_def fetch_def Let_def load_page_def sample_env_def js_startsWith_def)
  from password_login [where res = "sample_response (JLogin ''t2'' ''admin'')" and t = "''t2''" and u = "''admin''"
      and g = id and h = id and b = "load_page sample_env", OF _ _ _ this]
  show ?thesis by (simp add: sample_response_def res_ok_def Let_def del: drive.simps)
qed

text \<open>After a session ended, by logout or because the server answered 401, the page that is loaded next
  shows the login form, not the application, and sends no request.\<close>

theorem ended_session_needs_login:
  assumes "env_storage env = localStorage (session_expired b) \<or> env_storage env = localStorage (logout b)"
    and "\<not> js_startsWith (env_hash env) ''#token=''"
  shows "let c = fst (run initAuth (load_page env)) in login_visible c \<and> \<not> app_visible c \<and> sent c = []"
proof -
  have "env_storage env token_key = None"
    using assms(1) by (auto simp: session_expired_def logout_def token_key_def username_key_def)
  then have p: "st_token (STATE (load_page env)) = []" "sent (load_page env) = []" "loc_hash (load_page env) = env_hash env"
    by (simp_all add: load_page_def Let_def)
  then have "run initAuth (load_page env) = (show_login (load_page env), [])"
    using run_initAuth(2) [of "load_page env"] assms(2) by (simp add: accept_sso_token_def)
  then show ?thesis
    using p by (simp add: show_login_def elem_ops login_visible_def app_visible_def is_hidden_def)
qed

theorem ended_session_needs_login_witness:
  "\<not> app_visible (fst (run initAuth (load_page (sample_env\<lparr>env_storage := localStorage (logout (load_page sample_env))\<rparr>))))"
  using ended_session_needs_login [of "sample_env\<lparr>env_storage := localStorage (logout (load_page sample_env))\<rparr>" "load_page sample_env"]
  by (simp add: Let_def sample_env_def js_startsWith_def)

text \<open>A view whose request is answered with 401 ends the session: the stored token is removed and the
  page is reloaded.\<close>

theorem unauthorized_ends_session:
  assumes "has_session b" "has_id b ''tokens-table-body''" "has_id b ''vault-table-body''" "status res = 401"
    and "p \<in> {loadConnections, loadAuditLogs, loadClientTokens, loadVaultSecrets}"
  shows "let c = drive p b [(g, AFetch (Resp res))] in reloading c \<and> stored c token_key = []"
proof -
  have "\<not> res_ok res" using assms(4) by (simp add: res_ok_def)
  then show ?thesis
    using assms conns.drive_refused(2) [of b res g] logs.drive_refused(2) [of b res g] toks.drive_refused(2) [of b res g]
      vault.drive_refused(2) [of b res g] by (auto simp: Let_def simp del: drive.simps)
qed

theorem unauthorized_ends_session_witness:
  "reloading (drive loadConnections sample_page [(id, AFetch (Resp \<lparr>status = 401, body = Inl []\<rparr>))])"
  using unauthorized_ends_session [of sample_page "\<lparr>status = 401, body = Inl []\<rparr>" loadConnections id]
  by (simp add: has_session_def sample_page_def has_id_def Let_def del: drive.simps)

text \<open>A toast is hidden by the timer of an earlier one: of two messages shown less than four seconds apart,
  the second disappears when the first one's time is over.\<close>

theorem toast_hidden_early:
  assumes "0 < d" "d < 4000"
  shows "let b1 = showToast m1 k1 b; b2 = showToast m2 k2 (b1\<lparr>now := now b1 + d\<rparr>); b3 = b2\<lparr>now := now b + 4000\<rparr>;
             i = length (timers b)
    in handler b3 (TimerDue i) = Some (act (timer_due i)) \<and> is_hidden (timer_due i b3) ''toast'' \<and>
       get_innerText b3 ''toast'' = m2 \<and> now b3 < now b + d + 4000"
  using assms
  by (simp add: Let_def nth_append timer_due_def is_hidden_def class_add_def get_innerText_def node_text_def)

theorem toast_hidden_early_witness:
  "is_hidden (timer_due 0 ((showToast ''b'' ''error'' ((showToast ''a'' ''error'' sample_page)\<lparr>now := 1000\<rparr>))\<lparr>now := 4000\<rparr>)) ''toast''"
  using toast_hidden_early [of 1000 "''a''" "''error''" sample_page "''b''" "''error''"]
  by (simp add: sample_page_def Let_def)

end
